theory Spec2Isabelle
  imports Complex_Main
begin

section \<open>Byte Wrangler: the entity model\<close>

text \<open>
  The mini-game lives in \<^verbatim>\<open>startGame\<close> of the main page.  JavaScript numbers are modelled
  as \<^typ>\<open>real\<close> (the rounding of doubles is not modelled), the two counters, which only
  ever count up from zero, as \<^typ>\<open>nat\<close>, and \<^verbatim>\<open>Date.now()\<close> and the countdown as
  \<^typ>\<open>int\<close>.  The controller is an object \<^verbatim>\<open>{x, y, size}\<close>; bytes and ghosts carry the
  same three fields together with a velocity and a colour, so the three object shapes are
  one extensible record.  The field \<^verbatim>\<open>size\<close> is called \<open>size_px\<close> here, and the fields
  \<^verbatim>\<open>x\<close>, \<^verbatim>\<open>y\<close> of the container \<open>zone_x\<close>, \<open>zone_y\<close>.  A colour string
  \<^verbatim>\<open>hsl(h, s%, l%)\<close> is kept as its three numbers.  Calls on the drawing context and on the
  console change no game state and are left out of the loop (the discs they draw are
  defined apart, after the loop), and so are the React states
  \<^verbatim>\<open>mousePos\<close> and \<^verbatim>\<open>isDragging\<close>, which the game writes and never reads.  The canvas
  element is 600 by 400.
\<close>

datatype colour = Hsl real nat nat

record body =
  x :: real
  y :: real
  size_px :: real

record mover = body +
  vx :: real
  vy :: real
  color :: colour

record byte = mover +
  caught :: bool
  grabbed :: bool
  targetX :: real
  targetY :: real

record ghost = mover +
  phase :: real

record zone =
  zone_x :: real
  zone_y :: real
  width :: real
  height :: real

datatype result = Playing | Success | Failed

text \<open>The React state of the component that the game reads or writes.\<close>

record react =
  showGame :: bool
  gameResult :: result
  isDeploying :: bool
  timeLeft :: int
  bytesWrangled :: nat

text \<open>
  The local variables of \<^verbatim>\<open>startGame\<close> that the callbacks close over, the React state,
  and three flags for what is scheduled: \<open>frame_pending\<close> (an animation frame requested and
  not cancelled), \<open>interval_active\<close> (the countdown interval set and not cleared) and
  \<open>listening\<close> (the mouse listeners are attached to the canvas).
\<close>

record game =
  bytes :: "byte list"
  ghosts :: "ghost list"
  controller :: body
  caughtBytes :: nat
  eatenBytes :: nat
  isDraggingLocal :: bool
  lastByteSpawn :: int
  ui :: react
  frame_pending :: bool
  interval_active :: bool
  listening :: bool

definition canvas_width :: real where
  "canvas_width = 600"

definition canvas_height :: real where
  "canvas_height = 400"

definition container :: zone where
  "container = \<lparr>zone_x = 250, zone_y = 200, width = 200, height = 100\<rparr>"

definition totalBytes :: nat where
  "totalBytes = 20"

definition totalGhosts :: nat where
  "totalGhosts = 3"

section \<open>Initialisation\<close>

text \<open>
  \<^verbatim>\<open>Math.random()\<close> is a parameter: \<open>rnd k\<close> is the result of the \<open>k\<close>-th call.  Each
  byte takes six draws and each ghost seven, in the order of the object literal.
\<close>

definition init_byte :: "(nat \<Rightarrow> real) \<Rightarrow> nat \<Rightarrow> byte" where
  "init_byte rnd i =
     \<lparr>x = rnd (6 * i) * (canvas_width - 20),
      y = rnd (6 * i + 1) * (canvas_height - 20),
      size_px = 8 + rnd (6 * i + 4) * 4,
      vx = (rnd (6 * i + 2) - 0.5) * 4,
      vy = (rnd (6 * i + 3) - 0.5) * 4,
      color = Hsl (rnd (6 * i + 5) * 360) 70 60,
      caught = False,
      grabbed = False,
      targetX = 0,
      targetY = 0\<rparr>"

definition init_ghost :: "(nat \<Rightarrow> real) \<Rightarrow> nat \<Rightarrow> ghost" where
  "init_ghost rnd i =
     \<lparr>x = rnd (6 * totalBytes + 7 * i) * canvas_width,
      y = rnd (6 * totalBytes + 7 * i + 1) * canvas_height,
      size_px = 15 + rnd (6 * totalBytes + 7 * i + 4) * 5,
      vx = (rnd (6 * totalBytes + 7 * i + 2) - 0.5) * 1.5,
      vy = (rnd (6 * totalBytes + 7 * i + 3) - 0.5) * 1.5,
      color = Hsl (200 + rnd (6 * totalBytes + 7 * i + 5) * 40) 50 50,
      phase = rnd (6 * totalBytes + 7 * i + 6) * pi * 2\<rparr>"

definition init_game :: "react \<Rightarrow> (nat \<Rightarrow> real) \<Rightarrow> game" where
  "init_game st rnd =
     \<lparr>bytes = map (init_byte rnd) [0..<totalBytes],
      ghosts = map (init_ghost rnd) [0..<totalGhosts],
      controller = \<lparr>x = canvas_width / 2, y = canvas_height / 2, size_px = 20\<rparr>,
      caughtBytes = 0,
      eatenBytes = 0,
      isDraggingLocal = False,
      lastByteSpawn = 0,
      ui = st,
      frame_pending = False,
      interval_active = False,
      listening = True\<rparr>"

section \<open>One frame of the game loop\<close>

subsection \<open>Respawn\<close>

text \<open>
  \<^verbatim>\<open>bytes.find(byte => byte.caught)\<close> returns the first byte in array order whose
  \<open>caught\<close> flag is set; the assignments that follow draw five random numbers.
\<close>

definition respawn_byte :: "(nat \<Rightarrow> real) \<Rightarrow> byte \<Rightarrow> byte" where
  "respawn_byte rnd b =
     b\<lparr>x := rnd 0 * (canvas_width - 20),
       y := rnd 1 * (canvas_height - 20),
       vx := (rnd 2 - 0.5) * 4,
       vy := (rnd 3 - 0.5) * 4,
       caught := False,
       grabbed := False,
       color := Hsl (rnd 4 * 360) 70 60\<rparr>"

fun respawn_first :: "(nat \<Rightarrow> real) \<Rightarrow> byte list \<Rightarrow> byte list" where
  "respawn_first rnd [] = []"
| "respawn_first rnd (b # bs) =
     (if caught b then respawn_byte rnd b # bs else b # respawn_first rnd bs)"

definition spawn_step :: "int \<Rightarrow> (nat \<Rightarrow> real) \<Rightarrow> game \<Rightarrow> game" where
  "spawn_step currentTime rnd s =
     (if currentTime - lastByteSpawn s > 1000
      then s\<lparr>bytes := respawn_first rnd (bytes s), lastByteSpawn := currentTime\<rparr>
      else s)"

subsection \<open>Ghosts\<close>

definition ghostSpeedMultiplier :: "nat \<Rightarrow> real" where
  "ghostSpeedMultiplier c = (if c \<ge> 10 then 2.0 else 1.0)"

definition bounce_x :: "'a mover_scheme \<Rightarrow> 'a mover_scheme" where
  "bounce_x m =
     (if x m \<le> 0 \<or> x m \<ge> canvas_width - size_px m
      then m\<lparr>vx := vx m * (- 1),
             x := max 0 (min (canvas_width - size_px m) (x m))\<rparr>
      else m)"

definition bounce_y :: "'a mover_scheme \<Rightarrow> 'a mover_scheme" where
  "bounce_y m =
     (if y m \<le> 0 \<or> y m \<ge> canvas_height - size_px m
      then m\<lparr>vy := vy m * (- 1),
             y := max 0 (min (canvas_height - size_px m) (y m))\<rparr>
      else m)"

definition update_ghost :: "real \<Rightarrow> ghost \<Rightarrow> ghost" where
  "update_ghost mult g =
     bounce_y (bounce_x (g\<lparr>x := x g + vx g * mult,
                            y := y g + vy g * mult,
                            phase := phase g + 0.1\<rparr>))"

subsection \<open>Bytes\<close>

definition move_byte :: "byte \<Rightarrow> byte" where
  "move_byte b = b\<lparr>x := x b + vx b, y := y b + vy b\<rparr>"

definition grab_check :: "body \<Rightarrow> bool \<Rightarrow> byte \<Rightarrow> byte" where
  "grab_check ctrl dragging b =
     (let distance = sqrt ((x b - x ctrl) ^ 2 + (y b - y ctrl) ^ 2)
      in if distance < size_px ctrl + size_px b \<and> dragging
         then b\<lparr>grabbed := True, targetX := x ctrl, targetY := y ctrl\<rparr>
         else b)"

text \<open>The inner \<^verbatim>\<open>ghosts.forEach\<close>: one test per ghost, the eaten counter threaded through.\<close>

definition ghost_check :: "ghost \<Rightarrow> byte \<times> nat \<Rightarrow> byte \<times> nat" where
  "ghost_check g be =
     (let b = fst be; e = snd be;
          ghostDistance = sqrt ((x b - x g) ^ 2 + (y b - y g) ^ 2)
      in if ghostDistance < size_px g + size_px b
         then (b\<lparr>caught := True\<rparr>, e + 1)
         else (b, e))"

definition ghosts_check :: "ghost list \<Rightarrow> byte \<times> nat \<Rightarrow> byte \<times> nat" where
  "ghosts_check gs be = fold ghost_check gs be"

definition follow :: "body \<Rightarrow> byte \<Rightarrow> byte" where
  "follow ctrl b =
     (let dx = x ctrl - x b; dy = y ctrl - y b;
          distance = sqrt (dx * dx + dy * dy)
      in if distance > 5
         then b\<lparr>x := x b + (dx / distance) * 3, y := y b + (dy / distance) * 3\<rparr>
         else b)"

definition in_container :: "byte \<Rightarrow> bool" where
  "in_container b \<longleftrightarrow>
     x b \<ge> zone_x container \<and> x b \<le> zone_x container + width container \<and>
     y b \<ge> zone_y container \<and> y b \<le> zone_y container + height container"

text \<open>
  The body of the outer \<^verbatim>\<open>bytes.forEach\<close> for one byte.  The first block runs for a byte
  that is neither caught nor grabbed when its turn comes; the second block runs for a byte
  that is grabbed and not caught after the first block.  The result is the byte, the deposit
  counter and the eaten counter.
\<close>

definition free_block :: "body \<Rightarrow> bool \<Rightarrow> ghost list \<Rightarrow> byte \<times> nat \<Rightarrow> byte \<times> nat" where
  "free_block ctrl dragging gs be =
     (if \<not> caught (fst be) \<and> \<not> grabbed (fst be)
      then ghosts_check gs
             (grab_check ctrl dragging (bounce_y (bounce_x (move_byte (fst be)))), snd be)
      else be)"

definition held_block :: "body \<Rightarrow> byte \<times> nat \<Rightarrow> byte \<times> nat" where
  "held_block ctrl bc =
     (if grabbed (fst bc) \<and> \<not> caught (fst bc)
      then (let b = follow ctrl (fst bc)
            in if in_container b
               then (b\<lparr>caught := True, grabbed := False\<rparr>, snd bc + 1)
               else (b, snd bc))
      else bc)"

definition update_byte ::
  "body \<Rightarrow> bool \<Rightarrow> ghost list \<Rightarrow> byte \<Rightarrow> nat \<Rightarrow> nat \<Rightarrow> byte \<times> nat \<times> nat" where
  "update_byte ctrl dragging gs b c e =
     (let be = free_block ctrl dragging gs (b, e);
          bc = held_block ctrl (fst be, c)
      in (fst bc, snd bc, snd be))"

fun update_bytes ::
  "body \<Rightarrow> bool \<Rightarrow> ghost list \<Rightarrow> byte list \<Rightarrow> nat \<Rightarrow> nat \<Rightarrow> byte list \<times> nat \<times> nat" where
  "update_bytes ctrl dragging gs [] c e = ([], c, e)"
| "update_bytes ctrl dragging gs (b # bs) c e =
     (case update_byte ctrl dragging gs b c e of
        (b', c', e') \<Rightarrow>
          (case update_bytes ctrl dragging gs bs c' e' of
             (bs', c'', e'') \<Rightarrow> (b' # bs', c'', e'')))"

subsection \<open>Win and lose\<close>

text \<open>
  Both terminal branches clear the countdown interval, cancel the animation frame, remove the
  mouse listeners and return; otherwise the next frame is requested.
\<close>

definition stop_all :: "result \<Rightarrow> game \<Rightarrow> game" where
  "stop_all r s =
     s\<lparr>ui := (ui s)\<lparr>gameResult := r\<rparr>,
       interval_active := False, frame_pending := False, listening := False\<rparr>"

definition check_end :: "game \<Rightarrow> game" where
  "check_end s =
     (if caughtBytes s \<ge> totalBytes then stop_all Success s
      else if eatenBytes s \<ge> totalBytes then stop_all Failed s
      else s\<lparr>frame_pending := True\<rparr>)"

subsection \<open>The loop body\<close>

text \<open>
  \<open>play_frame\<close> is the loop body from the respawn to the end of \<^verbatim>\<open>bytes.forEach\<close>.  In
  \<open>gameLoop\<close>, \<open>cl\<close> is the React state captured by the closure when \<^verbatim>\<open>startGame\<close>
  was created: the guard at the top reads these captured values.
\<close>

definition play_frame :: "int \<Rightarrow> (nat \<Rightarrow> real) \<Rightarrow> game \<Rightarrow> game" where
  "play_frame currentTime rnd s =
     (let s1 = spawn_step currentTime rnd s;
          ghostSpeedMultiplier' = ghostSpeedMultiplier (caughtBytes s1);
          gs = map (update_ghost ghostSpeedMultiplier') (ghosts s1)
      in case update_bytes (controller s1) (isDraggingLocal s1) gs (bytes s1)
                (caughtBytes s1) (eatenBytes s1) of
           (bs, c, e) \<Rightarrow>
             s1\<lparr>ghosts := gs, bytes := bs, caughtBytes := c, eatenBytes := e,
                ui := (ui s1)\<lparr>bytesWrangled :=
                        (if c = caughtBytes s1 then bytesWrangled (ui s1) else c)\<rparr>\<rparr>)"

definition gameLoop :: "react \<Rightarrow> int \<Rightarrow> (nat \<Rightarrow> real) \<Rightarrow> game \<Rightarrow> game" where
  "gameLoop cl currentTime rnd s =
     (if \<not> showGame cl \<or> gameResult cl \<noteq> Playing \<or> isDeploying cl then s
      else check_end (play_frame currentTime rnd s))"

section \<open>The session: countdown, mouse, frames\<close>

definition timer_callback :: "game \<Rightarrow> game" where
  "timer_callback s =
     (if timeLeft (ui s) \<le> 1
      then (stop_all Failed s)\<lparr>ui := (ui (stop_all Failed s))\<lparr>timeLeft := 0\<rparr>\<rparr>
      else s\<lparr>ui := (ui s)\<lparr>timeLeft := timeLeft (ui s) - 1\<rparr>\<rparr>)"

text \<open>
  \<^verbatim>\<open>startGame\<close> with the canvas mounted (without it the function returns at once):
  initialise, attach the listeners, run the loop body once synchronously, then set the
  countdown interval.  The events of a session are the mouse events, the animation frames,
  each with the time it reads and the random numbers it draws, and the countdown ticks; a
  frame runs only if one was requested and not cancelled, a tick only while the interval is
  set, a mouse handler only while the listeners are attached.
\<close>

definition startGame :: "react \<Rightarrow> int \<Rightarrow> (nat \<Rightarrow> real) \<Rightarrow> (nat \<Rightarrow> real) \<Rightarrow> game" where
  "startGame cl currentTime rnd0 rnd =
     (gameLoop cl currentTime rnd (init_game cl rnd0))\<lparr>interval_active := True\<rparr>"

datatype event =
    MouseMove real real
  | MouseDown
  | MouseUp
  | Frame int "nat \<Rightarrow> real"
  | Timer

definition handleMouseMove :: "real \<Rightarrow> real \<Rightarrow> game \<Rightarrow> game" where
  "handleMouseMove mx my s = s\<lparr>controller := (controller s)\<lparr>x := mx, y := my\<rparr>\<rparr>"

definition handleMouseDown :: "game \<Rightarrow> game" where
  "handleMouseDown s = s\<lparr>isDraggingLocal := True\<rparr>"

definition handleMouseUp :: "game \<Rightarrow> game" where
  "handleMouseUp s = s\<lparr>isDraggingLocal := False\<rparr>"

fun step :: "react \<Rightarrow> game \<Rightarrow> event \<Rightarrow> game" where
  "step cl s (MouseMove mx my) = (if listening s then handleMouseMove mx my s else s)"
| "step cl s MouseDown = (if listening s then handleMouseDown s else s)"
| "step cl s MouseUp = (if listening s then handleMouseUp s else s)"
| "step cl s (Frame currentTime rnd) =
     (if frame_pending s then gameLoop cl currentTime rnd (s\<lparr>frame_pending := False\<rparr>) else s)"
| "step cl s Timer = (if interval_active s then timer_callback s else s)"

definition run :: "react \<Rightarrow> game \<Rightarrow> event list \<Rightarrow> game" where
  "run cl s evs = foldl (step cl) s evs"

section \<open>Byte states and overlap\<close>

text \<open>
  The state of a byte is read from its two flags: a byte is held when \<open>grabbed\<close> is set,
  captured when \<open>caught\<close> is set, and free when neither is.  The guards of the loop body
  look at both flags: the first block runs for \<open>\<not> caught \<and> \<not> grabbed\<close>, the follow
  block for \<open>grabbed \<and> \<not> caught\<close>, and respawning and drawing look at \<open>caught\<close>
  alone.  \<open>touches a b\<close> is the overlap test of the loop body, written with the Euclidean
  distance of the complex plane.
\<close>

definition is_free :: "byte \<Rightarrow> bool" where
  "is_free b \<longleftrightarrow> \<not> caught b \<and> \<not> grabbed b"

definition is_held :: "byte \<Rightarrow> bool" where
  "is_held b \<longleftrightarrow> grabbed b"

definition is_captured :: "byte \<Rightarrow> bool" where
  "is_captured b \<longleftrightarrow> caught b"

definition touches :: "'a body_scheme \<Rightarrow> 'b body_scheme \<Rightarrow> bool" where
  "touches a b \<longleftrightarrow> dist (Complex (x a) (y a)) (Complex (x b) (y b)) < size_px b + size_px a"

text \<open>
  The discs on the canvas.  A byte is drawn by
  \<^verbatim>\<open>ctx.arc(byte.x + byte.size/2, byte.y + byte.size/2, byte.size/2, 0, Math.PI * 2)\<close>
  and a ghost by the same call on \<^verbatim>\<open>ghost\<close>: the stored position is the upper left
  corner of the square around the disc (the bounce keeps it within \<open>[0, width - size]\<close>),
  and \<open>size\<close> is the diameter.  The controller is drawn by
  \<^verbatim>\<open>ctx.arc(controller.x, controller.y, controller.size, 0, Math.PI * 2)\<close>: its stored
  position is its centre and \<open>size\<close> its radius.
\<close>

definition disc_centre :: "'a mover_scheme \<Rightarrow> complex" where
  "disc_centre m = Complex (x m + size_px m / 2) (y m + size_px m / 2)"

definition disc_radius :: "'a mover_scheme \<Rightarrow> real" where
  "disc_radius m = size_px m / 2"

definition controller_centre :: "body \<Rightarrow> complex" where
  "controller_centre ctrl = Complex (x ctrl) (y ctrl)"

definition controller_radius :: "body \<Rightarrow> real" where
  "controller_radius ctrl = size_px ctrl"

text \<open>What holds of every state of a session: the array keeps its twenty bytes, and while a
  frame is pending neither counter has reached the total.\<close>

definition session_inv :: "game \<Rightarrow> bool" where
  "session_inv s \<longleftrightarrow>
     length (bytes s) = totalBytes \<and> caughtBytes s < 2 * totalBytes \<and>
     (frame_pending s \<longrightarrow> caughtBytes s < totalBytes \<and> eatenBytes s < totalBytes)"

section \<open>Concrete sessions\<close>

text \<open>
  Sessions to evaluate the game on.  \<open>draws bd gd\<close> is a sequence of \<^verbatim>\<open>Math.random()\<close>
  results in which byte \<open>i\<close> receives the six numbers \<open>bd i\<close> and ghost \<open>i\<close> the seven
  numbers \<open>gd i\<close>; \<open>byte_draws\<close> and \<open>ghost_draws\<close> are the numbers that place a byte of
  size 10 or a ghost of size 15 at a given position with a given velocity.
\<close>

definition draws :: "(nat \<Rightarrow> real list) \<Rightarrow> (nat \<Rightarrow> real list) \<Rightarrow> nat \<Rightarrow> real" where
  "draws bd gd k =
     (if k < 6 * totalBytes then bd (k div 6) ! (k mod 6)
      else gd ((k - 6 * totalBytes) div 7) ! ((k - 6 * totalBytes) mod 7))"

definition byte_draws :: "real \<Rightarrow> real \<Rightarrow> real \<Rightarrow> real \<Rightarrow> real list" where
  "byte_draws px py pvx pvy = [px / 580, py / 380, pvx / 4 + 1 / 2, pvy / 4 + 1 / 2, 1 / 2, 0]"

definition ghost_draws :: "real \<Rightarrow> real \<Rightarrow> real \<Rightarrow> real \<Rightarrow> real list" where
  "ghost_draws px py pvx pvy = [px / 600, py / 400, pvx * 2 / 3 + 1 / 2, pvy * 2 / 3 + 1 / 2, 0, 0, 0]"

definition a_byte :: "real \<Rightarrow> real \<Rightarrow> real \<Rightarrow> real \<Rightarrow> byte" where
  "a_byte px py pvx pvy =
     \<lparr>x = px, y = py, size_px = 10, vx = pvx, vy = pvy, color = Hsl 0 70 60,
      caught = False, grabbed = False, targetX = 0, targetY = 0\<rparr>"

definition b_byte ::
  "real \<Rightarrow> real \<Rightarrow> real \<Rightarrow> real \<Rightarrow> bool \<Rightarrow> bool \<Rightarrow> real \<Rightarrow> real \<Rightarrow> byte" where
  "b_byte px py pvx pvy cau gra tx ty =
     \<lparr>x = px, y = py, size_px = 10, vx = pvx, vy = pvy, color = Hsl 0 70 60,
      caught = cau, grabbed = gra, targetX = tx, targetY = ty\<rparr>"

definition a_ghost :: "real \<Rightarrow> real \<Rightarrow> real \<Rightarrow> real \<Rightarrow> real \<Rightarrow> ghost" where
  "a_ghost px py pvx pvy ph =
     \<lparr>x = px, y = py, size_px = 15, vx = pvx, vy = pvy, color = Hsl 200 50 50, phase = ph\<rparr>"

definition cl0 :: react where
  "cl0 = \<lparr>showGame = True, gameResult = Playing, isDeploying = False, timeLeft = 15,
           bytesWrangled = 0\<rparr>"

text \<open>
  \<open>session\<close> is the state of a running session (frame pending, countdown set, listeners
  attached) with its last argument the remaining time; \<open>rndH\<close> respawns a byte at
  (290, 190) with zero velocity.
\<close>

definition ctrl_at :: "real \<Rightarrow> real \<Rightarrow> body" where
  "ctrl_at mx my = \<lparr>x = mx, y = my, size_px = 20\<rparr>"

definition session ::
  "byte list \<Rightarrow> ghost list \<Rightarrow> body \<Rightarrow> bool \<Rightarrow> nat \<Rightarrow> nat \<Rightarrow> int \<Rightarrow> int \<Rightarrow> game" where
  "session bs gs ctrl dragging c e lst secs =
     \<lparr>bytes = bs, ghosts = gs, controller = ctrl, caughtBytes = c, eatenBytes = e,
      isDraggingLocal = dragging, lastByteSpawn = lst,
      ui = cl0\<lparr>timeLeft := secs, bytesWrangled := c\<rparr>,
      frame_pending = True, interval_active = True, listening = True\<rparr>"

definition rndH :: "nat \<Rightarrow> real" where
  "rndH k = (if k = 4 then 0 else 1 / 2)"

subsection \<open>Session A\<close>

text \<open>
  Byte 0 starts at (100, 100), on ghost 0; the other bytes rest at (300, 50) and the other
  ghosts at (500, 300); nothing moves.  The first frame, run by \<^verbatim>\<open>startGame\<close> at time
  5000, eats byte 0 (state \<open>stA1\<close>).  The countdown ticks once, and the frame at time 6001
  respawns byte 0 (state \<open>stA2\<close>).
\<close>

definition bdA :: "nat \<Rightarrow> real list" where
  "bdA i = (if i < 1 then byte_draws 100 100 0 0 else byte_draws 300 50 0 0)"

definition gdA :: "nat \<Rightarrow> real list" where
  "gdA i = (if i = 0 then ghost_draws 100 100 0 0 else ghost_draws 500 300 0 0)"

definition startA :: game where
  "startA = startGame cl0 5000 (draws bdA gdA) rndH"

definition stA1 :: game where
  "stA1 =
     session
       ([b_byte 100 100 0 0 True False 0 0] @
        replicate 19 (a_byte 300 50 0 0))
       [a_ghost 100 100 0 0 (1 / 10),
        a_ghost 500 300 0 0 (1 / 10),
        a_ghost 500 300 0 0 (1 / 10)]
       (ctrl_at 300 200) False 0 1 5000 15"

definition stA2 :: game where
  "stA2 =
     session
       ([a_byte 290 190 0 0] @
        replicate 19 (a_byte 300 50 0 0))
       [a_ghost 100 100 0 0 (1 / 5),
        a_ghost 500 300 0 0 (1 / 5),
        a_ghost 500 300 0 0 (1 / 5)]
       (ctrl_at 300 200) False 0 1 6001 14"

definition eventsA :: "event list" where
  "eventsA =
     [Timer, Frame 6001 rndH]"

subsection \<open>Session B\<close>

text \<open>
  Byte 0 rests at (100, 100); ghost 0 starts at (127, 100) and drifts left by 3/4 per frame.
  After the first frame (\<open>stB1\<close>) the player moves the controller onto byte 0 and presses
  the button.  The second frame, with ghost 0 at 125.5 and out of reach, grabs byte 0
  (\<open>stB2\<close>); in the third frame ghost 0 is at 124.75 and overlaps it (\<open>stB3\<close>).
\<close>

definition gdB :: "nat \<Rightarrow> real list" where
  "gdB i = (if i = 0 then ghost_draws 127 100 (- 3 / 4) 0 else ghost_draws 500 300 0 0)"

definition startB :: game where
  "startB = startGame cl0 5000 (draws bdA gdB) rndH"

definition stB1 :: game where
  "stB1 =
     session
       ([a_byte 100 100 0 0] @
        replicate 19 (a_byte 300 50 0 0))
       [a_ghost (505 / 4) 100 (- 3 / 4) 0 (1 / 10),
        a_ghost 500 300 0 0 (1 / 10),
        a_ghost 500 300 0 0 (1 / 10)]
       (ctrl_at 300 200) False 0 0 5000 15"

definition stB2 :: game where
  "stB2 =
     session
       ([b_byte 100 100 0 0 False True 100 100] @
        replicate 19 (a_byte 300 50 0 0))
       [a_ghost (251 / 2) 100 (- 3 / 4) 0 (1 / 5),
        a_ghost 500 300 0 0 (1 / 5),
        a_ghost 500 300 0 0 (1 / 5)]
       (ctrl_at 100 100) True 0 0 5000 15"

definition stB3 :: game where
  "stB3 =
     session
       ([b_byte 100 100 0 0 False True 100 100] @
        replicate 19 (a_byte 300 50 0 0))
       [a_ghost (499 / 4) 100 (- 3 / 4) 0 (3 / 10),
        a_ghost 500 300 0 0 (3 / 10),
        a_ghost 500 300 0 0 (3 / 10)]
       (ctrl_at 100 100) True 0 0 5000 15"

definition eventsB :: "event list" where
  "eventsB =
     [MouseMove 100 100, MouseDown, Frame 5016 rndH] @
     [Frame 5033 rndH]"

subsection \<open>Session C\<close>

text \<open>
  Byte 0 rests at (246, 250), four units left of the container, and ghost 0 at (272, 250),
  26 away.  After the first frame (\<open>stC1\<close>) the player moves the controller to (260, 250)
  and presses the button.  The second frame grabs byte 0 and pulls it to 249 (\<open>stC2\<close>);
  the third pulls it to 252, inside the container and 20 away from ghost 0 (\<open>stC3\<close>).
\<close>

definition bdC :: "nat \<Rightarrow> real list" where
  "bdC i = (if i < 1 then byte_draws 246 250 0 0 else byte_draws 300 50 0 0)"

definition gdC :: "nat \<Rightarrow> real list" where
  "gdC i = (if i = 0 then ghost_draws 272 250 0 0 else ghost_draws 500 300 0 0)"






subsection \<open>Session D\<close>

text \<open>
  Bytes 0 to 18 start at (100, 100) on ghost 0 and byte 19 rests at (500, 300); ghost 1
  starts at (526.25, 300) and drifts left by 3/4 per frame; ghost 2 rests at (290, 190),
  where \<open>rndH\<close> respawns.  The first frame eats nineteen bytes (\<open>stD1\<close>).  In the frame
  at time 6001 byte 0 respawns onto ghost 2, and ghost 1, at 524.75, reaches byte 19.  No
  byte ever overlaps two ghosts.
\<close>

definition bdD :: "nat \<Rightarrow> real list" where
  "bdD i = (if i < 19 then byte_draws 100 100 0 0 else byte_draws 500 300 0 0)"

definition gdD :: "nat \<Rightarrow> real list" where
  "gdD i = (if i = 0 then ghost_draws 100 100 0 0
            else if i = 1 then ghost_draws (2105 / 4) 300 (- 3 / 4) 0
            else ghost_draws 290 190 0 0)"

definition startD :: game where
  "startD = startGame cl0 5000 (draws bdD gdD) rndH"

definition stD1 :: game where
  "stD1 =
     session
       (replicate 19 (b_byte 100 100 0 0 True False 0 0) @
        [a_byte 500 300 0 0])
       [a_ghost 100 100 0 0 (1 / 10),
        a_ghost (1051 / 2) 300 (- 3 / 4) 0 (1 / 10),
        a_ghost 290 190 0 0 (1 / 10)]
       (ctrl_at 300 200) False 0 19 5000 15"

definition eventsD :: "event list" where
  "eventsD =
     [Timer, Frame 6001 rndH]"

subsection \<open>Session E\<close>

text \<open>
  The three ghosts rest at (100, 100).  Bytes 0 to 5 start there, bytes 6 to 18 rest at
  (290, 250) inside the container, and byte 19 starts at (140, 100) and moves left by 2 per
  frame.  The first frame eats bytes 0 to 5, three ghosts each: eaten counter 18 (\<open>stE1\<close>).
  The player then moves the controller to (290, 250) and keeps the button pressed.  A frame
  comes every 1001 ms, after a countdown tick; \<open>rndE\<close> respawns at (290, 250).  The second
  frame respawns byte 0, grabs and deposits it and bytes 6 to 18: deposit counter 14
  (\<open>stE2\<close>).  Each later frame respawns byte 0 and deposits it again (\<open>stE3\<close> to
  \<open>stE7\<close>).  In the eighth frame the deposit counter reaches 20 and byte 19, now at 124,
  is eaten by the three ghosts.
\<close>

definition rndE :: "nat \<Rightarrow> real" where
  "rndE k = (if k = 1 then 25 / 38 else if k = 4 then 0 else 1 / 2)"

definition bdE :: "nat \<Rightarrow> real list" where
  "bdE i = (if i < 6 then byte_draws 100 100 0 0
            else if i < 6 + 13 then byte_draws 290 250 0 0
            else byte_draws 140 100 (- 2) 0)"

definition gdE :: "nat \<Rightarrow> real list" where
  "gdE i = ghost_draws 100 100 0 0"

definition startE :: game where
  "startE = startGame cl0 5000 (draws bdE gdE) rndE"

definition stE1 :: game where
  "stE1 =
     session
       (replicate 6 (b_byte 100 100 0 0 True False 0 0) @
        replicate 13 (a_byte 290 250 0 0) @
        [a_byte 138 100 (- 2) 0])
       [a_ghost 100 100 0 0 (1 / 10),
        a_ghost 100 100 0 0 (1 / 10),
        a_ghost 100 100 0 0 (1 / 10)]
       (ctrl_at 300 200) False 0 18 5000 15"

definition stE2 :: game where
  "stE2 =
     session
       ([b_byte 290 250 0 0 True False 290 250] @
        replicate 5 (b_byte 100 100 0 0 True False 0 0) @
        replicate 13 (b_byte 290 250 0 0 True False 290 250) @
        [a_byte 136 100 (- 2) 0])
       [a_ghost 100 100 0 0 (1 / 5),
        a_ghost 100 100 0 0 (1 / 5),
        a_ghost 100 100 0 0 (1 / 5)]
       (ctrl_at 290 250) True 14 18 6001 14"

definition stE3 :: game where
  "stE3 =
     session
       ([b_byte 290 250 0 0 True False 290 250] @
        replicate 5 (b_byte 100 100 0 0 True False 0 0) @
        replicate 13 (b_byte 290 250 0 0 True False 290 250) @
        [a_byte 134 100 (- 2) 0])
       [a_ghost 100 100 0 0 (3 / 10),
        a_ghost 100 100 0 0 (3 / 10),
        a_ghost 100 100 0 0 (3 / 10)]
       (ctrl_at 290 250) True 15 18 7002 13"

definition stE4 :: game where
  "stE4 =
     session
       ([b_byte 290 250 0 0 True False 290 250] @
        replicate 5 (b_byte 100 100 0 0 True False 0 0) @
        replicate 13 (b_byte 290 250 0 0 True False 290 250) @
        [a_byte 132 100 (- 2) 0])
       [a_ghost 100 100 0 0 (2 / 5),
        a_ghost 100 100 0 0 (2 / 5),
        a_ghost 100 100 0 0 (2 / 5)]
       (ctrl_at 290 250) True 16 18 8003 12"

definition stE5 :: game where
  "stE5 =
     session
       ([b_byte 290 250 0 0 True False 290 250] @
        replicate 5 (b_byte 100 100 0 0 True False 0 0) @
        replicate 13 (b_byte 290 250 0 0 True False 290 250) @
        [a_byte 130 100 (- 2) 0])
       [a_ghost 100 100 0 0 (1 / 2),
        a_ghost 100 100 0 0 (1 / 2),
        a_ghost 100 100 0 0 (1 / 2)]
       (ctrl_at 290 250) True 17 18 9004 11"

definition stE6 :: game where
  "stE6 =
     session
       ([b_byte 290 250 0 0 True False 290 250] @
        replicate 5 (b_byte 100 100 0 0 True False 0 0) @
        replicate 13 (b_byte 290 250 0 0 True False 290 250) @
        [a_byte 128 100 (- 2) 0])
       [a_ghost 100 100 0 0 (3 / 5),
        a_ghost 100 100 0 0 (3 / 5),
        a_ghost 100 100 0 0 (3 / 5)]
       (ctrl_at 290 250) True 18 18 10005 10"

definition stE7 :: game where
  "stE7 =
     session
       ([b_byte 290 250 0 0 True False 290 250] @
        replicate 5 (b_byte 100 100 0 0 True False 0 0) @
        replicate 13 (b_byte 290 250 0 0 True False 290 250) @
        [a_byte 126 100 (- 2) 0])
       [a_ghost 100 100 0 0 (7 / 10),
        a_ghost 100 100 0 0 (7 / 10),
        a_ghost 100 100 0 0 (7 / 10)]
       (ctrl_at 290 250) True 19 18 11006 9"

definition eventsE2 :: "event list" where
  "eventsE2 =
     [MouseMove 290 250, MouseDown, Timer, Frame 6001 rndE]"

definition eventsE :: "event list" where
  "eventsE =
     [MouseMove 290 250, MouseDown, Timer, Frame 6001 rndE] @
     [Timer, Frame 7002 rndE] @
     [Timer, Frame 8003 rndE] @
     [Timer, Frame 9004 rndE] @
     [Timer, Frame 10005 rndE] @
     [Timer, Frame 11006 rndE] @
     [Timer, Frame 12007 rndE]"

subsection \<open>Session F\<close>

text \<open>
  Session E with another byte 19 and the same events: it starts at (335, 250), inside the
  container, and moves left by 2 per frame, free all the while.  In the eighth frame it is at
  319, within 30 of the controller: it is grabbed, pulled to 316 and deposited, in the same
  frame as the respawned byte 0.
\<close>

definition bdF :: "nat \<Rightarrow> real list" where
  "bdF i = (if i < 6 then byte_draws 100 100 0 0
            else if i < 6 + 13 then byte_draws 290 250 0 0
            else byte_draws 335 250 (- 2) 0)"

definition startF :: game where
  "startF = startGame cl0 5000 (draws bdF gdE) rndE"

definition stF1 :: game where
  "stF1 =
     session
       (replicate 6 (b_byte 100 100 0 0 True False 0 0) @
        replicate 13 (a_byte 290 250 0 0) @
        [a_byte 333 250 (- 2) 0])
       [a_ghost 100 100 0 0 (1 / 10),
        a_ghost 100 100 0 0 (1 / 10),
        a_ghost 100 100 0 0 (1 / 10)]
       (ctrl_at 300 200) False 0 18 5000 15"

definition stF2 :: game where
  "stF2 =
     session
       ([b_byte 290 250 0 0 True False 290 250] @
        replicate 5 (b_byte 100 100 0 0 True False 0 0) @
        replicate 13 (b_byte 290 250 0 0 True False 290 250) @
        [a_byte 331 250 (- 2) 0])
       [a_ghost 100 100 0 0 (1 / 5),
        a_ghost 100 100 0 0 (1 / 5),
        a_ghost 100 100 0 0 (1 / 5)]
       (ctrl_at 290 250) True 14 18 6001 14"

definition stF3 :: game where
  "stF3 =
     session
       ([b_byte 290 250 0 0 True False 290 250] @
        replicate 5 (b_byte 100 100 0 0 True False 0 0) @
        replicate 13 (b_byte 290 250 0 0 True False 290 250) @
        [a_byte 329 250 (- 2) 0])
       [a_ghost 100 100 0 0 (3 / 10),
        a_ghost 100 100 0 0 (3 / 10),
        a_ghost 100 100 0 0 (3 / 10)]
       (ctrl_at 290 250) True 15 18 7002 13"

definition stF4 :: game where
  "stF4 =
     session
       ([b_byte 290 250 0 0 True False 290 250] @
        replicate 5 (b_byte 100 100 0 0 True False 0 0) @
        replicate 13 (b_byte 290 250 0 0 True False 290 250) @
        [a_byte 327 250 (- 2) 0])
       [a_ghost 100 100 0 0 (2 / 5),
        a_ghost 100 100 0 0 (2 / 5),
        a_ghost 100 100 0 0 (2 / 5)]
       (ctrl_at 290 250) True 16 18 8003 12"

definition stF5 :: game where
  "stF5 =
     session
       ([b_byte 290 250 0 0 True False 290 250] @
        replicate 5 (b_byte 100 100 0 0 True False 0 0) @
        replicate 13 (b_byte 290 250 0 0 True False 290 250) @
        [a_byte 325 250 (- 2) 0])
       [a_ghost 100 100 0 0 (1 / 2),
        a_ghost 100 100 0 0 (1 / 2),
        a_ghost 100 100 0 0 (1 / 2)]
       (ctrl_at 290 250) True 17 18 9004 11"

definition stF6 :: game where
  "stF6 =
     session
       ([b_byte 290 250 0 0 True False 290 250] @
        replicate 5 (b_byte 100 100 0 0 True False 0 0) @
        replicate 13 (b_byte 290 250 0 0 True False 290 250) @
        [a_byte 323 250 (- 2) 0])
       [a_ghost 100 100 0 0 (3 / 5),
        a_ghost 100 100 0 0 (3 / 5),
        a_ghost 100 100 0 0 (3 / 5)]
       (ctrl_at 290 250) True 18 18 10005 10"

definition stF7 :: game where
  "stF7 =
     session
       ([b_byte 290 250 0 0 True False 290 250] @
        replicate 5 (b_byte 100 100 0 0 True False 0 0) @
        replicate 13 (b_byte 290 250 0 0 True False 290 250) @
        [a_byte 321 250 (- 2) 0])
       [a_ghost 100 100 0 0 (7 / 10),
        a_ghost 100 100 0 0 (7 / 10),
        a_ghost 100 100 0 0 (7 / 10)]
       (ctrl_at 290 250) True 19 18 11006 9"

subsection \<open>Session G\<close>

text \<open>
  Byte 0 rests at (100, 100); ghost 0 starts at (126.25, 100) and drifts left by 3/4 per
  frame.  After the first frame ghost 0 is at 125.5, out of reach, and byte 0 is free
  (\<open>stG1\<close>).  The player then moves the controller to (72, 100), 28 away from byte 0, and
  presses the button.  In the second frame ghost 0 is at 124.75: byte 0 is grabbed, and then
  eaten, in the same turn (\<open>stG2\<close>).
\<close>

definition gdG :: "nat \<Rightarrow> real list" where
  "gdG i = (if i = 0 then ghost_draws (505 / 4) 100 (- 3 / 4) 0 else ghost_draws 500 300 0 0)"

definition startG :: game where
  "startG = startGame cl0 5000 (draws bdA gdG) rndH"

definition stG1 :: game where
  "stG1 =
     session
       ([a_byte 100 100 0 0] @
        replicate 19 (a_byte 300 50 0 0))
       [a_ghost (251 / 2) 100 (- 3 / 4) 0 (1 / 10),
        a_ghost 500 300 0 0 (1 / 10),
        a_ghost 500 300 0 0 (1 / 10)]
       (ctrl_at 300 200) False 0 0 5000 15"

definition stG2 :: game where
  "stG2 =
     session
       ([b_byte 100 100 0 0 True True 72 100] @
        replicate 19 (a_byte 300 50 0 0))
       [a_ghost (499 / 4) 100 (- 3 / 4) 0 (1 / 5),
        a_ghost 500 300 0 0 (1 / 5),
        a_ghost 500 300 0 0 (1 / 5)]
       (ctrl_at 72 100) True 0 1 5000 15"

definition eventsG :: "event list" where
  "eventsG =
     [MouseMove 72 100, MouseDown, Frame 5016 rndH]"

section \<open>Counters and lengths along a run\<close>

lemma held_block_count: "snd bc \<le> snd (held_block ctrl bc) \<and> snd (held_block ctrl bc) \<le> snd bc + 1"
  by (simp add: held_block_def Let_def)

lemma ghost_check_count: "snd be \<le> snd (ghost_check g be) \<and> snd (ghost_check g be) \<le> snd be + 1"
  by (simp add: ghost_check_def Let_def)

lemma ghosts_check_count:
  "snd be \<le> snd (ghosts_check gs be) \<and> snd (ghosts_check gs be) \<le> snd be + length gs"
  unfolding ghosts_check_def
proof (induction gs arbitrary: be)
  case Nil
  show ?case by simp
next
  case (Cons g gs)
  from Cons.IH [of "ghost_check g be"] ghost_check_count [of be g]
  show ?case by simp
qed

lemma free_block_count:
  "snd be \<le> snd (free_block ctrl d gs be) \<and> snd (free_block ctrl d gs be) \<le> snd be + length gs"
  using ghosts_check_count [of "(grab_check ctrl d (bounce_y (bounce_x (move_byte (fst be)))), snd be)" gs]
  by (simp add: free_block_def)

lemma update_byte_count:
  assumes "update_byte ctrl d gs b c e = (b', c', e')"
  shows "c \<le> c' \<and> c' \<le> c + 1 \<and> e \<le> e' \<and> e' \<le> e + length gs"
  using assms held_block_count [of "(fst (free_block ctrl d gs (b, e)), c)" ctrl]
    free_block_count [of "(b, e)" ctrl d gs]
  by (auto simp add: update_byte_def Let_def)

lemma update_bytes_count:
  assumes "update_bytes ctrl d gs bs c e = (bs', c', e')"
  shows "length bs' = length bs \<and> c \<le> c' \<and> c' \<le> c + length bs \<and> e \<le> e'
         \<and> e' \<le> e + length bs * length gs"
  using assms
proof (induction bs arbitrary: c e bs' c' e')
  case Nil
  then show ?case by simp
next
  case (Cons b bs)
  obtain b1 c1 e1 where u: "update_byte ctrl d gs b c e = (b1, c1, e1)"
    by (cases "update_byte ctrl d gs b c e") auto
  obtain bs2 c2 e2 where us: "update_bytes ctrl d gs bs c1 e1 = (bs2, c2, e2)"
    by (cases "update_bytes ctrl d gs bs c1 e1") auto
  from Cons.prems u us have r: "bs' = b1 # bs2" "c' = c2" "e' = e2" by simp_all
  from update_byte_count [OF u] Cons.IH [OF us] r show ?case by auto
qed

lemma respawn_first_length: "length (respawn_first rnd bs) = length bs"
  by (induction bs) simp_all

lemma spawn_step_frame:
  "caughtBytes (spawn_step t rnd s) = caughtBytes s"
  "eatenBytes (spawn_step t rnd s) = eatenBytes s"
  "ghosts (spawn_step t rnd s) = ghosts s"
  "controller (spawn_step t rnd s) = controller s"
  "isDraggingLocal (spawn_step t rnd s) = isDraggingLocal s"
  "ui (spawn_step t rnd s) = ui s"
  "length (bytes (spawn_step t rnd s)) = length (bytes s)"
  by (simp_all add: spawn_step_def respawn_first_length)

lemma play_frame_count:
  "length (bytes (play_frame t rnd s)) = length (bytes s) \<and>
   length (ghosts (play_frame t rnd s)) = length (ghosts s) \<and>
   caughtBytes s \<le> caughtBytes (play_frame t rnd s) \<and>
   caughtBytes (play_frame t rnd s) \<le> caughtBytes s + length (bytes s) \<and>
   eatenBytes s \<le> eatenBytes (play_frame t rnd s) \<and>
   eatenBytes (play_frame t rnd s) \<le> eatenBytes s + length (bytes s) * length (ghosts s)"
proof -
  let ?s1 = "spawn_step t rnd s"
  let ?gs = "map (update_ghost (ghostSpeedMultiplier (caughtBytes ?s1))) (ghosts ?s1)"
  obtain bs c e where u: "update_bytes (controller ?s1) (isDraggingLocal ?s1) ?gs (bytes ?s1)
      (caughtBytes ?s1) (eatenBytes ?s1) = (bs, c, e)"
    by (cases "update_bytes (controller ?s1) (isDraggingLocal ?s1) ?gs (bytes ?s1)
      (caughtBytes ?s1) (eatenBytes ?s1)") auto
  from update_bytes_count [OF u] u show ?thesis
    by (simp add: play_frame_def Let_def spawn_step_frame)
qed

lemma check_end_frame:
  "bytes (check_end s) = bytes s" "ghosts (check_end s) = ghosts s"
  "caughtBytes (check_end s) = caughtBytes s" "eatenBytes (check_end s) = eatenBytes s"
  by (simp_all add: check_end_def stop_all_def)

lemma gameLoop_count:
  "length (bytes (gameLoop cl t rnd s)) = length (bytes s) \<and>
   length (ghosts (gameLoop cl t rnd s)) = length (ghosts s) \<and>
   caughtBytes s \<le> caughtBytes (gameLoop cl t rnd s) \<and>
   eatenBytes s \<le> eatenBytes (gameLoop cl t rnd s)"
  using play_frame_count [of t rnd s] by (simp add: gameLoop_def check_end_frame)

lemma timer_callback_frame:
  "bytes (timer_callback s) = bytes s" "ghosts (timer_callback s) = ghosts s"
  "caughtBytes (timer_callback s) = caughtBytes s" "eatenBytes (timer_callback s) = eatenBytes s"
  by (simp_all add: timer_callback_def stop_all_def)

lemma step_count:
  "length (bytes (step cl s ev)) = length (bytes s) \<and>
   length (ghosts (step cl s ev)) = length (ghosts s) \<and>
   caughtBytes s \<le> caughtBytes (step cl s ev) \<and>
   eatenBytes s \<le> eatenBytes (step cl s ev)"
proof (cases ev)
  case (Frame t rnd)
  then show ?thesis using gameLoop_count [of cl t rnd "s\<lparr>frame_pending := False\<rparr>"] by simp
qed (simp_all add: timer_callback_frame handleMouseMove_def handleMouseDown_def
    handleMouseUp_def)

lemma run_count:
  "length (bytes (run cl s evs)) = length (bytes s) \<and>
   length (ghosts (run cl s evs)) = length (ghosts s) \<and>
   caughtBytes s \<le> caughtBytes (run cl s evs) \<and>
   eatenBytes s \<le> eatenBytes (run cl s evs)"
  unfolding run_def
proof (induction evs arbitrary: s)
  case Nil
  show ?case by simp
next
  case (Cons ev evs)
  from Cons.IH [of "step cl s ev"] step_count [of cl s ev] show ?case by auto
qed

section \<open>The collision tests\<close>

lemma dist_pair: "dist (Complex a b) (Complex c d) = sqrt ((a - c)\<^sup>2 + (b - d)\<^sup>2)"
  by (simp add: dist_norm cmod_def)

lemma ghost_check_eq:
  "ghost_check g (b, e) = (if touches b g then (b\<lparr>caught := True\<rparr>, e + 1) else (b, e))"
  by (simp add: ghost_check_def touches_def dist_pair Let_def)

lemma touches_caught [simp]: "touches (b\<lparr>caught := v\<rparr>) g = touches b g"
  by (simp add: touches_def)

lemma ghosts_check_eq:
  "ghosts_check gs (b, e) =
     (b\<lparr>caught := caught b \<or> (\<exists>g\<in>set gs. touches b g)\<rparr>, e + length (filter (touches b) gs))"
  unfolding ghosts_check_def
proof (induction gs arbitrary: b e)
  case Nil
  show ?case by simp
next
  case (Cons g gs)
  show ?case by (simp add: ghost_check_eq Cons.IH) 
qed

lemma grab_check_eq:
  "grab_check ctrl d b =
     (if touches b ctrl \<and> d then b\<lparr>grabbed := True, targetX := x ctrl, targetY := y ctrl\<rparr> else b)"
  by (simp add: grab_check_def touches_def dist_pair Let_def)

lemma update_byte_caught: "caught b \<Longrightarrow> update_byte ctrl d gs b c e = (b, c, e)"
  by (simp add: update_byte_def free_block_def held_block_def Let_def)

lemma update_byte_held:
  "grabbed b \<Longrightarrow> \<not> caught b \<Longrightarrow>
   update_byte ctrl d gs b c e =
     (if in_container (follow ctrl b)
      then ((follow ctrl b)\<lparr>caught := True, grabbed := False\<rparr>, c + 1, e)
      else (follow ctrl b, c, e))"
  by (simp add: update_byte_def free_block_def held_block_def Let_def)

lemma motion_flags [simp]:
  "caught (move_byte b) = caught b" "grabbed (move_byte b) = grabbed b"
  "caught (bounce_x b) = caught b" "grabbed (bounce_x b) = grabbed b"
  "caught (bounce_y b) = caught b" "grabbed (bounce_y b) = grabbed b"
  by (simp_all add: move_byte_def bounce_x_def bounce_y_def)

lemma grab_check_caught [simp]: "caught (grab_check ctrl d b) = caught b"
  by (simp add: grab_check_eq)

lemma free_block_free:
  "\<not> caught b \<Longrightarrow> \<not> grabbed b \<Longrightarrow>
   free_block ctrl d gs (b, e) =
     (let m = grab_check ctrl d (bounce_y (bounce_x (move_byte b)))
      in (m\<lparr>caught := (\<exists>g\<in>set gs. touches m g)\<rparr>, e + length (filter (touches m) gs)))"
  by (simp add: free_block_def ghosts_check_eq Let_def)

lemma touches_grab_check: "touches (grab_check ctrl d b) = touches b"
  by (rule ext) (simp add: grab_check_eq touches_def)

lemma grab_check_grabbed:
  "grabbed (grab_check ctrl d b) \<longleftrightarrow> grabbed b \<or> (touches b ctrl \<and> d)"
  by (auto simp add: grab_check_eq)

lemma free_block_flags:
  assumes "\<not> caught b" and "\<not> grabbed b"
  shows "grabbed (fst (free_block ctrl d gs (b, e))) \<longleftrightarrow>
           touches (bounce_y (bounce_x (move_byte b))) ctrl \<and> d"
    and "caught (fst (free_block ctrl d gs (b, e))) \<longleftrightarrow>
           (\<exists>g\<in>set gs. touches (bounce_y (bounce_x (move_byte b))) g)"
  using assms by (simp_all add: free_block_free Let_def grab_check_grabbed touches_grab_check)

lemma held_block_flags:
  "grabbed (fst (held_block ctrl (b, c))) \<and> caught (fst (held_block ctrl (b, c))) \<longleftrightarrow>
     grabbed b \<and> caught b"
  by (auto simp add: held_block_def Let_def follow_def)

section \<open>Motion and bouncing\<close>

lemma bounce_x_fields:
  "x (bounce_x m) = max 0 (min (canvas_width - size_px m) (x m))"
  "vx (bounce_x m) = (if x m \<le> 0 \<or> x m \<ge> canvas_width - size_px m then - vx m else vx m)"
  "y (bounce_x m) = y m" "vy (bounce_x m) = vy m" "size_px (bounce_x m) = size_px m"
  if "size_px m \<le> canvas_width"
  using that by (simp_all add: bounce_x_def)

lemma bounce_y_fields:
  "y (bounce_y m) = max 0 (min (canvas_height - size_px m) (y m))"
  "vy (bounce_y m) = (if y m \<le> 0 \<or> y m \<ge> canvas_height - size_px m then - vy m else vy m)"
  "x (bounce_y m) = x m" "vx (bounce_y m) = vx m" "size_px (bounce_y m) = size_px m"
  if "size_px m \<le> canvas_height"
  using that by (simp_all add: bounce_y_def)

lemma move_byte_fields:
  "x (move_byte b) = x b + vx b" "y (move_byte b) = y b + vy b"
  "vx (move_byte b) = vx b" "vy (move_byte b) = vy b" "size_px (move_byte b) = size_px b"
  by (simp_all add: move_byte_def)

lemma grab_check_fields:
  "x (grab_check ctrl d b) = x b" "y (grab_check ctrl d b) = y b"
  "vx (grab_check ctrl d b) = vx b" "vy (grab_check ctrl d b) = vy b"
  "size_px (grab_check ctrl d b) = size_px b"
  by (simp_all add: grab_check_eq)

lemma follow_flags [simp]:
  "caught (follow ctrl b) = caught b" "grabbed (follow ctrl b) = grabbed b"
  "size_px (follow ctrl b) = size_px b"
  by (simp_all add: follow_def Let_def)

lemma update_byte_still_free:
  assumes "\<not> caught b" "\<not> grabbed b" "is_free (fst (update_byte ctrl d gs b c e))"
  shows "fst (update_byte ctrl d gs b c e) = grab_check ctrl d (bounce_y (bounce_x (move_byte b)))\<lparr>caught := False\<rparr>"
  using assms
  by (auto simp add: update_byte_def free_block_free held_block_def Let_def is_free_def
      split: if_splits)

section \<open>What a frame leaves alone\<close>

lemma play_frame_ghosts:
  "ghosts (play_frame t rnd s) =
     map (update_ghost (ghostSpeedMultiplier (caughtBytes s))) (ghosts s)"
  by (simp add: play_frame_def Let_def spawn_step_frame split: prod.split)

lemma play_frame_result: "gameResult (ui (play_frame t rnd s)) = gameResult (ui s)"
  by (simp add: play_frame_def Let_def spawn_step_frame split: prod.split)

section \<open>Byte states, array length, respawn\<close>

lemma flag_counts:
  "length (filter is_free bs) + length (filter is_held bs) + length (filter is_captured bs) =
     length bs + length (filter (\<lambda>b. is_held b \<and> is_captured b) bs)"
  by (induction bs) (auto simp add: is_free_def is_held_def is_captured_def)

lemma init_game_lengths:
  "length (bytes (init_game st rnd0)) = totalBytes"
  "length (ghosts (init_game st rnd0)) = totalGhosts"
  by (simp_all add: init_game_def)

lemma startGame_lengths:
  "length (bytes (startGame cl t rnd0 rnd)) = totalBytes"
  "length (ghosts (startGame cl t rnd0 rnd)) = totalGhosts"
  using gameLoop_count [of cl t rnd "init_game cl rnd0"]
  by (simp_all add: startGame_def init_game_lengths)

lemma session_lengths:
  "length (bytes (run cl (startGame cl t rnd0 rnd) evs)) = totalBytes"
  "length (ghosts (run cl (startGame cl t rnd0 rnd) evs)) = totalGhosts"
  using run_count [of cl "startGame cl t rnd0 rnd" evs]
  by (simp_all add: startGame_lengths)

lemma update_byte_capture_once:
  assumes "update_byte ctrl d gs b c e = (b', c', e')" and "\<not> caught b" and "caught b'"
  shows "(c' = c + 1 \<and> e' = e \<and> \<not> grabbed b') \<or> (c' = c \<and> e < e')"
proof (cases "grabbed b")
  case True
  with assms show ?thesis by (auto simp add: update_byte_held split: if_splits)
next
  case False
  with assms show ?thesis
    by (auto simp add: update_byte_def free_block_free held_block_def Let_def filter_empty_conv
        split: if_splits)
qed

lemma update_byte_both_flags:
  "grabbed (fst (update_byte ctrl d gs b c e)) \<and> caught (fst (update_byte ctrl d gs b c e)) \<longleftrightarrow>
     (grabbed b \<and> caught b) \<or>
     (\<not> caught b \<and> \<not> grabbed b \<and> d \<and>
      touches (bounce_y (bounce_x (move_byte b))) ctrl \<and>
      (\<exists>g\<in>set gs. touches (bounce_y (bounce_x (move_byte b))) g))"
proof (cases "\<not> caught b \<and> \<not> grabbed b")
  case True
  then show ?thesis
    using free_block_flags [of b ctrl d gs e]
    by (auto simp add: update_byte_def Let_def held_block_flags)
next
  case False
  then have "free_block ctrl d gs (b, e) = (b, e)"
    by (auto simp add: free_block_def)
  with False show ?thesis
    by (auto simp add: update_byte_def Let_def held_block_flags)
qed

lemma respawn_first_update:
  "respawn_first rnd bs =
     (let i = length (takeWhile (\<lambda>b. \<not> caught b) bs)
      in if i < length bs then bs[i := respawn_byte rnd (bs ! i)] else bs)"
  by (induction bs) (simp_all add: Let_def)

lemma first_caught:
  assumes "length (takeWhile (\<lambda>b. \<not> caught b) bs) < length bs"
  shows "caught (bs ! length (takeWhile (\<lambda>b. \<not> caught b) bs))"
    and "\<forall>j < length (takeWhile (\<lambda>b. \<not> caught b) bs). \<not> caught (bs ! j)"
  using assms nth_length_takeWhile [of "\<lambda>b. \<not> caught b" bs]
   apply simp
  using takeWhile_nth [of _ "\<lambda>b. \<not> caught b" bs] nth_mem [of _ "takeWhile (\<lambda>b. \<not> caught b) bs"]
    set_takeWhileD [of _ "\<lambda>b. \<not> caught b" bs]
  by metis

section \<open>One byte, one turn\<close>

lemma respawn_byte_fields:
  "size_px (respawn_byte rnd b) = size_px b" "targetX (respawn_byte rnd b) = targetX b"
  "targetY (respawn_byte rnd b) = targetY b" "\<not> caught (respawn_byte rnd b)"
  "\<not> grabbed (respawn_byte rnd b)"
  by (simp_all add: respawn_byte_def)

lemma free_block_skip: "caught b \<or> grabbed b \<Longrightarrow> free_block ctrl d gs (b, e) = (b, e)"
  by (auto simp add: free_block_def)

lemma update_byte_eaten_skip:
  "caught b \<or> grabbed b \<Longrightarrow> snd (snd (update_byte ctrl d gs b c e)) = e"
  by (simp add: update_byte_def free_block_skip Let_def)

lemma update_byte_eaten_free:
  assumes "\<not> caught b" and "\<not> grabbed b"
  shows "snd (snd (update_byte ctrl d gs b c e)) =
           e + length (filter (touches (grab_check ctrl d (bounce_y (bounce_x (move_byte b))))) gs)"
    and "(\<exists>g\<in>set gs. touches (grab_check ctrl d (bounce_y (bounce_x (move_byte b)))) g) \<Longrightarrow>
           fst (update_byte ctrl d gs b c e) =
             (grab_check ctrl d (bounce_y (bounce_x (move_byte b))))\<lparr>caught := True\<rparr>"
    and "(\<exists>g\<in>set gs. touches (grab_check ctrl d (bounce_y (bounce_x (move_byte b)))) g) \<Longrightarrow>
           fst (snd (update_byte ctrl d gs b c e)) = c"
  using assms by (simp_all add: update_byte_def free_block_free held_block_def Let_def)

text \<open>A tick gives every byte one turn, and counts every ghost within reach of a free byte
  once.\<close>

lemma update_byte_eaten:
  "snd (snd (update_byte ctrl d gs b c e)) =
     e + (if \<not> caught b \<and> \<not> grabbed b
          then length (filter (touches (bounce_y (bounce_x (move_byte b)))) gs) else 0)"
  by (cases "\<not> caught b \<and> \<not> grabbed b")
     (auto simp add: update_byte_eaten_free(1) update_byte_eaten_skip touches_grab_check)

lemma update_byte_byte:
  "fst (update_byte ctrl d gs b c e) = fst (update_byte ctrl d gs b 0 0)"
  by (simp add: update_byte_def free_block_def held_block_def Let_def ghosts_check_eq)

lemma update_bytes_map:
  "fst (update_bytes ctrl d gs bs c e) = map (\<lambda>b. fst (update_byte ctrl d gs b 0 0)) bs"
proof (induction bs arbitrary: c e)
  case Nil
  show ?case by simp
next
  case (Cons b bs)
  obtain b' c' e' where u: "update_byte ctrl d gs b c e = (b', c', e')"
    by (cases "update_byte ctrl d gs b c e") auto
  have b': "b' = fst (update_byte ctrl d gs b 0 0)"
    using update_byte_byte [of ctrl d gs b c e] u by simp
  show ?case using Cons.IH [of c' e'] u b' by (auto split: prod.split)
qed

lemma update_bytes_eaten_sum:
  "snd (snd (update_bytes ctrl d gs bs c e)) =
     e + sum_list (map (\<lambda>b. if \<not> caught b \<and> \<not> grabbed b
                              then length (filter (touches (bounce_y (bounce_x (move_byte b)))) gs)
                              else 0) bs)"
proof (induction bs arbitrary: c e)
  case Nil
  show ?case by simp
next
  case (Cons b bs)
  obtain b' c' e' where u: "update_byte ctrl d gs b c e = (b', c', e')"
    by (cases "update_byte ctrl d gs b c e") auto
  have e': "e' = e + (if \<not> caught b \<and> \<not> grabbed b
                      then length (filter (touches (bounce_y (bounce_x (move_byte b)))) gs) else 0)"
    using update_byte_eaten [of ctrl d gs b c e] u by simp
  show ?case using Cons.IH [of c' e'] u e' by (auto split: prod.split)
qed

lemma play_frame_updates:
  "bytes (play_frame t rnd s) =
     fst (update_bytes (controller s) (isDraggingLocal s)
            (map (update_ghost (ghostSpeedMultiplier (caughtBytes s))) (ghosts s))
            (bytes (spawn_step t rnd s)) (caughtBytes s) (eatenBytes s))"
  "eatenBytes (play_frame t rnd s) =
     snd (snd (update_bytes (controller s) (isDraggingLocal s)
                 (map (update_ghost (ghostSpeedMultiplier (caughtBytes s))) (ghosts s))
                 (bytes (spawn_step t rnd s)) (caughtBytes s) (eatenBytes s)))"
  by (simp_all add: play_frame_def Let_def spawn_step_frame split: prod.split)

lemma play_frame_bytes:
  "bytes (play_frame t rnd s) =
     map (\<lambda>b. fst (update_byte (controller s) (isDraggingLocal s) (ghosts (play_frame t rnd s))
                       b 0 0))
       (bytes (spawn_step t rnd s))"
  unfolding play_frame_ghosts play_frame_updates(1) update_bytes_map ..

lemma play_frame_eaten:
  "eatenBytes (play_frame t rnd s) =
     eatenBytes s +
     sum_list (map (\<lambda>b. if \<not> caught b \<and> \<not> grabbed b
                          then length (filter (touches (bounce_y (bounce_x (move_byte b))))
                                         (ghosts (play_frame t rnd s)))
                          else 0)
                 (bytes (spawn_step t rnd s)))"
  unfolding play_frame_ghosts play_frame_updates(2) update_bytes_eaten_sum ..

section \<open>The session invariant\<close>

lemma check_end_pending:
  "frame_pending (check_end s) \<longleftrightarrow> caughtBytes s < totalBytes \<and> eatenBytes s < totalBytes"
  by (auto simp add: check_end_def stop_all_def)

lemma gameLoop_inv:
  assumes "length (bytes s) = totalBytes" and "caughtBytes s < totalBytes"
    and "\<not> frame_pending s"
  shows "session_inv (gameLoop cl t rnd s)"
proof (cases "\<not> showGame cl \<or> gameResult cl \<noteq> Playing \<or> isDeploying cl")
  case True
  with assms show ?thesis by (simp add: gameLoop_def session_inv_def)
next
  case False
  then have g: "gameLoop cl t rnd s = check_end (play_frame t rnd s)"
    by (simp add: gameLoop_def)
  from play_frame_count [of t rnd s] assms show ?thesis
    by (simp add: g session_inv_def check_end_frame check_end_pending)
qed

lemma startGame_inv: "session_inv (startGame cl t rnd0 rnd)"
proof -
  have "session_inv (gameLoop cl t rnd (init_game cl rnd0))"
    by (rule gameLoop_inv) (simp_all add: init_game_def totalBytes_def)
  then show ?thesis by (simp add: startGame_def session_inv_def)
qed

lemma step_inv: "session_inv s \<Longrightarrow> session_inv (step cl s ev)"
proof (cases ev)
  case (Frame t rnd)
  assume i: "session_inv s"
  show ?thesis
  proof (cases "frame_pending s")
    case True
    with i have "session_inv (gameLoop cl t rnd (s\<lparr>frame_pending := False\<rparr>))"
      by (intro gameLoop_inv) (simp_all add: session_inv_def)
    with True Frame show ?thesis by simp
  next
    case False
    with i Frame show ?thesis by simp
  qed
qed (auto simp add: session_inv_def timer_callback_def stop_all_def handleMouseMove_def
    handleMouseDown_def handleMouseUp_def)

lemma run_inv: "session_inv s \<Longrightarrow> session_inv (run cl s evs)"
  unfolding run_def by (induction evs arbitrary: s) (simp_all add: step_inv)

section \<open>Evaluating concrete sessions\<close>

lemma init_byte_draws:
  assumes "i < 20" and "bd i = byte_draws px py pvx pvy"
  shows "init_byte (draws bd gd) i = a_byte px py pvx pvy"
proof -
  have d: "(6 * i + j) div 6 = i" "(6 * i + j) mod 6 = j" if "j < 6" for j
    using that by simp_all
  have l: "6 * i + j < 6 * totalBytes" if "j < 6" for j
    using that assms(1) by (simp add: totalBytes_def)
  have r: "draws bd gd (6 * i + j) = byte_draws px py pvx pvy ! j" if "j < 6" for j
    using that l [OF that] d [OF that] assms(2) by (simp add: draws_def)
  have r0: "draws bd gd (6 * i) = byte_draws px py pvx pvy ! 0"
    using r [of 0] by simp
  have r1: "draws bd gd (Suc (6 * i)) = byte_draws px py pvx pvy ! 1"
    using r [of 1] by simp
  have r2: "draws bd gd (Suc (Suc (6 * i))) = byte_draws px py pvx pvy ! 2"
    using r [of 2] by simp
  show ?thesis
    by (simp add: init_byte_def r r0 r1 r2 byte_draws_def a_byte_def canvas_width_def canvas_height_def)
qed

lemma init_ghost_draws:
  assumes "i < 3" and "gd i = ghost_draws px py pvx pvy"
  shows "init_ghost (draws bd gd) i = a_ghost px py pvx pvy 0"
proof -
  have d: "(7 * i + j) div 7 = i" "(7 * i + j) mod 7 = j" if "j < 7" for j
    using that by simp_all
  have r: "draws bd gd (6 * totalBytes + 7 * i + j) = ghost_draws px py pvx pvy ! j" if "j < 7" for j
    using that d [OF that] assms(2) by (simp add: draws_def add.assoc)
  have r0: "draws bd gd (6 * totalBytes + 7 * i) = ghost_draws px py pvx pvy ! 0"
    using r [of 0] by simp
  have r1: "draws bd gd (Suc (6 * totalBytes + 7 * i)) = ghost_draws px py pvx pvy ! 1"
    using r [of 1] by simp
  have r2: "draws bd gd (Suc (Suc (6 * totalBytes + 7 * i))) = ghost_draws px py pvx pvy ! 2"
    using r [of 2] by simp
  show ?thesis
    by (simp add: init_ghost_def r r0 r1 r2 ghost_draws_def a_ghost_def canvas_width_def
        canvas_height_def)
qed

lemma map_upt_nth:
  assumes "length xs = n" and "\<And>i. i < n \<Longrightarrow> f i = xs ! i"
  shows "map f [0..<n] = xs"
  using assms by (intro nth_equalityI) simp_all

lemma touches_iff:
  "touches a b \<longleftrightarrow>
     0 < size_px b + size_px a \<and>
     (x a - x b)\<^sup>2 + (y a - y b)\<^sup>2 < (size_px b + size_px a)\<^sup>2"
proof (cases "0 < size_px b + size_px a")
  case True
  then show ?thesis
    by (simp add: touches_def dist_pair) (metis real_sqrt_less_iff real_sqrt_abs abs_of_pos)
next
  case False
  have "0 \<le> sqrt ((x a - x b)\<^sup>2 + (y a - y b)\<^sup>2)" by simp
  with False have "\<not> sqrt ((x a - x b)\<^sup>2 + (y a - y b)\<^sup>2) < size_px b + size_px a"
    by linarith
  with False show ?thesis by (simp add: touches_def dist_pair)
qed

lemma update_bytes_append:
  "update_bytes ctrl d gs (as @ bs) c e =
     (case update_bytes ctrl d gs as c e of
        (as', c', e') \<Rightarrow>
          (case update_bytes ctrl d gs bs c' e' of
             (bs', c'', e'') \<Rightarrow> (as' @ bs', c'', e'')))"
  by (induction as arbitrary: c e) (simp_all split: prod.split)

lemma still_byte:
  assumes "0 < px" "px < 590" "0 < py" "py < 390"
  shows "bounce_y (bounce_x (move_byte (a_byte px py 0 0))) = a_byte px py 0 0"
  using assms
  by (simp add: move_byte_def bounce_x_def bounce_y_def a_byte_def canvas_width_def
      canvas_height_def)

lemma moving_ghost:
  assumes "0 < px + pvx * m" "px + pvx * m < 585" "0 < py + pvy * m" "py + pvy * m < 385"
  shows "update_ghost m (a_ghost px py pvx pvy ph) =
         a_ghost (px + pvx * m) (py + pvy * m) pvx pvy (ph + 0.1)"
  using assms
  by (simp add: update_ghost_def bounce_x_def bounce_y_def a_ghost_def canvas_width_def
      canvas_height_def)

lemma touches_byte_ghost:
  "touches (a_byte px py pvx pvy) (a_ghost qx qy qvx qvy ph) \<longleftrightarrow>
     (px - qx)\<^sup>2 + (py - qy)\<^sup>2 < 625"
  by (simp add: touches_iff a_byte_def a_ghost_def)

lemma respawn_first_none: "\<forall>b\<in>set bs. \<not> caught b \<Longrightarrow> respawn_first rnd bs = bs"
  by (induction bs) simp_all

lemma update_bytes_idle:
  assumes "\<And>c e. update_byte ctrl d gs b c e = (b, c, e)"
  shows "update_bytes ctrl d gs (replicate n b) c e = (replicate n b, c, e)"
  by (induction n) (simp_all add: assms)

lemma a_byte_flags [simp]:
  "\<not> caught (a_byte px py pvx pvy)" "\<not> grabbed (a_byte px py pvx pvy)"
  by (simp_all add: a_byte_def)

lemma play_frame_eval:
  assumes "update_bytes ctrl dragging
             (map (update_ghost (ghostSpeedMultiplier c)) gs)
             (if t - lst > 1000 then respawn_first rnd bs else bs) c e = (bs', c', e')"
  shows "play_frame t rnd
           \<lparr>bytes = bs, ghosts = gs, controller = ctrl, caughtBytes = c, eatenBytes = e,
            isDraggingLocal = dragging, lastByteSpawn = lst, ui = st,
            frame_pending = p, interval_active = i, listening = l\<rparr> =
         \<lparr>bytes = bs', ghosts = map (update_ghost (ghostSpeedMultiplier c)) gs,
          controller = ctrl, caughtBytes = c', eatenBytes = e',
          isDraggingLocal = dragging, lastByteSpawn = (if t - lst > 1000 then t else lst),
          ui = st\<lparr>bytesWrangled := (if c' = c then bytesWrangled st else c')\<rparr>,
          frame_pending = p, interval_active = i, listening = l\<rparr>"
proof (cases "t - lst > 1000")
  case True
  with assms show ?thesis by (simp add: play_frame_def spawn_step_def Let_def)
next
  case False
  with assms show ?thesis by (simp add: play_frame_def spawn_step_def Let_def)
qed

lemma frame_session:
  assumes "(if t - lst > 1000 then respawn_first rnd bs else bs) = bs1"
    and "map (update_ghost (ghostSpeedMultiplier c)) gs = gs'"
    and "update_bytes ctrl dragging gs' bs1 c e = (bs', c', e')"
    and "c' < 20" and "e' < 20"
    and "(if t - lst > 1000 then t else lst) = lst'"
  shows "step cl0 (session bs gs ctrl dragging c e lst secs) (Frame t rnd) =
         session bs' gs' ctrl dragging c' e' lst' secs"
proof -
  have u: "update_bytes ctrl dragging (map (update_ghost (ghostSpeedMultiplier c)) gs)
             (if t - lst > 1000 then respawn_first rnd bs else bs) c e = (bs', c', e')"
    unfolding assms(1,2) by (rule assms(3))
  show ?thesis
    using assms(4,5)
    by (simp add: session_def gameLoop_def cl0_def play_frame_eval [OF u] check_end_def
        totalBytes_def assms(2) assms(6))
qed

lemma frame_session_last:
  assumes "(if t - lst > 1000 then respawn_first rnd bs else bs) = bs1"
    and "map (update_ghost (ghostSpeedMultiplier c)) gs = gs'"
    and "update_bytes ctrl dragging gs' bs1 c e = (bs', c', e')"
  shows "bytes (step cl0 (session bs gs ctrl dragging c e lst secs) (Frame t rnd)) = bs'"
    and "ghosts (step cl0 (session bs gs ctrl dragging c e lst secs) (Frame t rnd)) = gs'"
    and "caughtBytes (step cl0 (session bs gs ctrl dragging c e lst secs) (Frame t rnd)) = c'"
    and "eatenBytes (step cl0 (session bs gs ctrl dragging c e lst secs) (Frame t rnd)) = e'"
    and "gameResult (ui (step cl0 (session bs gs ctrl dragging c e lst secs) (Frame t rnd))) =
           (if 20 \<le> c' then Success else if 20 \<le> e' then Failed else Playing)"
proof -
  have u: "update_bytes ctrl dragging (map (update_ghost (ghostSpeedMultiplier c)) gs)
             (if t - lst > 1000 then respawn_first rnd bs else bs) c e = (bs', c', e')"
    unfolding assms(1,2) by (rule assms(3))
  show "bytes (step cl0 (session bs gs ctrl dragging c e lst secs) (Frame t rnd)) = bs'"
    and "ghosts (step cl0 (session bs gs ctrl dragging c e lst secs) (Frame t rnd)) = gs'"
    and "caughtBytes (step cl0 (session bs gs ctrl dragging c e lst secs) (Frame t rnd)) = c'"
    and "eatenBytes (step cl0 (session bs gs ctrl dragging c e lst secs) (Frame t rnd)) = e'"
    and "gameResult (ui (step cl0 (session bs gs ctrl dragging c e lst secs) (Frame t rnd))) =
           (if 20 \<le> c' then Success else if 20 \<le> e' then Failed else Playing)"
    by (simp_all add: session_def gameLoop_def cl0_def play_frame_eval [OF u] check_end_def
        totalBytes_def stop_all_def assms(2))
qed

lemma startGame_session:
  assumes "map (init_byte rnd0) [0..<totalBytes] = bs"
    and "map (init_ghost rnd0) [0..<totalGhosts] = gs"
    and "map (update_ghost 1) gs = gs'"
    and "update_bytes (ctrl_at 300 200) False gs' bs 0 0 = (bs', 0, e')"
    and "e' < 20" and "t > 1000"
  shows "startGame cl0 t rnd0 rnd = session bs' gs' (ctrl_at 300 200) False 0 e' t 15"
proof -
  have n: "respawn_first rnd bs = bs"
    unfolding assms(1) [symmetric] by (rule respawn_first_none) (simp add: init_byte_def)
  have u: "update_bytes (ctrl_at 300 200) False
             (map (update_ghost (ghostSpeedMultiplier 0)) gs)
             (if t - 0 > 1000 then respawn_first rnd bs else bs) 0 0 = (bs', 0, e')"
    using assms(3,4,6) by (simp add: n ghostSpeedMultiplier_def)
  have c: "\<lparr>x = canvas_width / 2, y = canvas_height / 2, size_px = 20\<rparr> = ctrl_at 300 200"
    by (simp add: ctrl_at_def canvas_width_def canvas_height_def)
  have pf: "play_frame t rnd (init_game cl0 rnd0) =
      \<lparr>bytes = bs',
       ghosts = map (update_ghost (ghostSpeedMultiplier 0)) gs,
       controller = ctrl_at 300 200, caughtBytes = 0, eatenBytes = e',
       isDraggingLocal = False, lastByteSpawn = (if t - 0 > 1000 then t else 0),
       ui = cl0\<lparr>bytesWrangled := (if (0::nat) = 0 then bytesWrangled cl0 else 0)\<rparr>,
       frame_pending = False, interval_active = False, listening = True\<rparr>"
    unfolding init_game_def c assms(1,2) by (rule play_frame_eval [OF u])
  have guard: "\<not> (\<not> showGame cl0 \<or> gameResult cl0 \<noteq> Playing \<or> isDeploying cl0)"
    by (simp add: cl0_def)
  have "startGame cl0 t rnd0 rnd =
          (check_end (play_frame t rnd (init_game cl0 rnd0)))\<lparr>interval_active := True\<rparr>"
    using guard by (simp add: startGame_def gameLoop_def)
  also have "\<dots> = session bs' gs' (ctrl_at 300 200) False 0 e' t 15"
    unfolding pf using assms(5,6) assms(3)
    by (simp add: check_end_def session_def totalBytes_def ghostSpeedMultiplier_def cl0_def)
  finally show ?thesis .
qed

lemma timer_ticks:
  "step cl0 (session bs gs ctrl dragging c e lst 15) Timer =
     session bs gs ctrl dragging c e lst 14"
  "step cl0 (session bs gs ctrl dragging c e lst 14) Timer =
     session bs gs ctrl dragging c e lst 13"
  "step cl0 (session bs gs ctrl dragging c e lst 13) Timer =
     session bs gs ctrl dragging c e lst 12"
  "step cl0 (session bs gs ctrl dragging c e lst 12) Timer =
     session bs gs ctrl dragging c e lst 11"
  "step cl0 (session bs gs ctrl dragging c e lst 11) Timer =
     session bs gs ctrl dragging c e lst 10"
  "step cl0 (session bs gs ctrl dragging c e lst 10) Timer =
     session bs gs ctrl dragging c e lst 9"
  "step cl0 (session bs gs ctrl dragging c e lst 9) Timer =
     session bs gs ctrl dragging c e lst 8"
  by (simp_all add: session_def timer_callback_def cl0_def)

lemma run_Nil: "run cl s [] = s"
  by (simp add: run_def)

lemma run_Cons: "run cl s (ev # evs) = run cl (step cl s ev) evs"
  by (simp add: run_def)

lemma run_append: "run cl s (evs @ evs') = run cl (run cl s evs) evs'"
  by (simp add: run_def)

lemma mouse_session:
  "step cl0 (session bs gs (ctrl_at ax ay) dragging c e lst secs) (MouseMove mx my) =
     session bs gs (ctrl_at mx my) dragging c e lst secs"
  "step cl0 (session bs gs ctrl dragging c e lst secs) MouseDown =
     session bs gs ctrl True c e lst secs"
  "step cl0 (session bs gs ctrl dragging c e lst secs) MouseUp =
     session bs gs ctrl False c e lst secs"
  by (simp_all add: session_def ctrl_at_def handleMouseMove_def handleMouseDown_def
      handleMouseUp_def)

lemma upt3: "[0..<3] = [0, 1, 2]"
  by code_simp

lemma sqrt_less_num: "0 < r \<Longrightarrow> sqrt a < r \<longleftrightarrow> a < r\<^sup>2"
  by (metis real_sqrt_less_iff real_sqrt_abs abs_of_pos)

lemma less_sqrt_num: "0 \<le> r \<Longrightarrow> r < sqrt a \<longleftrightarrow> r\<^sup>2 < a"
  by (metis real_sqrt_less_iff real_sqrt_abs abs_of_nonneg)

lemmas game_eval =
  update_byte_def free_block_def held_block_def ghosts_check_def ghost_check_def grab_check_def
  follow_def in_container_def move_byte_def bounce_x_def bounce_y_def container_def
  canvas_width_def canvas_height_def a_byte_def b_byte_def a_ghost_def ctrl_at_def Let_def
  sqrt_less_num less_sqrt_num power2_eq_square

lemma init_bytes_groups:
  assumes "\<And>i. i < 20 \<Longrightarrow>
             bd i = (if i < k1 then byte_draws ax ay avx avy
                     else if i < k1 + k2 then byte_draws bx bY bvx bvy
                     else byte_draws cx cy cvx cvy)"
    and "k1 + k2 \<le> 20"
  shows "map (init_byte (draws bd gd)) [0..<totalBytes] =
           replicate k1 (a_byte ax ay avx avy) @ replicate k2 (a_byte bx bY bvx bvy) @
           replicate (20 - k1 - k2) (a_byte cx cy cvx cvy)"
  unfolding totalBytes_def
proof (rule map_upt_nth)
  show "length (replicate k1 (a_byte ax ay avx avy) @ replicate k2 (a_byte bx bY bvx bvy) @
           replicate (20 - k1 - k2) (a_byte cx cy cvx cvy)) = 20"
    using assms(2) by simp
next
  fix i :: nat
  assume i: "i < 20"
  consider "i < k1" | "k1 \<le> i" "i < k1 + k2" | "k1 + k2 \<le> i" by linarith
  then show "init_byte (draws bd gd) i =
      (replicate k1 (a_byte ax ay avx avy) @ replicate k2 (a_byte bx bY bvx bvy) @
           replicate (20 - k1 - k2) (a_byte cx cy cvx cvy)) ! i"
  proof cases
    case 1
    with i assms(1) [OF i] show ?thesis
      using init_byte_draws [of i bd ax ay avx avy gd] by (simp add: nth_append)
  next
    case 2
    with i assms(1) [OF i] show ?thesis
      using init_byte_draws [of i bd bx bY bvx bvy gd] by (simp add: nth_append)
  next
    case 3
    with i assms(1) [OF i] assms(2) show ?thesis
      using init_byte_draws [of i bd cx cy cvx cvy gd] by (simp add: nth_append)
  qed
qed

lemma init_ghosts_three:
  assumes "gd 0 = ghost_draws ax ay avx avy" and "gd 1 = ghost_draws bx bY bvx bvy"
    and "gd 2 = ghost_draws cx cy cvx cvy"
  shows "map (init_ghost (draws bd gd)) [0..<totalGhosts] =
           [a_ghost ax ay avx avy 0, a_ghost bx bY bvx bvy 0, a_ghost cx cy cvx cvy 0]"
  using init_ghost_draws [of 0 gd ax ay avx avy bd] init_ghost_draws [of 1 gd bx bY bvx bvy bd]
    init_ghost_draws [of 2 gd cx cy cvx cvy bd] assms
  by (simp add: totalGhosts_def upt3)

lemma respawn_first_replicate:
  "caught b \<Longrightarrow> 0 < n \<Longrightarrow>
   respawn_first rnd (replicate n b @ rest) = respawn_byte rnd b # replicate (n - 1) b @ rest"
  by (cases n) simp_all

lemma update_bytes_deposits:
  assumes "\<And>c e. update_byte ctrl d gs b c e = (b', c + dc, e)"
  shows "update_bytes ctrl d gs (replicate n b) c e = (replicate n b', c + n * dc, e)"
  by (induction n arbitrary: c e) (simp_all add: assms algebra_simps)

lemma update_bytes_eaten:
  assumes "\<And>c e. update_byte ctrl d gs b c e = (b', c, e + de)"
  shows "update_bytes ctrl d gs (replicate n b) c e = (replicate n b', c, e + n * de)"
  by (induction n arbitrary: c e) (simp_all add: assms algebra_simps)



lemma sqrt_841: "sqrt 841 = 29"
  using real_sqrt_abs [of 29] by simp

lemma init_bytes_A:
  "map (init_byte (draws bdA gd)) [0..<totalBytes] =
     [a_byte 100 100 0 0] @
     replicate 19 (a_byte 300 50 0 0)"
  using init_bytes_groups [of bdA 1 100 100 0 0 0 300 50 0 0 300 50 0 0 gd]
  by (simp add: bdA_def)

lemma init_ghosts_A:
  "map (init_ghost (draws bd gdA)) [0..<totalGhosts] =
     [a_ghost 100 100 0 0 0,
      a_ghost 500 300 0 0 0,
      a_ghost 500 300 0 0 0]"
  by (rule init_ghosts_three) (simp_all add: gdA_def)

lemma startA_state: "startA = stA1"
proof -
  have g: "map (update_ghost 1)
             [a_ghost 100 100 0 0 0,
              a_ghost 500 300 0 0 0,
              a_ghost 500 300 0 0 0] =
           [a_ghost 100 100 0 0 (1 / 10),
            a_ghost 500 300 0 0 (1 / 10),
            a_ghost 500 300 0 0 (1 / 10)]"
    by (simp add: moving_ghost)
  have f0: "update_byte (ctrl_at 300 200) False
              [a_ghost 100 100 0 0 p,
               a_ghost 500 300 0 0 q,
               a_ghost 500 300 0 0 r]
              (a_byte 100 100 0 0) c e =
            (b_byte 100 100 0 0 True False 0 0, c, e + 1)" for c e p q r
    by (simp add: game_eval)
  have f1: "update_byte (ctrl_at 300 200) False
              [a_ghost 100 100 0 0 p,
               a_ghost 500 300 0 0 q,
               a_ghost 500 300 0 0 r]
              (a_byte 300 50 0 0) c e =
            (a_byte 300 50 0 0, c, e)" for c e p q r
    by (simp add: game_eval)
  have bs: "update_bytes (ctrl_at 300 200) False
              [a_ghost 100 100 0 0 (1 / 10),
               a_ghost 500 300 0 0 (1 / 10),
               a_ghost 500 300 0 0 (1 / 10)]
              ([a_byte 100 100 0 0] @
               replicate 19 (a_byte 300 50 0 0)) 0 0 =
            ([b_byte 100 100 0 0 True False 0 0] @
             replicate 19 (a_byte 300 50 0 0),
             0, 1)"
    unfolding update_bytes_append update_bytes.simps f0 update_bytes_idle [OF f1]
    by simp
  show ?thesis
    unfolding startA_def stA1_def
    by (rule startGame_session [OF init_bytes_A init_ghosts_A g bs]) simp_all
qed

lemma frameA2:
  "run cl0 stA1 [Timer, Frame 6001 rndH] = stA2"
proof -
  have sp: "(if 6001 - 5000 > (1000::int)
             then respawn_first rndH
                 ([b_byte 100 100 0 0 True False 0 0] @
                  replicate 19 (a_byte 300 50 0 0))
             else [b_byte 100 100 0 0 True False 0 0] @
                  replicate 19 (a_byte 300 50 0 0)) =
            [a_byte 290 190 0 0] @
            replicate 19 (a_byte 300 50 0 0)"
    by (simp add: respawn_first_replicate respawn_byte_def rndH_def b_byte_def a_byte_def
        canvas_width_def canvas_height_def)
  have g: "map (update_ghost (ghostSpeedMultiplier 0))
             [a_ghost 100 100 0 0 (1 / 10),
              a_ghost 500 300 0 0 (1 / 10),
              a_ghost 500 300 0 0 (1 / 10)] =
           [a_ghost 100 100 0 0 (1 / 5),
            a_ghost 500 300 0 0 (1 / 5),
            a_ghost 500 300 0 0 (1 / 5)]"
    by (simp add: moving_ghost ghostSpeedMultiplier_def)
  have f0: "update_byte (ctrl_at 300 200) False
              [a_ghost 100 100 0 0 p,
               a_ghost 500 300 0 0 q,
               a_ghost 500 300 0 0 r]
              (a_byte 290 190 0 0) c e =
            (a_byte 290 190 0 0, c, e)" for c e p q r
    by (simp add: game_eval)
  have f1: "update_byte (ctrl_at 300 200) False
              [a_ghost 100 100 0 0 p,
               a_ghost 500 300 0 0 q,
               a_ghost 500 300 0 0 r]
              (a_byte 300 50 0 0) c e =
            (a_byte 300 50 0 0, c, e)" for c e p q r
    by (simp add: game_eval)
  have bs: "update_bytes (ctrl_at 300 200) False
              [a_ghost 100 100 0 0 (1 / 5),
               a_ghost 500 300 0 0 (1 / 5),
               a_ghost 500 300 0 0 (1 / 5)]
              ([a_byte 290 190 0 0] @
               replicate 19 (a_byte 300 50 0 0)) 0 1 =
            ([a_byte 290 190 0 0] @
             replicate 19 (a_byte 300 50 0 0),
             0, 1)"
    unfolding update_bytes_append update_bytes.simps f0 update_bytes_idle [OF f1]
    by simp
  show ?thesis
    unfolding stA1_def stA2_def run_Cons run_Nil timer_ticks
    by (rule frame_session [OF sp g bs]) simp_all
qed

lemma runA: "run cl0 startA eventsA = stA2"
  unfolding eventsA_def run_append startA_state frameA2
  ..

lemma init_ghosts_B:
  "map (init_ghost (draws bd gdB)) [0..<totalGhosts] =
     [a_ghost 127 100 (- 3 / 4) 0 0,
      a_ghost 500 300 0 0 0,
      a_ghost 500 300 0 0 0]"
  by (rule init_ghosts_three) (simp_all add: gdB_def)

lemma startB_state: "startB = stB1"
proof -
  have g: "map (update_ghost 1)
             [a_ghost 127 100 (- 3 / 4) 0 0,
              a_ghost 500 300 0 0 0,
              a_ghost 500 300 0 0 0] =
           [a_ghost (505 / 4) 100 (- 3 / 4) 0 (1 / 10),
            a_ghost 500 300 0 0 (1 / 10),
            a_ghost 500 300 0 0 (1 / 10)]"
    by (simp add: moving_ghost)
  have f0: "update_byte (ctrl_at 300 200) False
              [a_ghost (505 / 4) 100 (- 3 / 4) 0 p,
               a_ghost 500 300 0 0 q,
               a_ghost 500 300 0 0 r]
              (a_byte 100 100 0 0) c e =
            (a_byte 100 100 0 0, c, e)" for c e p q r
    by (simp add: game_eval)
  have f1: "update_byte (ctrl_at 300 200) False
              [a_ghost (505 / 4) 100 (- 3 / 4) 0 p,
               a_ghost 500 300 0 0 q,
               a_ghost 500 300 0 0 r]
              (a_byte 300 50 0 0) c e =
            (a_byte 300 50 0 0, c, e)" for c e p q r
    by (simp add: game_eval)
  have bs: "update_bytes (ctrl_at 300 200) False
              [a_ghost (505 / 4) 100 (- 3 / 4) 0 (1 / 10),
               a_ghost 500 300 0 0 (1 / 10),
               a_ghost 500 300 0 0 (1 / 10)]
              ([a_byte 100 100 0 0] @
               replicate 19 (a_byte 300 50 0 0)) 0 0 =
            ([a_byte 100 100 0 0] @
             replicate 19 (a_byte 300 50 0 0),
             0, 0)"
    unfolding update_bytes_append update_bytes.simps f0 update_bytes_idle [OF f1]
    by simp
  show ?thesis
    unfolding startB_def stB1_def
    by (rule startGame_session [OF init_bytes_A init_ghosts_B g bs]) simp_all
qed

lemma frameB2:
  "run cl0 stB1 [MouseMove 100 100, MouseDown, Frame 5016 rndH] = stB2"
proof -
  have sp: "(if 5016 - 5000 > (1000::int)
             then respawn_first rndH
                 ([a_byte 100 100 0 0] @
                  replicate 19 (a_byte 300 50 0 0))
             else [a_byte 100 100 0 0] @
                  replicate 19 (a_byte 300 50 0 0)) =
            [a_byte 100 100 0 0] @
            replicate 19 (a_byte 300 50 0 0)"
    by (simp add: respawn_first_replicate respawn_byte_def rndH_def b_byte_def a_byte_def
        canvas_width_def canvas_height_def)
  have g: "map (update_ghost (ghostSpeedMultiplier 0))
             [a_ghost (505 / 4) 100 (- 3 / 4) 0 (1 / 10),
              a_ghost 500 300 0 0 (1 / 10),
              a_ghost 500 300 0 0 (1 / 10)] =
           [a_ghost (251 / 2) 100 (- 3 / 4) 0 (1 / 5),
            a_ghost 500 300 0 0 (1 / 5),
            a_ghost 500 300 0 0 (1 / 5)]"
    by (simp add: moving_ghost ghostSpeedMultiplier_def)
  have f0: "update_byte (ctrl_at 100 100) True
              [a_ghost (251 / 2) 100 (- 3 / 4) 0 p,
               a_ghost 500 300 0 0 q,
               a_ghost 500 300 0 0 r]
              (a_byte 100 100 0 0) c e =
            (b_byte 100 100 0 0 False True 100 100, c, e)" for c e p q r
    by (simp add: game_eval)
  have f1: "update_byte (ctrl_at 100 100) True
              [a_ghost (251 / 2) 100 (- 3 / 4) 0 p,
               a_ghost 500 300 0 0 q,
               a_ghost 500 300 0 0 r]
              (a_byte 300 50 0 0) c e =
            (a_byte 300 50 0 0, c, e)" for c e p q r
    by (simp add: game_eval)
  have bs: "update_bytes (ctrl_at 100 100) True
              [a_ghost (251 / 2) 100 (- 3 / 4) 0 (1 / 5),
               a_ghost 500 300 0 0 (1 / 5),
               a_ghost 500 300 0 0 (1 / 5)]
              ([a_byte 100 100 0 0] @
               replicate 19 (a_byte 300 50 0 0)) 0 0 =
            ([b_byte 100 100 0 0 False True 100 100] @
             replicate 19 (a_byte 300 50 0 0),
             0, 0)"
    unfolding update_bytes_append update_bytes.simps f0 update_bytes_idle [OF f1]
    by simp
  show ?thesis
    unfolding stB1_def stB2_def run_Cons run_Nil mouse_session
    by (rule frame_session [OF sp g bs]) simp_all
qed

lemma frameB3:
  "run cl0 stB2 [Frame 5033 rndH] = stB3"
proof -
  have sp: "(if 5033 - 5000 > (1000::int)
             then respawn_first rndH
                 ([b_byte 100 100 0 0 False True 100 100] @
                  replicate 19 (a_byte 300 50 0 0))
             else [b_byte 100 100 0 0 False True 100 100] @
                  replicate 19 (a_byte 300 50 0 0)) =
            [b_byte 100 100 0 0 False True 100 100] @
            replicate 19 (a_byte 300 50 0 0)"
    by (simp add: respawn_first_replicate respawn_byte_def rndH_def b_byte_def a_byte_def
        canvas_width_def canvas_height_def)
  have g: "map (update_ghost (ghostSpeedMultiplier 0))
             [a_ghost (251 / 2) 100 (- 3 / 4) 0 (1 / 5),
              a_ghost 500 300 0 0 (1 / 5),
              a_ghost 500 300 0 0 (1 / 5)] =
           [a_ghost (499 / 4) 100 (- 3 / 4) 0 (3 / 10),
            a_ghost 500 300 0 0 (3 / 10),
            a_ghost 500 300 0 0 (3 / 10)]"
    by (simp add: moving_ghost ghostSpeedMultiplier_def)
  have f0: "update_byte (ctrl_at 100 100) True
              [a_ghost (499 / 4) 100 (- 3 / 4) 0 p,
               a_ghost 500 300 0 0 q,
               a_ghost 500 300 0 0 r]
              (b_byte 100 100 0 0 False True 100 100) c e =
            (b_byte 100 100 0 0 False True 100 100, c, e)" for c e p q r
    by (simp add: game_eval)
  have f1: "update_byte (ctrl_at 100 100) True
              [a_ghost (499 / 4) 100 (- 3 / 4) 0 p,
               a_ghost 500 300 0 0 q,
               a_ghost 500 300 0 0 r]
              (a_byte 300 50 0 0) c e =
            (a_byte 300 50 0 0, c, e)" for c e p q r
    by (simp add: game_eval)
  have bs: "update_bytes (ctrl_at 100 100) True
              [a_ghost (499 / 4) 100 (- 3 / 4) 0 (3 / 10),
               a_ghost 500 300 0 0 (3 / 10),
               a_ghost 500 300 0 0 (3 / 10)]
              ([b_byte 100 100 0 0 False True 100 100] @
               replicate 19 (a_byte 300 50 0 0)) 0 0 =
            ([b_byte 100 100 0 0 False True 100 100] @
             replicate 19 (a_byte 300 50 0 0),
             0, 0)"
    unfolding update_bytes_append update_bytes.simps f0 update_bytes_idle [OF f1]
    by simp
  show ?thesis
    unfolding stB2_def stB3_def run_Cons run_Nil
    by (rule frame_session [OF sp g bs]) simp_all
qed

lemma runB: "run cl0 startB eventsB = stB3"
  unfolding eventsB_def run_append startB_state frameB2 frameB3
  ..







lemma init_bytes_D:
  "map (init_byte (draws bdD gd)) [0..<totalBytes] =
     replicate 19 (a_byte 100 100 0 0) @
     [a_byte 500 300 0 0]"
  using init_bytes_groups [of bdD 19 100 100 0 0 0 500 300 0 0 500 300 0 0 gd]
  by (simp add: bdD_def)

lemma init_ghosts_D:
  "map (init_ghost (draws bd gdD)) [0..<totalGhosts] =
     [a_ghost 100 100 0 0 0,
      a_ghost (2105 / 4) 300 (- 3 / 4) 0 0,
      a_ghost 290 190 0 0 0]"
  by (rule init_ghosts_three) (simp_all add: gdD_def)

lemma startD_state: "startD = stD1"
proof -
  have g: "map (update_ghost 1)
             [a_ghost 100 100 0 0 0,
              a_ghost (2105 / 4) 300 (- 3 / 4) 0 0,
              a_ghost 290 190 0 0 0] =
           [a_ghost 100 100 0 0 (1 / 10),
            a_ghost (1051 / 2) 300 (- 3 / 4) 0 (1 / 10),
            a_ghost 290 190 0 0 (1 / 10)]"
    by (simp add: moving_ghost)
  have f0: "update_byte (ctrl_at 300 200) False
              [a_ghost 100 100 0 0 p,
               a_ghost (1051 / 2) 300 (- 3 / 4) 0 q,
               a_ghost 290 190 0 0 r]
              (a_byte 100 100 0 0) c e =
            (b_byte 100 100 0 0 True False 0 0, c, e + 1)" for c e p q r
    by (simp add: game_eval)
  have f1: "update_byte (ctrl_at 300 200) False
              [a_ghost 100 100 0 0 p,
               a_ghost (1051 / 2) 300 (- 3 / 4) 0 q,
               a_ghost 290 190 0 0 r]
              (a_byte 500 300 0 0) c e =
            (a_byte 500 300 0 0, c, e)" for c e p q r
    by (simp add: game_eval)
  have bs: "update_bytes (ctrl_at 300 200) False
              [a_ghost 100 100 0 0 (1 / 10),
               a_ghost (1051 / 2) 300 (- 3 / 4) 0 (1 / 10),
               a_ghost 290 190 0 0 (1 / 10)]
              (replicate 19 (a_byte 100 100 0 0) @
               [a_byte 500 300 0 0]) 0 0 =
            (replicate 19 (b_byte 100 100 0 0 True False 0 0) @
             [a_byte 500 300 0 0],
             0, 19)"
    unfolding update_bytes_append update_bytes.simps update_bytes_eaten [where de = 1, OF f0]
      f1
    by simp
  show ?thesis
    unfolding startD_def stD1_def
    by (rule startGame_session [OF init_bytes_D init_ghosts_D g bs]) simp_all
qed

lemma frameD2:
  shows "caughtBytes (run cl0 stD1 [Timer, Frame 6001 rndH]) = 0"
    and "eatenBytes (run cl0 stD1 [Timer, Frame 6001 rndH]) = 21"
    and "gameResult (ui (run cl0 stD1 [Timer, Frame 6001 rndH])) = Failed"
proof -
  have sp: "(if 6001 - 5000 > (1000::int)
             then respawn_first rndH
                 (replicate 19 (b_byte 100 100 0 0 True False 0 0) @
                  [a_byte 500 300 0 0])
             else replicate 19 (b_byte 100 100 0 0 True False 0 0) @
                  [a_byte 500 300 0 0]) =
            [a_byte 290 190 0 0] @
            replicate 18 (b_byte 100 100 0 0 True False 0 0) @
            [a_byte 500 300 0 0]"
    by (simp add: respawn_first_replicate respawn_byte_def rndH_def b_byte_def a_byte_def
        canvas_width_def canvas_height_def)
  have g: "map (update_ghost (ghostSpeedMultiplier 0))
             [a_ghost 100 100 0 0 (1 / 10),
              a_ghost (1051 / 2) 300 (- 3 / 4) 0 (1 / 10),
              a_ghost 290 190 0 0 (1 / 10)] =
           [a_ghost 100 100 0 0 (1 / 5),
            a_ghost (2099 / 4) 300 (- 3 / 4) 0 (1 / 5),
            a_ghost 290 190 0 0 (1 / 5)]"
    by (simp add: moving_ghost ghostSpeedMultiplier_def)
  have f0: "update_byte (ctrl_at 300 200) False
              [a_ghost 100 100 0 0 p,
               a_ghost (2099 / 4) 300 (- 3 / 4) 0 q,
               a_ghost 290 190 0 0 r]
              (a_byte 290 190 0 0) c e =
            (b_byte 290 190 0 0 True False 0 0, c, e + 1)" for c e p q r
    by (simp add: game_eval)
  have f1: "update_byte (ctrl_at 300 200) False
              [a_ghost 100 100 0 0 p,
               a_ghost (2099 / 4) 300 (- 3 / 4) 0 q,
               a_ghost 290 190 0 0 r]
              (b_byte 100 100 0 0 True False 0 0) c e =
            (b_byte 100 100 0 0 True False 0 0, c, e)" for c e p q r
    by (simp add: game_eval)
  have f2: "update_byte (ctrl_at 300 200) False
              [a_ghost 100 100 0 0 p,
               a_ghost (2099 / 4) 300 (- 3 / 4) 0 q,
               a_ghost 290 190 0 0 r]
              (a_byte 500 300 0 0) c e =
            (b_byte 500 300 0 0 True False 0 0, c, e + 1)" for c e p q r
    by (simp add: game_eval)
  have bs: "update_bytes (ctrl_at 300 200) False
              [a_ghost 100 100 0 0 (1 / 5),
               a_ghost (2099 / 4) 300 (- 3 / 4) 0 (1 / 5),
               a_ghost 290 190 0 0 (1 / 5)]
              ([a_byte 290 190 0 0] @
               replicate 18 (b_byte 100 100 0 0 True False 0 0) @
               [a_byte 500 300 0 0]) 0 19 =
            ([b_byte 290 190 0 0 True False 0 0] @
             replicate 18 (b_byte 100 100 0 0 True False 0 0) @
             [b_byte 500 300 0 0 True False 0 0],
             0, 21)"
    unfolding update_bytes_append update_bytes.simps f0 update_bytes_idle [OF f1] f2
    by simp
  show "caughtBytes (run cl0 stD1 [Timer, Frame 6001 rndH]) = 0"
    and "eatenBytes (run cl0 stD1 [Timer, Frame 6001 rndH]) = 21"
    and "gameResult (ui (run cl0 stD1 [Timer, Frame 6001 rndH])) = Failed"
    unfolding stD1_def run_Cons run_Nil timer_ticks
    using frame_session_last [OF sp g bs] by simp_all
qed

lemma runD:
  shows "caughtBytes (run cl0 startD eventsD) = 0"
    and "eatenBytes (run cl0 startD eventsD) = 21"
    and "gameResult (ui (run cl0 startD eventsD)) = Failed"
  unfolding eventsD_def run_append startD_state frameD2
  by simp_all

lemma init_bytes_E:
  "map (init_byte (draws bdE gd)) [0..<totalBytes] =
     replicate 6 (a_byte 100 100 0 0) @
     replicate 13 (a_byte 290 250 0 0) @
     [a_byte 140 100 (- 2) 0]"
  using init_bytes_groups [of bdE 6 100 100 0 0 13 290 250 0 0 140 100 "- 2" 0 gd]
  by (simp add: bdE_def)

lemma init_ghosts_E:
  "map (init_ghost (draws bd gdE)) [0..<totalGhosts] =
     [a_ghost 100 100 0 0 0,
      a_ghost 100 100 0 0 0,
      a_ghost 100 100 0 0 0]"
  by (rule init_ghosts_three) (simp_all add: gdE_def)

lemma startE_state: "startE = stE1"
proof -
  have g: "map (update_ghost 1)
             [a_ghost 100 100 0 0 0,
              a_ghost 100 100 0 0 0,
              a_ghost 100 100 0 0 0] =
           [a_ghost 100 100 0 0 (1 / 10),
            a_ghost 100 100 0 0 (1 / 10),
            a_ghost 100 100 0 0 (1 / 10)]"
    by (simp add: moving_ghost)
  have f0: "update_byte (ctrl_at 300 200) False
              [a_ghost 100 100 0 0 p,
               a_ghost 100 100 0 0 q,
               a_ghost 100 100 0 0 r]
              (a_byte 100 100 0 0) c e =
            (b_byte 100 100 0 0 True False 0 0, c, e + 3)" for c e p q r
    by (simp add: game_eval)
  have f1: "update_byte (ctrl_at 300 200) False
              [a_ghost 100 100 0 0 p,
               a_ghost 100 100 0 0 q,
               a_ghost 100 100 0 0 r]
              (a_byte 290 250 0 0) c e =
            (a_byte 290 250 0 0, c, e)" for c e p q r
    by (simp add: game_eval)
  have f2: "update_byte (ctrl_at 300 200) False
              [a_ghost 100 100 0 0 p,
               a_ghost 100 100 0 0 q,
               a_ghost 100 100 0 0 r]
              (a_byte 140 100 (- 2) 0) c e =
            (a_byte 138 100 (- 2) 0, c, e)" for c e p q r
    by (simp add: game_eval)
  have bs: "update_bytes (ctrl_at 300 200) False
              [a_ghost 100 100 0 0 (1 / 10),
               a_ghost 100 100 0 0 (1 / 10),
               a_ghost 100 100 0 0 (1 / 10)]
              (replicate 6 (a_byte 100 100 0 0) @
               replicate 13 (a_byte 290 250 0 0) @
               [a_byte 140 100 (- 2) 0]) 0 0 =
            (replicate 6 (b_byte 100 100 0 0 True False 0 0) @
             replicate 13 (a_byte 290 250 0 0) @
             [a_byte 138 100 (- 2) 0],
             0, 18)"
    unfolding update_bytes_append update_bytes.simps update_bytes_eaten [where de = 3, OF f0]
      update_bytes_idle [OF f1] f2
    by simp
  show ?thesis
    unfolding startE_def stE1_def
    by (rule startGame_session [OF init_bytes_E init_ghosts_E g bs]) simp_all
qed

lemma frameE2:
  "run cl0 stE1 [MouseMove 290 250, MouseDown, Timer, Frame 6001 rndE] = stE2"
proof -
  have sp: "(if 6001 - 5000 > (1000::int)
             then respawn_first rndE
                 (replicate 6 (b_byte 100 100 0 0 True False 0 0) @
                  replicate 13 (a_byte 290 250 0 0) @
                  [a_byte 138 100 (- 2) 0])
             else replicate 6 (b_byte 100 100 0 0 True False 0 0) @
                  replicate 13 (a_byte 290 250 0 0) @
                  [a_byte 138 100 (- 2) 0]) =
            [a_byte 290 250 0 0] @
            replicate 5 (b_byte 100 100 0 0 True False 0 0) @
            replicate 13 (a_byte 290 250 0 0) @
            [a_byte 138 100 (- 2) 0]"
    by (simp add: respawn_first_replicate respawn_byte_def rndE_def b_byte_def a_byte_def
        canvas_width_def canvas_height_def)
  have g: "map (update_ghost (ghostSpeedMultiplier 0))
             [a_ghost 100 100 0 0 (1 / 10),
              a_ghost 100 100 0 0 (1 / 10),
              a_ghost 100 100 0 0 (1 / 10)] =
           [a_ghost 100 100 0 0 (1 / 5),
            a_ghost 100 100 0 0 (1 / 5),
            a_ghost 100 100 0 0 (1 / 5)]"
    by (simp add: moving_ghost ghostSpeedMultiplier_def)
  have f0: "update_byte (ctrl_at 290 250) True
              [a_ghost 100 100 0 0 p,
               a_ghost 100 100 0 0 q,
               a_ghost 100 100 0 0 r]
              (a_byte 290 250 0 0) c e =
            (b_byte 290 250 0 0 True False 290 250, c + 1, e)" for c e p q r
    by (simp add: game_eval)
  have f1: "update_byte (ctrl_at 290 250) True
              [a_ghost 100 100 0 0 p,
               a_ghost 100 100 0 0 q,
               a_ghost 100 100 0 0 r]
              (b_byte 100 100 0 0 True False 0 0) c e =
            (b_byte 100 100 0 0 True False 0 0, c, e)" for c e p q r
    by (simp add: game_eval)
  have f2: "update_byte (ctrl_at 290 250) True
              [a_ghost 100 100 0 0 p,
               a_ghost 100 100 0 0 q,
               a_ghost 100 100 0 0 r]
              (a_byte 290 250 0 0) c e =
            (b_byte 290 250 0 0 True False 290 250, c + 1, e)" for c e p q r
    by (simp add: game_eval)
  have f3: "update_byte (ctrl_at 290 250) True
              [a_ghost 100 100 0 0 p,
               a_ghost 100 100 0 0 q,
               a_ghost 100 100 0 0 r]
              (a_byte 138 100 (- 2) 0) c e =
            (a_byte 136 100 (- 2) 0, c, e)" for c e p q r
    by (simp add: game_eval)
  have bs: "update_bytes (ctrl_at 290 250) True
              [a_ghost 100 100 0 0 (1 / 5),
               a_ghost 100 100 0 0 (1 / 5),
               a_ghost 100 100 0 0 (1 / 5)]
              ([a_byte 290 250 0 0] @
               replicate 5 (b_byte 100 100 0 0 True False 0 0) @
               replicate 13 (a_byte 290 250 0 0) @
               [a_byte 138 100 (- 2) 0]) 0 18 =
            ([b_byte 290 250 0 0 True False 290 250] @
             replicate 5 (b_byte 100 100 0 0 True False 0 0) @
             replicate 13 (b_byte 290 250 0 0 True False 290 250) @
             [a_byte 136 100 (- 2) 0],
             14, 18)"
    unfolding update_bytes_append update_bytes.simps f0 update_bytes_idle [OF f1]
      update_bytes_deposits [where dc = 1, OF f2] f3
    by simp
  show ?thesis
    unfolding stE1_def stE2_def run_Cons run_Nil mouse_session timer_ticks
    by (rule frame_session [OF sp g bs]) simp_all
qed

lemma frameE3:
  "run cl0 stE2 [Timer, Frame 7002 rndE] = stE3"
proof -
  have sp: "(if 7002 - 6001 > (1000::int)
             then respawn_first rndE
                 ([b_byte 290 250 0 0 True False 290 250] @
                  replicate 5 (b_byte 100 100 0 0 True False 0 0) @
                  replicate 13 (b_byte 290 250 0 0 True False 290 250) @
                  [a_byte 136 100 (- 2) 0])
             else [b_byte 290 250 0 0 True False 290 250] @
                  replicate 5 (b_byte 100 100 0 0 True False 0 0) @
                  replicate 13 (b_byte 290 250 0 0 True False 290 250) @
                  [a_byte 136 100 (- 2) 0]) =
            [b_byte 290 250 0 0 False False 290 250] @
            replicate 5 (b_byte 100 100 0 0 True False 0 0) @
            replicate 13 (b_byte 290 250 0 0 True False 290 250) @
            [a_byte 136 100 (- 2) 0]"
    by (simp add: respawn_first_replicate respawn_byte_def rndE_def b_byte_def a_byte_def
        canvas_width_def canvas_height_def)
  have g: "map (update_ghost (ghostSpeedMultiplier 14))
             [a_ghost 100 100 0 0 (1 / 5),
              a_ghost 100 100 0 0 (1 / 5),
              a_ghost 100 100 0 0 (1 / 5)] =
           [a_ghost 100 100 0 0 (3 / 10),
            a_ghost 100 100 0 0 (3 / 10),
            a_ghost 100 100 0 0 (3 / 10)]"
    by (simp add: moving_ghost ghostSpeedMultiplier_def)
  have f0: "update_byte (ctrl_at 290 250) True
              [a_ghost 100 100 0 0 p,
               a_ghost 100 100 0 0 q,
               a_ghost 100 100 0 0 r]
              (b_byte 290 250 0 0 False False 290 250) c e =
            (b_byte 290 250 0 0 True False 290 250, c + 1, e)" for c e p q r
    by (simp add: game_eval)
  have f1: "update_byte (ctrl_at 290 250) True
              [a_ghost 100 100 0 0 p,
               a_ghost 100 100 0 0 q,
               a_ghost 100 100 0 0 r]
              (b_byte 100 100 0 0 True False 0 0) c e =
            (b_byte 100 100 0 0 True False 0 0, c, e)" for c e p q r
    by (simp add: game_eval)
  have f2: "update_byte (ctrl_at 290 250) True
              [a_ghost 100 100 0 0 p,
               a_ghost 100 100 0 0 q,
               a_ghost 100 100 0 0 r]
              (b_byte 290 250 0 0 True False 290 250) c e =
            (b_byte 290 250 0 0 True False 290 250, c, e)" for c e p q r
    by (simp add: game_eval)
  have f3: "update_byte (ctrl_at 290 250) True
              [a_ghost 100 100 0 0 p,
               a_ghost 100 100 0 0 q,
               a_ghost 100 100 0 0 r]
              (a_byte 136 100 (- 2) 0) c e =
            (a_byte 134 100 (- 2) 0, c, e)" for c e p q r
    by (simp add: game_eval)
  have bs: "update_bytes (ctrl_at 290 250) True
              [a_ghost 100 100 0 0 (3 / 10),
               a_ghost 100 100 0 0 (3 / 10),
               a_ghost 100 100 0 0 (3 / 10)]
              ([b_byte 290 250 0 0 False False 290 250] @
               replicate 5 (b_byte 100 100 0 0 True False 0 0) @
               replicate 13 (b_byte 290 250 0 0 True False 290 250) @
               [a_byte 136 100 (- 2) 0]) 14 18 =
            ([b_byte 290 250 0 0 True False 290 250] @
             replicate 5 (b_byte 100 100 0 0 True False 0 0) @
             replicate 13 (b_byte 290 250 0 0 True False 290 250) @
             [a_byte 134 100 (- 2) 0],
             15, 18)"
    unfolding update_bytes_append update_bytes.simps f0 update_bytes_idle [OF f1]
      update_bytes_idle [OF f2] f3
    by simp
  show ?thesis
    unfolding stE2_def stE3_def run_Cons run_Nil timer_ticks
    by (rule frame_session [OF sp g bs]) simp_all
qed

lemma frameE4:
  "run cl0 stE3 [Timer, Frame 8003 rndE] = stE4"
proof -
  have sp: "(if 8003 - 7002 > (1000::int)
             then respawn_first rndE
                 ([b_byte 290 250 0 0 True False 290 250] @
                  replicate 5 (b_byte 100 100 0 0 True False 0 0) @
                  replicate 13 (b_byte 290 250 0 0 True False 290 250) @
                  [a_byte 134 100 (- 2) 0])
             else [b_byte 290 250 0 0 True False 290 250] @
                  replicate 5 (b_byte 100 100 0 0 True False 0 0) @
                  replicate 13 (b_byte 290 250 0 0 True False 290 250) @
                  [a_byte 134 100 (- 2) 0]) =
            [b_byte 290 250 0 0 False False 290 250] @
            replicate 5 (b_byte 100 100 0 0 True False 0 0) @
            replicate 13 (b_byte 290 250 0 0 True False 290 250) @
            [a_byte 134 100 (- 2) 0]"
    by (simp add: respawn_first_replicate respawn_byte_def rndE_def b_byte_def a_byte_def
        canvas_width_def canvas_height_def)
  have g: "map (update_ghost (ghostSpeedMultiplier 15))
             [a_ghost 100 100 0 0 (3 / 10),
              a_ghost 100 100 0 0 (3 / 10),
              a_ghost 100 100 0 0 (3 / 10)] =
           [a_ghost 100 100 0 0 (2 / 5),
            a_ghost 100 100 0 0 (2 / 5),
            a_ghost 100 100 0 0 (2 / 5)]"
    by (simp add: moving_ghost ghostSpeedMultiplier_def)
  have f0: "update_byte (ctrl_at 290 250) True
              [a_ghost 100 100 0 0 p,
               a_ghost 100 100 0 0 q,
               a_ghost 100 100 0 0 r]
              (b_byte 290 250 0 0 False False 290 250) c e =
            (b_byte 290 250 0 0 True False 290 250, c + 1, e)" for c e p q r
    by (simp add: game_eval)
  have f1: "update_byte (ctrl_at 290 250) True
              [a_ghost 100 100 0 0 p,
               a_ghost 100 100 0 0 q,
               a_ghost 100 100 0 0 r]
              (b_byte 100 100 0 0 True False 0 0) c e =
            (b_byte 100 100 0 0 True False 0 0, c, e)" for c e p q r
    by (simp add: game_eval)
  have f2: "update_byte (ctrl_at 290 250) True
              [a_ghost 100 100 0 0 p,
               a_ghost 100 100 0 0 q,
               a_ghost 100 100 0 0 r]
              (b_byte 290 250 0 0 True False 290 250) c e =
            (b_byte 290 250 0 0 True False 290 250, c, e)" for c e p q r
    by (simp add: game_eval)
  have f3: "update_byte (ctrl_at 290 250) True
              [a_ghost 100 100 0 0 p,
               a_ghost 100 100 0 0 q,
               a_ghost 100 100 0 0 r]
              (a_byte 134 100 (- 2) 0) c e =
            (a_byte 132 100 (- 2) 0, c, e)" for c e p q r
    by (simp add: game_eval)
  have bs: "update_bytes (ctrl_at 290 250) True
              [a_ghost 100 100 0 0 (2 / 5),
               a_ghost 100 100 0 0 (2 / 5),
               a_ghost 100 100 0 0 (2 / 5)]
              ([b_byte 290 250 0 0 False False 290 250] @
               replicate 5 (b_byte 100 100 0 0 True False 0 0) @
               replicate 13 (b_byte 290 250 0 0 True False 290 250) @
               [a_byte 134 100 (- 2) 0]) 15 18 =
            ([b_byte 290 250 0 0 True False 290 250] @
             replicate 5 (b_byte 100 100 0 0 True False 0 0) @
             replicate 13 (b_byte 290 250 0 0 True False 290 250) @
             [a_byte 132 100 (- 2) 0],
             16, 18)"
    unfolding update_bytes_append update_bytes.simps f0 update_bytes_idle [OF f1]
      update_bytes_idle [OF f2] f3
    by simp
  show ?thesis
    unfolding stE3_def stE4_def run_Cons run_Nil timer_ticks
    by (rule frame_session [OF sp g bs]) simp_all
qed

lemma frameE5:
  "run cl0 stE4 [Timer, Frame 9004 rndE] = stE5"
proof -
  have sp: "(if 9004 - 8003 > (1000::int)
             then respawn_first rndE
                 ([b_byte 290 250 0 0 True False 290 250] @
                  replicate 5 (b_byte 100 100 0 0 True False 0 0) @
                  replicate 13 (b_byte 290 250 0 0 True False 290 250) @
                  [a_byte 132 100 (- 2) 0])
             else [b_byte 290 250 0 0 True False 290 250] @
                  replicate 5 (b_byte 100 100 0 0 True False 0 0) @
                  replicate 13 (b_byte 290 250 0 0 True False 290 250) @
                  [a_byte 132 100 (- 2) 0]) =
            [b_byte 290 250 0 0 False False 290 250] @
            replicate 5 (b_byte 100 100 0 0 True False 0 0) @
            replicate 13 (b_byte 290 250 0 0 True False 290 250) @
            [a_byte 132 100 (- 2) 0]"
    by (simp add: respawn_first_replicate respawn_byte_def rndE_def b_byte_def a_byte_def
        canvas_width_def canvas_height_def)
  have g: "map (update_ghost (ghostSpeedMultiplier 16))
             [a_ghost 100 100 0 0 (2 / 5),
              a_ghost 100 100 0 0 (2 / 5),
              a_ghost 100 100 0 0 (2 / 5)] =
           [a_ghost 100 100 0 0 (1 / 2),
            a_ghost 100 100 0 0 (1 / 2),
            a_ghost 100 100 0 0 (1 / 2)]"
    by (simp add: moving_ghost ghostSpeedMultiplier_def)
  have f0: "update_byte (ctrl_at 290 250) True
              [a_ghost 100 100 0 0 p,
               a_ghost 100 100 0 0 q,
               a_ghost 100 100 0 0 r]
              (b_byte 290 250 0 0 False False 290 250) c e =
            (b_byte 290 250 0 0 True False 290 250, c + 1, e)" for c e p q r
    by (simp add: game_eval)
  have f1: "update_byte (ctrl_at 290 250) True
              [a_ghost 100 100 0 0 p,
               a_ghost 100 100 0 0 q,
               a_ghost 100 100 0 0 r]
              (b_byte 100 100 0 0 True False 0 0) c e =
            (b_byte 100 100 0 0 True False 0 0, c, e)" for c e p q r
    by (simp add: game_eval)
  have f2: "update_byte (ctrl_at 290 250) True
              [a_ghost 100 100 0 0 p,
               a_ghost 100 100 0 0 q,
               a_ghost 100 100 0 0 r]
              (b_byte 290 250 0 0 True False 290 250) c e =
            (b_byte 290 250 0 0 True False 290 250, c, e)" for c e p q r
    by (simp add: game_eval)
  have f3: "update_byte (ctrl_at 290 250) True
              [a_ghost 100 100 0 0 p,
               a_ghost 100 100 0 0 q,
               a_ghost 100 100 0 0 r]
              (a_byte 132 100 (- 2) 0) c e =
            (a_byte 130 100 (- 2) 0, c, e)" for c e p q r
    by (simp add: game_eval)
  have bs: "update_bytes (ctrl_at 290 250) True
              [a_ghost 100 100 0 0 (1 / 2),
               a_ghost 100 100 0 0 (1 / 2),
               a_ghost 100 100 0 0 (1 / 2)]
              ([b_byte 290 250 0 0 False False 290 250] @
               replicate 5 (b_byte 100 100 0 0 True False 0 0) @
               replicate 13 (b_byte 290 250 0 0 True False 290 250) @
               [a_byte 132 100 (- 2) 0]) 16 18 =
            ([b_byte 290 250 0 0 True False 290 250] @
             replicate 5 (b_byte 100 100 0 0 True False 0 0) @
             replicate 13 (b_byte 290 250 0 0 True False 290 250) @
             [a_byte 130 100 (- 2) 0],
             17, 18)"
    unfolding update_bytes_append update_bytes.simps f0 update_bytes_idle [OF f1]
      update_bytes_idle [OF f2] f3
    by simp
  show ?thesis
    unfolding stE4_def stE5_def run_Cons run_Nil timer_ticks
    by (rule frame_session [OF sp g bs]) simp_all
qed

lemma frameE6:
  "run cl0 stE5 [Timer, Frame 10005 rndE] = stE6"
proof -
  have sp: "(if 10005 - 9004 > (1000::int)
             then respawn_first rndE
                 ([b_byte 290 250 0 0 True False 290 250] @
                  replicate 5 (b_byte 100 100 0 0 True False 0 0) @
                  replicate 13 (b_byte 290 250 0 0 True False 290 250) @
                  [a_byte 130 100 (- 2) 0])
             else [b_byte 290 250 0 0 True False 290 250] @
                  replicate 5 (b_byte 100 100 0 0 True False 0 0) @
                  replicate 13 (b_byte 290 250 0 0 True False 290 250) @
                  [a_byte 130 100 (- 2) 0]) =
            [b_byte 290 250 0 0 False False 290 250] @
            replicate 5 (b_byte 100 100 0 0 True False 0 0) @
            replicate 13 (b_byte 290 250 0 0 True False 290 250) @
            [a_byte 130 100 (- 2) 0]"
    by (simp add: respawn_first_replicate respawn_byte_def rndE_def b_byte_def a_byte_def
        canvas_width_def canvas_height_def)
  have g: "map (update_ghost (ghostSpeedMultiplier 17))
             [a_ghost 100 100 0 0 (1 / 2),
              a_ghost 100 100 0 0 (1 / 2),
              a_ghost 100 100 0 0 (1 / 2)] =
           [a_ghost 100 100 0 0 (3 / 5),
            a_ghost 100 100 0 0 (3 / 5),
            a_ghost 100 100 0 0 (3 / 5)]"
    by (simp add: moving_ghost ghostSpeedMultiplier_def)
  have f0: "update_byte (ctrl_at 290 250) True
              [a_ghost 100 100 0 0 p,
               a_ghost 100 100 0 0 q,
               a_ghost 100 100 0 0 r]
              (b_byte 290 250 0 0 False False 290 250) c e =
            (b_byte 290 250 0 0 True False 290 250, c + 1, e)" for c e p q r
    by (simp add: game_eval)
  have f1: "update_byte (ctrl_at 290 250) True
              [a_ghost 100 100 0 0 p,
               a_ghost 100 100 0 0 q,
               a_ghost 100 100 0 0 r]
              (b_byte 100 100 0 0 True False 0 0) c e =
            (b_byte 100 100 0 0 True False 0 0, c, e)" for c e p q r
    by (simp add: game_eval)
  have f2: "update_byte (ctrl_at 290 250) True
              [a_ghost 100 100 0 0 p,
               a_ghost 100 100 0 0 q,
               a_ghost 100 100 0 0 r]
              (b_byte 290 250 0 0 True False 290 250) c e =
            (b_byte 290 250 0 0 True False 290 250, c, e)" for c e p q r
    by (simp add: game_eval)
  have f3: "update_byte (ctrl_at 290 250) True
              [a_ghost 100 100 0 0 p,
               a_ghost 100 100 0 0 q,
               a_ghost 100 100 0 0 r]
              (a_byte 130 100 (- 2) 0) c e =
            (a_byte 128 100 (- 2) 0, c, e)" for c e p q r
    by (simp add: game_eval)
  have bs: "update_bytes (ctrl_at 290 250) True
              [a_ghost 100 100 0 0 (3 / 5),
               a_ghost 100 100 0 0 (3 / 5),
               a_ghost 100 100 0 0 (3 / 5)]
              ([b_byte 290 250 0 0 False False 290 250] @
               replicate 5 (b_byte 100 100 0 0 True False 0 0) @
               replicate 13 (b_byte 290 250 0 0 True False 290 250) @
               [a_byte 130 100 (- 2) 0]) 17 18 =
            ([b_byte 290 250 0 0 True False 290 250] @
             replicate 5 (b_byte 100 100 0 0 True False 0 0) @
             replicate 13 (b_byte 290 250 0 0 True False 290 250) @
             [a_byte 128 100 (- 2) 0],
             18, 18)"
    unfolding update_bytes_append update_bytes.simps f0 update_bytes_idle [OF f1]
      update_bytes_idle [OF f2] f3
    by simp
  show ?thesis
    unfolding stE5_def stE6_def run_Cons run_Nil timer_ticks
    by (rule frame_session [OF sp g bs]) simp_all
qed

lemma frameE7:
  "run cl0 stE6 [Timer, Frame 11006 rndE] = stE7"
proof -
  have sp: "(if 11006 - 10005 > (1000::int)
             then respawn_first rndE
                 ([b_byte 290 250 0 0 True False 290 250] @
                  replicate 5 (b_byte 100 100 0 0 True False 0 0) @
                  replicate 13 (b_byte 290 250 0 0 True False 290 250) @
                  [a_byte 128 100 (- 2) 0])
             else [b_byte 290 250 0 0 True False 290 250] @
                  replicate 5 (b_byte 100 100 0 0 True False 0 0) @
                  replicate 13 (b_byte 290 250 0 0 True False 290 250) @
                  [a_byte 128 100 (- 2) 0]) =
            [b_byte 290 250 0 0 False False 290 250] @
            replicate 5 (b_byte 100 100 0 0 True False 0 0) @
            replicate 13 (b_byte 290 250 0 0 True False 290 250) @
            [a_byte 128 100 (- 2) 0]"
    by (simp add: respawn_first_replicate respawn_byte_def rndE_def b_byte_def a_byte_def
        canvas_width_def canvas_height_def)
  have g: "map (update_ghost (ghostSpeedMultiplier 18))
             [a_ghost 100 100 0 0 (3 / 5),
              a_ghost 100 100 0 0 (3 / 5),
              a_ghost 100 100 0 0 (3 / 5)] =
           [a_ghost 100 100 0 0 (7 / 10),
            a_ghost 100 100 0 0 (7 / 10),
            a_ghost 100 100 0 0 (7 / 10)]"
    by (simp add: moving_ghost ghostSpeedMultiplier_def)
  have f0: "update_byte (ctrl_at 290 250) True
              [a_ghost 100 100 0 0 p,
               a_ghost 100 100 0 0 q,
               a_ghost 100 100 0 0 r]
              (b_byte 290 250 0 0 False False 290 250) c e =
            (b_byte 290 250 0 0 True False 290 250, c + 1, e)" for c e p q r
    by (simp add: game_eval)
  have f1: "update_byte (ctrl_at 290 250) True
              [a_ghost 100 100 0 0 p,
               a_ghost 100 100 0 0 q,
               a_ghost 100 100 0 0 r]
              (b_byte 100 100 0 0 True False 0 0) c e =
            (b_byte 100 100 0 0 True False 0 0, c, e)" for c e p q r
    by (simp add: game_eval)
  have f2: "update_byte (ctrl_at 290 250) True
              [a_ghost 100 100 0 0 p,
               a_ghost 100 100 0 0 q,
               a_ghost 100 100 0 0 r]
              (b_byte 290 250 0 0 True False 290 250) c e =
            (b_byte 290 250 0 0 True False 290 250, c, e)" for c e p q r
    by (simp add: game_eval)
  have f3: "update_byte (ctrl_at 290 250) True
              [a_ghost 100 100 0 0 p,
               a_ghost 100 100 0 0 q,
               a_ghost 100 100 0 0 r]
              (a_byte 128 100 (- 2) 0) c e =
            (a_byte 126 100 (- 2) 0, c, e)" for c e p q r
    by (simp add: game_eval)
  have bs: "update_bytes (ctrl_at 290 250) True
              [a_ghost 100 100 0 0 (7 / 10),
               a_ghost 100 100 0 0 (7 / 10),
               a_ghost 100 100 0 0 (7 / 10)]
              ([b_byte 290 250 0 0 False False 290 250] @
               replicate 5 (b_byte 100 100 0 0 True False 0 0) @
               replicate 13 (b_byte 290 250 0 0 True False 290 250) @
               [a_byte 128 100 (- 2) 0]) 18 18 =
            ([b_byte 290 250 0 0 True False 290 250] @
             replicate 5 (b_byte 100 100 0 0 True False 0 0) @
             replicate 13 (b_byte 290 250 0 0 True False 290 250) @
             [a_byte 126 100 (- 2) 0],
             19, 18)"
    unfolding update_bytes_append update_bytes.simps f0 update_bytes_idle [OF f1]
      update_bytes_idle [OF f2] f3
    by simp
  show ?thesis
    unfolding stE6_def stE7_def run_Cons run_Nil timer_ticks
    by (rule frame_session [OF sp g bs]) simp_all
qed

lemma frameE8:
  shows "caughtBytes (run cl0 stE7 [Timer, Frame 12007 rndE]) = 20"
    and "eatenBytes (run cl0 stE7 [Timer, Frame 12007 rndE]) = 21"
    and "gameResult (ui (run cl0 stE7 [Timer, Frame 12007 rndE])) = Success"
proof -
  have sp: "(if 12007 - 11006 > (1000::int)
             then respawn_first rndE
                 ([b_byte 290 250 0 0 True False 290 250] @
                  replicate 5 (b_byte 100 100 0 0 True False 0 0) @
                  replicate 13 (b_byte 290 250 0 0 True False 290 250) @
                  [a_byte 126 100 (- 2) 0])
             else [b_byte 290 250 0 0 True False 290 250] @
                  replicate 5 (b_byte 100 100 0 0 True False 0 0) @
                  replicate 13 (b_byte 290 250 0 0 True False 290 250) @
                  [a_byte 126 100 (- 2) 0]) =
            [b_byte 290 250 0 0 False False 290 250] @
            replicate 5 (b_byte 100 100 0 0 True False 0 0) @
            replicate 13 (b_byte 290 250 0 0 True False 290 250) @
            [a_byte 126 100 (- 2) 0]"
    by (simp add: respawn_first_replicate respawn_byte_def rndE_def b_byte_def a_byte_def
        canvas_width_def canvas_height_def)
  have g: "map (update_ghost (ghostSpeedMultiplier 19))
             [a_ghost 100 100 0 0 (7 / 10),
              a_ghost 100 100 0 0 (7 / 10),
              a_ghost 100 100 0 0 (7 / 10)] =
           [a_ghost 100 100 0 0 (4 / 5),
            a_ghost 100 100 0 0 (4 / 5),
            a_ghost 100 100 0 0 (4 / 5)]"
    by (simp add: moving_ghost ghostSpeedMultiplier_def)
  have f0: "update_byte (ctrl_at 290 250) True
              [a_ghost 100 100 0 0 p,
               a_ghost 100 100 0 0 q,
               a_ghost 100 100 0 0 r]
              (b_byte 290 250 0 0 False False 290 250) c e =
            (b_byte 290 250 0 0 True False 290 250, c + 1, e)" for c e p q r
    by (simp add: game_eval)
  have f1: "update_byte (ctrl_at 290 250) True
              [a_ghost 100 100 0 0 p,
               a_ghost 100 100 0 0 q,
               a_ghost 100 100 0 0 r]
              (b_byte 100 100 0 0 True False 0 0) c e =
            (b_byte 100 100 0 0 True False 0 0, c, e)" for c e p q r
    by (simp add: game_eval)
  have f2: "update_byte (ctrl_at 290 250) True
              [a_ghost 100 100 0 0 p,
               a_ghost 100 100 0 0 q,
               a_ghost 100 100 0 0 r]
              (b_byte 290 250 0 0 True False 290 250) c e =
            (b_byte 290 250 0 0 True False 290 250, c, e)" for c e p q r
    by (simp add: game_eval)
  have f3: "update_byte (ctrl_at 290 250) True
              [a_ghost 100 100 0 0 p,
               a_ghost 100 100 0 0 q,
               a_ghost 100 100 0 0 r]
              (a_byte 126 100 (- 2) 0) c e =
            (b_byte 124 100 (- 2) 0 True False 0 0, c, e + 3)" for c e p q r
    by (simp add: game_eval)
  have bs: "update_bytes (ctrl_at 290 250) True
              [a_ghost 100 100 0 0 (4 / 5),
               a_ghost 100 100 0 0 (4 / 5),
               a_ghost 100 100 0 0 (4 / 5)]
              ([b_byte 290 250 0 0 False False 290 250] @
               replicate 5 (b_byte 100 100 0 0 True False 0 0) @
               replicate 13 (b_byte 290 250 0 0 True False 290 250) @
               [a_byte 126 100 (- 2) 0]) 19 18 =
            ([b_byte 290 250 0 0 True False 290 250] @
             replicate 5 (b_byte 100 100 0 0 True False 0 0) @
             replicate 13 (b_byte 290 250 0 0 True False 290 250) @
             [b_byte 124 100 (- 2) 0 True False 0 0],
             20, 21)"
    unfolding update_bytes_append update_bytes.simps f0 update_bytes_idle [OF f1]
      update_bytes_idle [OF f2] f3
    by simp
  show "caughtBytes (run cl0 stE7 [Timer, Frame 12007 rndE]) = 20"
    and "eatenBytes (run cl0 stE7 [Timer, Frame 12007 rndE]) = 21"
    and "gameResult (ui (run cl0 stE7 [Timer, Frame 12007 rndE])) = Success"
    unfolding stE7_def run_Cons run_Nil timer_ticks
    using frame_session_last [OF sp g bs] by simp_all
qed

lemma runE2: "run cl0 startE eventsE2 = stE2"
  unfolding eventsE2_def run_append startE_state frameE2
  ..

lemma runE:
  shows "caughtBytes (run cl0 startE eventsE) = 20"
    and "eatenBytes (run cl0 startE eventsE) = 21"
    and "gameResult (ui (run cl0 startE eventsE)) = Success"
  unfolding eventsE_def run_append startE_state frameE2 frameE3 frameE4 frameE5 frameE6
    frameE7 frameE8
  by simp_all

lemma init_bytes_F:
  "map (init_byte (draws bdF gd)) [0..<totalBytes] =
     replicate 6 (a_byte 100 100 0 0) @
     replicate 13 (a_byte 290 250 0 0) @
     [a_byte 335 250 (- 2) 0]"
  using init_bytes_groups [of bdF 6 100 100 0 0 13 290 250 0 0 335 250 "- 2" 0 gd]
  by (simp add: bdF_def)

lemma startF_state: "startF = stF1"
proof -
  have g: "map (update_ghost 1)
             [a_ghost 100 100 0 0 0,
              a_ghost 100 100 0 0 0,
              a_ghost 100 100 0 0 0] =
           [a_ghost 100 100 0 0 (1 / 10),
            a_ghost 100 100 0 0 (1 / 10),
            a_ghost 100 100 0 0 (1 / 10)]"
    by (simp add: moving_ghost)
  have f0: "update_byte (ctrl_at 300 200) False
              [a_ghost 100 100 0 0 p,
               a_ghost 100 100 0 0 q,
               a_ghost 100 100 0 0 r]
              (a_byte 100 100 0 0) c e =
            (b_byte 100 100 0 0 True False 0 0, c, e + 3)" for c e p q r
    by (simp add: game_eval)
  have f1: "update_byte (ctrl_at 300 200) False
              [a_ghost 100 100 0 0 p,
               a_ghost 100 100 0 0 q,
               a_ghost 100 100 0 0 r]
              (a_byte 290 250 0 0) c e =
            (a_byte 290 250 0 0, c, e)" for c e p q r
    by (simp add: game_eval)
  have f2: "update_byte (ctrl_at 300 200) False
              [a_ghost 100 100 0 0 p,
               a_ghost 100 100 0 0 q,
               a_ghost 100 100 0 0 r]
              (a_byte 335 250 (- 2) 0) c e =
            (a_byte 333 250 (- 2) 0, c, e)" for c e p q r
    by (simp add: game_eval)
  have bs: "update_bytes (ctrl_at 300 200) False
              [a_ghost 100 100 0 0 (1 / 10),
               a_ghost 100 100 0 0 (1 / 10),
               a_ghost 100 100 0 0 (1 / 10)]
              (replicate 6 (a_byte 100 100 0 0) @
               replicate 13 (a_byte 290 250 0 0) @
               [a_byte 335 250 (- 2) 0]) 0 0 =
            (replicate 6 (b_byte 100 100 0 0 True False 0 0) @
             replicate 13 (a_byte 290 250 0 0) @
             [a_byte 333 250 (- 2) 0],
             0, 18)"
    unfolding update_bytes_append update_bytes.simps update_bytes_eaten [where de = 3, OF f0]
      update_bytes_idle [OF f1] f2
    by simp
  show ?thesis
    unfolding startF_def stF1_def
    by (rule startGame_session [OF init_bytes_F init_ghosts_E g bs]) simp_all
qed

lemma frameF2:
  "run cl0 stF1 [MouseMove 290 250, MouseDown, Timer, Frame 6001 rndE] = stF2"
proof -
  have sp: "(if 6001 - 5000 > (1000::int)
             then respawn_first rndE
                 (replicate 6 (b_byte 100 100 0 0 True False 0 0) @
                  replicate 13 (a_byte 290 250 0 0) @
                  [a_byte 333 250 (- 2) 0])
             else replicate 6 (b_byte 100 100 0 0 True False 0 0) @
                  replicate 13 (a_byte 290 250 0 0) @
                  [a_byte 333 250 (- 2) 0]) =
            [a_byte 290 250 0 0] @
            replicate 5 (b_byte 100 100 0 0 True False 0 0) @
            replicate 13 (a_byte 290 250 0 0) @
            [a_byte 333 250 (- 2) 0]"
    by (simp add: respawn_first_replicate respawn_byte_def rndE_def b_byte_def a_byte_def
        canvas_width_def canvas_height_def)
  have g: "map (update_ghost (ghostSpeedMultiplier 0))
             [a_ghost 100 100 0 0 (1 / 10),
              a_ghost 100 100 0 0 (1 / 10),
              a_ghost 100 100 0 0 (1 / 10)] =
           [a_ghost 100 100 0 0 (1 / 5),
            a_ghost 100 100 0 0 (1 / 5),
            a_ghost 100 100 0 0 (1 / 5)]"
    by (simp add: moving_ghost ghostSpeedMultiplier_def)
  have f0: "update_byte (ctrl_at 290 250) True
              [a_ghost 100 100 0 0 p,
               a_ghost 100 100 0 0 q,
               a_ghost 100 100 0 0 r]
              (a_byte 290 250 0 0) c e =
            (b_byte 290 250 0 0 True False 290 250, c + 1, e)" for c e p q r
    by (simp add: game_eval)
  have f1: "update_byte (ctrl_at 290 250) True
              [a_ghost 100 100 0 0 p,
               a_ghost 100 100 0 0 q,
               a_ghost 100 100 0 0 r]
              (b_byte 100 100 0 0 True False 0 0) c e =
            (b_byte 100 100 0 0 True False 0 0, c, e)" for c e p q r
    by (simp add: game_eval)
  have f2: "update_byte (ctrl_at 290 250) True
              [a_ghost 100 100 0 0 p,
               a_ghost 100 100 0 0 q,
               a_ghost 100 100 0 0 r]
              (a_byte 290 250 0 0) c e =
            (b_byte 290 250 0 0 True False 290 250, c + 1, e)" for c e p q r
    by (simp add: game_eval)
  have f3: "update_byte (ctrl_at 290 250) True
              [a_ghost 100 100 0 0 p,
               a_ghost 100 100 0 0 q,
               a_ghost 100 100 0 0 r]
              (a_byte 333 250 (- 2) 0) c e =
            (a_byte 331 250 (- 2) 0, c, e)" for c e p q r
    by (simp add: game_eval)
  have bs: "update_bytes (ctrl_at 290 250) True
              [a_ghost 100 100 0 0 (1 / 5),
               a_ghost 100 100 0 0 (1 / 5),
               a_ghost 100 100 0 0 (1 / 5)]
              ([a_byte 290 250 0 0] @
               replicate 5 (b_byte 100 100 0 0 True False 0 0) @
               replicate 13 (a_byte 290 250 0 0) @
               [a_byte 333 250 (- 2) 0]) 0 18 =
            ([b_byte 290 250 0 0 True False 290 250] @
             replicate 5 (b_byte 100 100 0 0 True False 0 0) @
             replicate 13 (b_byte 290 250 0 0 True False 290 250) @
             [a_byte 331 250 (- 2) 0],
             14, 18)"
    unfolding update_bytes_append update_bytes.simps f0 update_bytes_idle [OF f1]
      update_bytes_deposits [where dc = 1, OF f2] f3
    by simp
  show ?thesis
    unfolding stF1_def stF2_def run_Cons run_Nil mouse_session timer_ticks
    by (rule frame_session [OF sp g bs]) simp_all
qed

lemma frameF3:
  "run cl0 stF2 [Timer, Frame 7002 rndE] = stF3"
proof -
  have sp: "(if 7002 - 6001 > (1000::int)
             then respawn_first rndE
                 ([b_byte 290 250 0 0 True False 290 250] @
                  replicate 5 (b_byte 100 100 0 0 True False 0 0) @
                  replicate 13 (b_byte 290 250 0 0 True False 290 250) @
                  [a_byte 331 250 (- 2) 0])
             else [b_byte 290 250 0 0 True False 290 250] @
                  replicate 5 (b_byte 100 100 0 0 True False 0 0) @
                  replicate 13 (b_byte 290 250 0 0 True False 290 250) @
                  [a_byte 331 250 (- 2) 0]) =
            [b_byte 290 250 0 0 False False 290 250] @
            replicate 5 (b_byte 100 100 0 0 True False 0 0) @
            replicate 13 (b_byte 290 250 0 0 True False 290 250) @
            [a_byte 331 250 (- 2) 0]"
    by (simp add: respawn_first_replicate respawn_byte_def rndE_def b_byte_def a_byte_def
        canvas_width_def canvas_height_def)
  have g: "map (update_ghost (ghostSpeedMultiplier 14))
             [a_ghost 100 100 0 0 (1 / 5),
              a_ghost 100 100 0 0 (1 / 5),
              a_ghost 100 100 0 0 (1 / 5)] =
           [a_ghost 100 100 0 0 (3 / 10),
            a_ghost 100 100 0 0 (3 / 10),
            a_ghost 100 100 0 0 (3 / 10)]"
    by (simp add: moving_ghost ghostSpeedMultiplier_def)
  have f0: "update_byte (ctrl_at 290 250) True
              [a_ghost 100 100 0 0 p,
               a_ghost 100 100 0 0 q,
               a_ghost 100 100 0 0 r]
              (b_byte 290 250 0 0 False False 290 250) c e =
            (b_byte 290 250 0 0 True False 290 250, c + 1, e)" for c e p q r
    by (simp add: game_eval)
  have f1: "update_byte (ctrl_at 290 250) True
              [a_ghost 100 100 0 0 p,
               a_ghost 100 100 0 0 q,
               a_ghost 100 100 0 0 r]
              (b_byte 100 100 0 0 True False 0 0) c e =
            (b_byte 100 100 0 0 True False 0 0, c, e)" for c e p q r
    by (simp add: game_eval)
  have f2: "update_byte (ctrl_at 290 250) True
              [a_ghost 100 100 0 0 p,
               a_ghost 100 100 0 0 q,
               a_ghost 100 100 0 0 r]
              (b_byte 290 250 0 0 True False 290 250) c e =
            (b_byte 290 250 0 0 True False 290 250, c, e)" for c e p q r
    by (simp add: game_eval)
  have f3: "update_byte (ctrl_at 290 250) True
              [a_ghost 100 100 0 0 p,
               a_ghost 100 100 0 0 q,
               a_ghost 100 100 0 0 r]
              (a_byte 331 250 (- 2) 0) c e =
            (a_byte 329 250 (- 2) 0, c, e)" for c e p q r
    by (simp add: game_eval)
  have bs: "update_bytes (ctrl_at 290 250) True
              [a_ghost 100 100 0 0 (3 / 10),
               a_ghost 100 100 0 0 (3 / 10),
               a_ghost 100 100 0 0 (3 / 10)]
              ([b_byte 290 250 0 0 False False 290 250] @
               replicate 5 (b_byte 100 100 0 0 True False 0 0) @
               replicate 13 (b_byte 290 250 0 0 True False 290 250) @
               [a_byte 331 250 (- 2) 0]) 14 18 =
            ([b_byte 290 250 0 0 True False 290 250] @
             replicate 5 (b_byte 100 100 0 0 True False 0 0) @
             replicate 13 (b_byte 290 250 0 0 True False 290 250) @
             [a_byte 329 250 (- 2) 0],
             15, 18)"
    unfolding update_bytes_append update_bytes.simps f0 update_bytes_idle [OF f1]
      update_bytes_idle [OF f2] f3
    by simp
  show ?thesis
    unfolding stF2_def stF3_def run_Cons run_Nil timer_ticks
    by (rule frame_session [OF sp g bs]) simp_all
qed

lemma frameF4:
  "run cl0 stF3 [Timer, Frame 8003 rndE] = stF4"
proof -
  have sp: "(if 8003 - 7002 > (1000::int)
             then respawn_first rndE
                 ([b_byte 290 250 0 0 True False 290 250] @
                  replicate 5 (b_byte 100 100 0 0 True False 0 0) @
                  replicate 13 (b_byte 290 250 0 0 True False 290 250) @
                  [a_byte 329 250 (- 2) 0])
             else [b_byte 290 250 0 0 True False 290 250] @
                  replicate 5 (b_byte 100 100 0 0 True False 0 0) @
                  replicate 13 (b_byte 290 250 0 0 True False 290 250) @
                  [a_byte 329 250 (- 2) 0]) =
            [b_byte 290 250 0 0 False False 290 250] @
            replicate 5 (b_byte 100 100 0 0 True False 0 0) @
            replicate 13 (b_byte 290 250 0 0 True False 290 250) @
            [a_byte 329 250 (- 2) 0]"
    by (simp add: respawn_first_replicate respawn_byte_def rndE_def b_byte_def a_byte_def
        canvas_width_def canvas_height_def)
  have g: "map (update_ghost (ghostSpeedMultiplier 15))
             [a_ghost 100 100 0 0 (3 / 10),
              a_ghost 100 100 0 0 (3 / 10),
              a_ghost 100 100 0 0 (3 / 10)] =
           [a_ghost 100 100 0 0 (2 / 5),
            a_ghost 100 100 0 0 (2 / 5),
            a_ghost 100 100 0 0 (2 / 5)]"
    by (simp add: moving_ghost ghostSpeedMultiplier_def)
  have f0: "update_byte (ctrl_at 290 250) True
              [a_ghost 100 100 0 0 p,
               a_ghost 100 100 0 0 q,
               a_ghost 100 100 0 0 r]
              (b_byte 290 250 0 0 False False 290 250) c e =
            (b_byte 290 250 0 0 True False 290 250, c + 1, e)" for c e p q r
    by (simp add: game_eval)
  have f1: "update_byte (ctrl_at 290 250) True
              [a_ghost 100 100 0 0 p,
               a_ghost 100 100 0 0 q,
               a_ghost 100 100 0 0 r]
              (b_byte 100 100 0 0 True False 0 0) c e =
            (b_byte 100 100 0 0 True False 0 0, c, e)" for c e p q r
    by (simp add: game_eval)
  have f2: "update_byte (ctrl_at 290 250) True
              [a_ghost 100 100 0 0 p,
               a_ghost 100 100 0 0 q,
               a_ghost 100 100 0 0 r]
              (b_byte 290 250 0 0 True False 290 250) c e =
            (b_byte 290 250 0 0 True False 290 250, c, e)" for c e p q r
    by (simp add: game_eval)
  have f3: "update_byte (ctrl_at 290 250) True
              [a_ghost 100 100 0 0 p,
               a_ghost 100 100 0 0 q,
               a_ghost 100 100 0 0 r]
              (a_byte 329 250 (- 2) 0) c e =
            (a_byte 327 250 (- 2) 0, c, e)" for c e p q r
    by (simp add: game_eval)
  have bs: "update_bytes (ctrl_at 290 250) True
              [a_ghost 100 100 0 0 (2 / 5),
               a_ghost 100 100 0 0 (2 / 5),
               a_ghost 100 100 0 0 (2 / 5)]
              ([b_byte 290 250 0 0 False False 290 250] @
               replicate 5 (b_byte 100 100 0 0 True False 0 0) @
               replicate 13 (b_byte 290 250 0 0 True False 290 250) @
               [a_byte 329 250 (- 2) 0]) 15 18 =
            ([b_byte 290 250 0 0 True False 290 250] @
             replicate 5 (b_byte 100 100 0 0 True False 0 0) @
             replicate 13 (b_byte 290 250 0 0 True False 290 250) @
             [a_byte 327 250 (- 2) 0],
             16, 18)"
    unfolding update_bytes_append update_bytes.simps f0 update_bytes_idle [OF f1]
      update_bytes_idle [OF f2] f3
    by simp
  show ?thesis
    unfolding stF3_def stF4_def run_Cons run_Nil timer_ticks
    by (rule frame_session [OF sp g bs]) simp_all
qed

lemma frameF5:
  "run cl0 stF4 [Timer, Frame 9004 rndE] = stF5"
proof -
  have sp: "(if 9004 - 8003 > (1000::int)
             then respawn_first rndE
                 ([b_byte 290 250 0 0 True False 290 250] @
                  replicate 5 (b_byte 100 100 0 0 True False 0 0) @
                  replicate 13 (b_byte 290 250 0 0 True False 290 250) @
                  [a_byte 327 250 (- 2) 0])
             else [b_byte 290 250 0 0 True False 290 250] @
                  replicate 5 (b_byte 100 100 0 0 True False 0 0) @
                  replicate 13 (b_byte 290 250 0 0 True False 290 250) @
                  [a_byte 327 250 (- 2) 0]) =
            [b_byte 290 250 0 0 False False 290 250] @
            replicate 5 (b_byte 100 100 0 0 True False 0 0) @
            replicate 13 (b_byte 290 250 0 0 True False 290 250) @
            [a_byte 327 250 (- 2) 0]"
    by (simp add: respawn_first_replicate respawn_byte_def rndE_def b_byte_def a_byte_def
        canvas_width_def canvas_height_def)
  have g: "map (update_ghost (ghostSpeedMultiplier 16))
             [a_ghost 100 100 0 0 (2 / 5),
              a_ghost 100 100 0 0 (2 / 5),
              a_ghost 100 100 0 0 (2 / 5)] =
           [a_ghost 100 100 0 0 (1 / 2),
            a_ghost 100 100 0 0 (1 / 2),
            a_ghost 100 100 0 0 (1 / 2)]"
    by (simp add: moving_ghost ghostSpeedMultiplier_def)
  have f0: "update_byte (ctrl_at 290 250) True
              [a_ghost 100 100 0 0 p,
               a_ghost 100 100 0 0 q,
               a_ghost 100 100 0 0 r]
              (b_byte 290 250 0 0 False False 290 250) c e =
            (b_byte 290 250 0 0 True False 290 250, c + 1, e)" for c e p q r
    by (simp add: game_eval)
  have f1: "update_byte (ctrl_at 290 250) True
              [a_ghost 100 100 0 0 p,
               a_ghost 100 100 0 0 q,
               a_ghost 100 100 0 0 r]
              (b_byte 100 100 0 0 True False 0 0) c e =
            (b_byte 100 100 0 0 True False 0 0, c, e)" for c e p q r
    by (simp add: game_eval)
  have f2: "update_byte (ctrl_at 290 250) True
              [a_ghost 100 100 0 0 p,
               a_ghost 100 100 0 0 q,
               a_ghost 100 100 0 0 r]
              (b_byte 290 250 0 0 True False 290 250) c e =
            (b_byte 290 250 0 0 True False 290 250, c, e)" for c e p q r
    by (simp add: game_eval)
  have f3: "update_byte (ctrl_at 290 250) True
              [a_ghost 100 100 0 0 p,
               a_ghost 100 100 0 0 q,
               a_ghost 100 100 0 0 r]
              (a_byte 327 250 (- 2) 0) c e =
            (a_byte 325 250 (- 2) 0, c, e)" for c e p q r
    by (simp add: game_eval)
  have bs: "update_bytes (ctrl_at 290 250) True
              [a_ghost 100 100 0 0 (1 / 2),
               a_ghost 100 100 0 0 (1 / 2),
               a_ghost 100 100 0 0 (1 / 2)]
              ([b_byte 290 250 0 0 False False 290 250] @
               replicate 5 (b_byte 100 100 0 0 True False 0 0) @
               replicate 13 (b_byte 290 250 0 0 True False 290 250) @
               [a_byte 327 250 (- 2) 0]) 16 18 =
            ([b_byte 290 250 0 0 True False 290 250] @
             replicate 5 (b_byte 100 100 0 0 True False 0 0) @
             replicate 13 (b_byte 290 250 0 0 True False 290 250) @
             [a_byte 325 250 (- 2) 0],
             17, 18)"
    unfolding update_bytes_append update_bytes.simps f0 update_bytes_idle [OF f1]
      update_bytes_idle [OF f2] f3
    by simp
  show ?thesis
    unfolding stF4_def stF5_def run_Cons run_Nil timer_ticks
    by (rule frame_session [OF sp g bs]) simp_all
qed

lemma frameF6:
  "run cl0 stF5 [Timer, Frame 10005 rndE] = stF6"
proof -
  have sp: "(if 10005 - 9004 > (1000::int)
             then respawn_first rndE
                 ([b_byte 290 250 0 0 True False 290 250] @
                  replicate 5 (b_byte 100 100 0 0 True False 0 0) @
                  replicate 13 (b_byte 290 250 0 0 True False 290 250) @
                  [a_byte 325 250 (- 2) 0])
             else [b_byte 290 250 0 0 True False 290 250] @
                  replicate 5 (b_byte 100 100 0 0 True False 0 0) @
                  replicate 13 (b_byte 290 250 0 0 True False 290 250) @
                  [a_byte 325 250 (- 2) 0]) =
            [b_byte 290 250 0 0 False False 290 250] @
            replicate 5 (b_byte 100 100 0 0 True False 0 0) @
            replicate 13 (b_byte 290 250 0 0 True False 290 250) @
            [a_byte 325 250 (- 2) 0]"
    by (simp add: respawn_first_replicate respawn_byte_def rndE_def b_byte_def a_byte_def
        canvas_width_def canvas_height_def)
  have g: "map (update_ghost (ghostSpeedMultiplier 17))
             [a_ghost 100 100 0 0 (1 / 2),
              a_ghost 100 100 0 0 (1 / 2),
              a_ghost 100 100 0 0 (1 / 2)] =
           [a_ghost 100 100 0 0 (3 / 5),
            a_ghost 100 100 0 0 (3 / 5),
            a_ghost 100 100 0 0 (3 / 5)]"
    by (simp add: moving_ghost ghostSpeedMultiplier_def)
  have f0: "update_byte (ctrl_at 290 250) True
              [a_ghost 100 100 0 0 p,
               a_ghost 100 100 0 0 q,
               a_ghost 100 100 0 0 r]
              (b_byte 290 250 0 0 False False 290 250) c e =
            (b_byte 290 250 0 0 True False 290 250, c + 1, e)" for c e p q r
    by (simp add: game_eval)
  have f1: "update_byte (ctrl_at 290 250) True
              [a_ghost 100 100 0 0 p,
               a_ghost 100 100 0 0 q,
               a_ghost 100 100 0 0 r]
              (b_byte 100 100 0 0 True False 0 0) c e =
            (b_byte 100 100 0 0 True False 0 0, c, e)" for c e p q r
    by (simp add: game_eval)
  have f2: "update_byte (ctrl_at 290 250) True
              [a_ghost 100 100 0 0 p,
               a_ghost 100 100 0 0 q,
               a_ghost 100 100 0 0 r]
              (b_byte 290 250 0 0 True False 290 250) c e =
            (b_byte 290 250 0 0 True False 290 250, c, e)" for c e p q r
    by (simp add: game_eval)
  have f3: "update_byte (ctrl_at 290 250) True
              [a_ghost 100 100 0 0 p,
               a_ghost 100 100 0 0 q,
               a_ghost 100 100 0 0 r]
              (a_byte 325 250 (- 2) 0) c e =
            (a_byte 323 250 (- 2) 0, c, e)" for c e p q r
    by (simp add: game_eval)
  have bs: "update_bytes (ctrl_at 290 250) True
              [a_ghost 100 100 0 0 (3 / 5),
               a_ghost 100 100 0 0 (3 / 5),
               a_ghost 100 100 0 0 (3 / 5)]
              ([b_byte 290 250 0 0 False False 290 250] @
               replicate 5 (b_byte 100 100 0 0 True False 0 0) @
               replicate 13 (b_byte 290 250 0 0 True False 290 250) @
               [a_byte 325 250 (- 2) 0]) 17 18 =
            ([b_byte 290 250 0 0 True False 290 250] @
             replicate 5 (b_byte 100 100 0 0 True False 0 0) @
             replicate 13 (b_byte 290 250 0 0 True False 290 250) @
             [a_byte 323 250 (- 2) 0],
             18, 18)"
    unfolding update_bytes_append update_bytes.simps f0 update_bytes_idle [OF f1]
      update_bytes_idle [OF f2] f3
    by simp
  show ?thesis
    unfolding stF5_def stF6_def run_Cons run_Nil timer_ticks
    by (rule frame_session [OF sp g bs]) simp_all
qed

lemma frameF7:
  "run cl0 stF6 [Timer, Frame 11006 rndE] = stF7"
proof -
  have sp: "(if 11006 - 10005 > (1000::int)
             then respawn_first rndE
                 ([b_byte 290 250 0 0 True False 290 250] @
                  replicate 5 (b_byte 100 100 0 0 True False 0 0) @
                  replicate 13 (b_byte 290 250 0 0 True False 290 250) @
                  [a_byte 323 250 (- 2) 0])
             else [b_byte 290 250 0 0 True False 290 250] @
                  replicate 5 (b_byte 100 100 0 0 True False 0 0) @
                  replicate 13 (b_byte 290 250 0 0 True False 290 250) @
                  [a_byte 323 250 (- 2) 0]) =
            [b_byte 290 250 0 0 False False 290 250] @
            replicate 5 (b_byte 100 100 0 0 True False 0 0) @
            replicate 13 (b_byte 290 250 0 0 True False 290 250) @
            [a_byte 323 250 (- 2) 0]"
    by (simp add: respawn_first_replicate respawn_byte_def rndE_def b_byte_def a_byte_def
        canvas_width_def canvas_height_def)
  have g: "map (update_ghost (ghostSpeedMultiplier 18))
             [a_ghost 100 100 0 0 (3 / 5),
              a_ghost 100 100 0 0 (3 / 5),
              a_ghost 100 100 0 0 (3 / 5)] =
           [a_ghost 100 100 0 0 (7 / 10),
            a_ghost 100 100 0 0 (7 / 10),
            a_ghost 100 100 0 0 (7 / 10)]"
    by (simp add: moving_ghost ghostSpeedMultiplier_def)
  have f0: "update_byte (ctrl_at 290 250) True
              [a_ghost 100 100 0 0 p,
               a_ghost 100 100 0 0 q,
               a_ghost 100 100 0 0 r]
              (b_byte 290 250 0 0 False False 290 250) c e =
            (b_byte 290 250 0 0 True False 290 250, c + 1, e)" for c e p q r
    by (simp add: game_eval)
  have f1: "update_byte (ctrl_at 290 250) True
              [a_ghost 100 100 0 0 p,
               a_ghost 100 100 0 0 q,
               a_ghost 100 100 0 0 r]
              (b_byte 100 100 0 0 True False 0 0) c e =
            (b_byte 100 100 0 0 True False 0 0, c, e)" for c e p q r
    by (simp add: game_eval)
  have f2: "update_byte (ctrl_at 290 250) True
              [a_ghost 100 100 0 0 p,
               a_ghost 100 100 0 0 q,
               a_ghost 100 100 0 0 r]
              (b_byte 290 250 0 0 True False 290 250) c e =
            (b_byte 290 250 0 0 True False 290 250, c, e)" for c e p q r
    by (simp add: game_eval)
  have f3: "update_byte (ctrl_at 290 250) True
              [a_ghost 100 100 0 0 p,
               a_ghost 100 100 0 0 q,
               a_ghost 100 100 0 0 r]
              (a_byte 323 250 (- 2) 0) c e =
            (a_byte 321 250 (- 2) 0, c, e)" for c e p q r
    by (simp add: game_eval)
  have bs: "update_bytes (ctrl_at 290 250) True
              [a_ghost 100 100 0 0 (7 / 10),
               a_ghost 100 100 0 0 (7 / 10),
               a_ghost 100 100 0 0 (7 / 10)]
              ([b_byte 290 250 0 0 False False 290 250] @
               replicate 5 (b_byte 100 100 0 0 True False 0 0) @
               replicate 13 (b_byte 290 250 0 0 True False 290 250) @
               [a_byte 323 250 (- 2) 0]) 18 18 =
            ([b_byte 290 250 0 0 True False 290 250] @
             replicate 5 (b_byte 100 100 0 0 True False 0 0) @
             replicate 13 (b_byte 290 250 0 0 True False 290 250) @
             [a_byte 321 250 (- 2) 0],
             19, 18)"
    unfolding update_bytes_append update_bytes.simps f0 update_bytes_idle [OF f1]
      update_bytes_idle [OF f2] f3
    by simp
  show ?thesis
    unfolding stF6_def stF7_def run_Cons run_Nil timer_ticks
    by (rule frame_session [OF sp g bs]) simp_all
qed

lemma frameF8:
  shows "caughtBytes (run cl0 stF7 [Timer, Frame 12007 rndE]) = 21"
    and "eatenBytes (run cl0 stF7 [Timer, Frame 12007 rndE]) = 18"
    and "gameResult (ui (run cl0 stF7 [Timer, Frame 12007 rndE])) = Success"
proof -
  have sp: "(if 12007 - 11006 > (1000::int)
             then respawn_first rndE
                 ([b_byte 290 250 0 0 True False 290 250] @
                  replicate 5 (b_byte 100 100 0 0 True False 0 0) @
                  replicate 13 (b_byte 290 250 0 0 True False 290 250) @
                  [a_byte 321 250 (- 2) 0])
             else [b_byte 290 250 0 0 True False 290 250] @
                  replicate 5 (b_byte 100 100 0 0 True False 0 0) @
                  replicate 13 (b_byte 290 250 0 0 True False 290 250) @
                  [a_byte 321 250 (- 2) 0]) =
            [b_byte 290 250 0 0 False False 290 250] @
            replicate 5 (b_byte 100 100 0 0 True False 0 0) @
            replicate 13 (b_byte 290 250 0 0 True False 290 250) @
            [a_byte 321 250 (- 2) 0]"
    by (simp add: respawn_first_replicate respawn_byte_def rndE_def b_byte_def a_byte_def
        canvas_width_def canvas_height_def)
  have g: "map (update_ghost (ghostSpeedMultiplier 19))
             [a_ghost 100 100 0 0 (7 / 10),
              a_ghost 100 100 0 0 (7 / 10),
              a_ghost 100 100 0 0 (7 / 10)] =
           [a_ghost 100 100 0 0 (4 / 5),
            a_ghost 100 100 0 0 (4 / 5),
            a_ghost 100 100 0 0 (4 / 5)]"
    by (simp add: moving_ghost ghostSpeedMultiplier_def)
  have f0: "update_byte (ctrl_at 290 250) True
              [a_ghost 100 100 0 0 p,
               a_ghost 100 100 0 0 q,
               a_ghost 100 100 0 0 r]
              (b_byte 290 250 0 0 False False 290 250) c e =
            (b_byte 290 250 0 0 True False 290 250, c + 1, e)" for c e p q r
    by (simp add: game_eval sqrt_841)
  have f1: "update_byte (ctrl_at 290 250) True
              [a_ghost 100 100 0 0 p,
               a_ghost 100 100 0 0 q,
               a_ghost 100 100 0 0 r]
              (b_byte 100 100 0 0 True False 0 0) c e =
            (b_byte 100 100 0 0 True False 0 0, c, e)" for c e p q r
    by (simp add: game_eval sqrt_841)
  have f2: "update_byte (ctrl_at 290 250) True
              [a_ghost 100 100 0 0 p,
               a_ghost 100 100 0 0 q,
               a_ghost 100 100 0 0 r]
              (b_byte 290 250 0 0 True False 290 250) c e =
            (b_byte 290 250 0 0 True False 290 250, c, e)" for c e p q r
    by (simp add: game_eval sqrt_841)
  have f3: "update_byte (ctrl_at 290 250) True
              [a_ghost 100 100 0 0 p,
               a_ghost 100 100 0 0 q,
               a_ghost 100 100 0 0 r]
              (a_byte 321 250 (- 2) 0) c e =
            (b_byte 316 250 (- 2) 0 True False 290 250, c + 1, e)" for c e p q r
    by (simp add: game_eval sqrt_841)
  have bs: "update_bytes (ctrl_at 290 250) True
              [a_ghost 100 100 0 0 (4 / 5),
               a_ghost 100 100 0 0 (4 / 5),
               a_ghost 100 100 0 0 (4 / 5)]
              ([b_byte 290 250 0 0 False False 290 250] @
               replicate 5 (b_byte 100 100 0 0 True False 0 0) @
               replicate 13 (b_byte 290 250 0 0 True False 290 250) @
               [a_byte 321 250 (- 2) 0]) 19 18 =
            ([b_byte 290 250 0 0 True False 290 250] @
             replicate 5 (b_byte 100 100 0 0 True False 0 0) @
             replicate 13 (b_byte 290 250 0 0 True False 290 250) @
             [b_byte 316 250 (- 2) 0 True False 290 250],
             21, 18)"
    unfolding update_bytes_append update_bytes.simps f0 update_bytes_idle [OF f1]
      update_bytes_idle [OF f2] f3
    by simp
  show "caughtBytes (run cl0 stF7 [Timer, Frame 12007 rndE]) = 21"
    and "eatenBytes (run cl0 stF7 [Timer, Frame 12007 rndE]) = 18"
    and "gameResult (ui (run cl0 stF7 [Timer, Frame 12007 rndE])) = Success"
    unfolding stF7_def run_Cons run_Nil timer_ticks
    using frame_session_last [OF sp g bs] by simp_all
qed

lemma runF:
  shows "caughtBytes (run cl0 startF eventsE) = 21"
    and "eatenBytes (run cl0 startF eventsE) = 18"
    and "gameResult (ui (run cl0 startF eventsE)) = Success"
  unfolding eventsE_def run_append startF_state frameF2 frameF3 frameF4 frameF5 frameF6
    frameF7 frameF8
  by simp_all

lemma init_ghosts_G:
  "map (init_ghost (draws bd gdG)) [0..<totalGhosts] =
     [a_ghost (505 / 4) 100 (- 3 / 4) 0 0,
      a_ghost 500 300 0 0 0,
      a_ghost 500 300 0 0 0]"
  by (rule init_ghosts_three) (simp_all add: gdG_def)

lemma startG_state: "startG = stG1"
proof -
  have g: "map (update_ghost 1)
             [a_ghost (505 / 4) 100 (- 3 / 4) 0 0,
              a_ghost 500 300 0 0 0,
              a_ghost 500 300 0 0 0] =
           [a_ghost (251 / 2) 100 (- 3 / 4) 0 (1 / 10),
            a_ghost 500 300 0 0 (1 / 10),
            a_ghost 500 300 0 0 (1 / 10)]"
    by (simp add: moving_ghost)
  have f0: "update_byte (ctrl_at 300 200) False
              [a_ghost (251 / 2) 100 (- 3 / 4) 0 p,
               a_ghost 500 300 0 0 q,
               a_ghost 500 300 0 0 r]
              (a_byte 100 100 0 0) c e =
            (a_byte 100 100 0 0, c, e)" for c e p q r
    by (simp add: game_eval)
  have f1: "update_byte (ctrl_at 300 200) False
              [a_ghost (251 / 2) 100 (- 3 / 4) 0 p,
               a_ghost 500 300 0 0 q,
               a_ghost 500 300 0 0 r]
              (a_byte 300 50 0 0) c e =
            (a_byte 300 50 0 0, c, e)" for c e p q r
    by (simp add: game_eval)
  have bs: "update_bytes (ctrl_at 300 200) False
              [a_ghost (251 / 2) 100 (- 3 / 4) 0 (1 / 10),
               a_ghost 500 300 0 0 (1 / 10),
               a_ghost 500 300 0 0 (1 / 10)]
              ([a_byte 100 100 0 0] @
               replicate 19 (a_byte 300 50 0 0)) 0 0 =
            ([a_byte 100 100 0 0] @
             replicate 19 (a_byte 300 50 0 0),
             0, 0)"
    unfolding update_bytes_append update_bytes.simps f0 update_bytes_idle [OF f1]
    by simp
  show ?thesis
    unfolding startG_def stG1_def
    by (rule startGame_session [OF init_bytes_A init_ghosts_G g bs]) simp_all
qed

lemma frameG2:
  "run cl0 stG1 [MouseMove 72 100, MouseDown, Frame 5016 rndH] = stG2"
proof -
  have sp: "(if 5016 - 5000 > (1000::int)
             then respawn_first rndH
                 ([a_byte 100 100 0 0] @
                  replicate 19 (a_byte 300 50 0 0))
             else [a_byte 100 100 0 0] @
                  replicate 19 (a_byte 300 50 0 0)) =
            [a_byte 100 100 0 0] @
            replicate 19 (a_byte 300 50 0 0)"
    by (simp add: respawn_first_replicate respawn_byte_def rndH_def b_byte_def a_byte_def
        canvas_width_def canvas_height_def)
  have g: "map (update_ghost (ghostSpeedMultiplier 0))
             [a_ghost (251 / 2) 100 (- 3 / 4) 0 (1 / 10),
              a_ghost 500 300 0 0 (1 / 10),
              a_ghost 500 300 0 0 (1 / 10)] =
           [a_ghost (499 / 4) 100 (- 3 / 4) 0 (1 / 5),
            a_ghost 500 300 0 0 (1 / 5),
            a_ghost 500 300 0 0 (1 / 5)]"
    by (simp add: moving_ghost ghostSpeedMultiplier_def)
  have f0: "update_byte (ctrl_at 72 100) True
              [a_ghost (499 / 4) 100 (- 3 / 4) 0 p,
               a_ghost 500 300 0 0 q,
               a_ghost 500 300 0 0 r]
              (a_byte 100 100 0 0) c e =
            (b_byte 100 100 0 0 True True 72 100, c, e + 1)" for c e p q r
    by (simp add: game_eval)
  have f1: "update_byte (ctrl_at 72 100) True
              [a_ghost (499 / 4) 100 (- 3 / 4) 0 p,
               a_ghost 500 300 0 0 q,
               a_ghost 500 300 0 0 r]
              (a_byte 300 50 0 0) c e =
            (a_byte 300 50 0 0, c, e)" for c e p q r
    by (simp add: game_eval)
  have bs: "update_bytes (ctrl_at 72 100) True
              [a_ghost (499 / 4) 100 (- 3 / 4) 0 (1 / 5),
               a_ghost 500 300 0 0 (1 / 5),
               a_ghost 500 300 0 0 (1 / 5)]
              ([a_byte 100 100 0 0] @
               replicate 19 (a_byte 300 50 0 0)) 0 0 =
            ([b_byte 100 100 0 0 True True 72 100] @
             replicate 19 (a_byte 300 50 0 0),
             0, 1)"
    unfolding update_bytes_append update_bytes.simps f0 update_bytes_idle [OF f1]
    by simp
  show ?thesis
    unfolding stG1_def stG2_def run_Cons run_Nil mouse_session
    by (rule frame_session [OF sp g bs]) simp_all
qed

lemma runG: "run cl0 startG eventsG = stG2"
  unfolding eventsG_def run_append startG_state frameG2
  ..

section \<open>The random numbers of the sessions\<close>


text \<open>The numbers the sessions draw are results \<^verbatim>\<open>Math.random()\<close> can give.\<close>

lemma draws_range:
  assumes "\<And>i. length (bd i) = 6 \<and> (\<forall>r\<in>set (bd i). 0 \<le> r \<and> r < 1)"
    and "\<And>i. length (gd i) = 7 \<and> (\<forall>r\<in>set (gd i). 0 \<le> r \<and> r < 1)"
  shows "0 \<le> draws bd gd k \<and> draws bd gd k < 1"
proof (cases "k < 6 * totalBytes")
  case True
  have "bd (k div 6) ! (k mod 6) \<in> set (bd (k div 6))"
    using assms(1) [of "k div 6"] by (intro nth_mem) simp
  with assms(1) [of "k div 6"] True show ?thesis by (simp add: draws_def)
next
  case False
  have "gd ((k - 6 * totalBytes) div 7) ! ((k - 6 * totalBytes) mod 7)
          \<in> set (gd ((k - 6 * totalBytes) div 7))"
    using assms(2) [of "(k - 6 * totalBytes) div 7"] by (intro nth_mem) simp
  with assms(2) [of "(k - 6 * totalBytes) div 7"] False show ?thesis by (simp add: draws_def)
qed

lemma session_draws_range:
  "0 \<le> draws bdA gdA k \<and> draws bdA gdA k < 1"
  "0 \<le> draws bdA gdB k \<and> draws bdA gdB k < 1"
  "0 \<le> draws bdC gdC k \<and> draws bdC gdC k < 1"
  "0 \<le> draws bdD gdD k \<and> draws bdD gdD k < 1"
  "0 \<le> draws bdE gdE k \<and> draws bdE gdE k < 1"
  "0 \<le> draws bdF gdE k \<and> draws bdF gdE k < 1"
  "0 \<le> draws bdA gdG k \<and> draws bdA gdG k < 1"
  "0 \<le> rndH k \<and> rndH k < 1"
  "0 \<le> rndE k \<and> rndE k < 1"
proof -
  have bA: "length (bdA i) = 6 \<and> (\<forall>r\<in>set (bdA i). 0 \<le> r \<and> r < 1)" for i
    by (auto simp add: bdA_def byte_draws_def)
  have bC: "length (bdC i) = 6 \<and> (\<forall>r\<in>set (bdC i). 0 \<le> r \<and> r < 1)" for i
    by (auto simp add: bdC_def byte_draws_def)
  have bD: "length (bdD i) = 6 \<and> (\<forall>r\<in>set (bdD i). 0 \<le> r \<and> r < 1)" for i
    by (auto simp add: bdD_def byte_draws_def)
  have bE: "length (bdE i) = 6 \<and> (\<forall>r\<in>set (bdE i). 0 \<le> r \<and> r < 1)" for i
    by (auto simp add: bdE_def byte_draws_def)
  have bF: "length (bdF i) = 6 \<and> (\<forall>r\<in>set (bdF i). 0 \<le> r \<and> r < 1)" for i
    by (auto simp add: bdF_def byte_draws_def)
  have gA: "length (gdA i) = 7 \<and> (\<forall>r\<in>set (gdA i). 0 \<le> r \<and> r < 1)" for i
    by (auto simp add: gdA_def ghost_draws_def)
  have gB: "length (gdB i) = 7 \<and> (\<forall>r\<in>set (gdB i). 0 \<le> r \<and> r < 1)" for i
    by (auto simp add: gdB_def ghost_draws_def)
  have gC: "length (gdC i) = 7 \<and> (\<forall>r\<in>set (gdC i). 0 \<le> r \<and> r < 1)" for i
    by (auto simp add: gdC_def ghost_draws_def)
  have gD: "length (gdD i) = 7 \<and> (\<forall>r\<in>set (gdD i). 0 \<le> r \<and> r < 1)" for i
    by (auto simp add: gdD_def ghost_draws_def)
  have gE: "length (gdE i) = 7 \<and> (\<forall>r\<in>set (gdE i). 0 \<le> r \<and> r < 1)" for i
    by (auto simp add: gdE_def ghost_draws_def)
  have gG: "length (gdG i) = 7 \<and> (\<forall>r\<in>set (gdG i). 0 \<le> r \<and> r < 1)" for i
    by (auto simp add: gdG_def ghost_draws_def)
  show "0 \<le> draws bdA gdA k \<and> draws bdA gdA k < 1" by (rule draws_range [OF bA gA])
  show "0 \<le> draws bdA gdB k \<and> draws bdA gdB k < 1" by (rule draws_range [OF bA gB])
  show "0 \<le> draws bdC gdC k \<and> draws bdC gdC k < 1" by (rule draws_range [OF bC gC])
  show "0 \<le> draws bdD gdD k \<and> draws bdD gdD k < 1" by (rule draws_range [OF bD gD])
  show "0 \<le> draws bdE gdE k \<and> draws bdE gdE k < 1" by (rule draws_range [OF bE gE])
  show "0 \<le> draws bdF gdE k \<and> draws bdF gdE k < 1" by (rule draws_range [OF bF gE])
  show "0 \<le> draws bdA gdG k \<and> draws bdA gdG k < 1" by (rule draws_range [OF bA gG])
  show "0 \<le> rndH k \<and> rndH k < 1" by (simp add: rndH_def)
  show "0 \<le> rndE k \<and> rndE k < 1" by (simp add: rndE_def)
qed


section \<open>The claims\<close>

subsection \<open>C1: what the respawn recycles\<close>

text \<open>
  Claim C1, as the code has it.  A byte has a single \<open>caught\<close> flag, set alike by a deposit
  and by a ghost, and no record of how it was caught.  A caught byte is left untouched by the
  per-frame update, so it comes back into play only through the respawn; the respawn takes
  the first byte in array order whose \<open>caught\<close> flag is set, however it was set, and makes
  it free; with no caught byte the respawn changes nothing.
\<close>

theorem respawn_takes_first_caught:
  "(caught b \<longrightarrow> update_byte ctrl d gs b c e = (b, c, e)) \<and>
   ((\<exists>b\<in>set bs. caught b) \<longrightarrow>
      (\<exists>i < length bs. caught (bs ! i) \<and> (\<forall>j < i. \<not> caught (bs ! j)) \<and>
         respawn_first rnd bs = bs[i := respawn_byte rnd (bs ! i)] \<and>
         is_free (respawn_first rnd bs ! i))) \<and>
   ((\<forall>b\<in>set bs. \<not> caught b) \<longrightarrow> respawn_first rnd bs = bs)"
proof -
  let ?i = "length (takeWhile (\<lambda>b. \<not> caught b) bs)"
  have 1: "caught b \<longrightarrow> update_byte ctrl d gs b c e = (b, c, e)"
    by (simp add: update_byte_caught)
  have 2: "(\<exists>b\<in>set bs. caught b) \<longrightarrow>
      (\<exists>i < length bs. caught (bs ! i) \<and> (\<forall>j < i. \<not> caught (bs ! j)) \<and>
         respawn_first rnd bs = bs[i := respawn_byte rnd (bs ! i)] \<and>
         is_free (respawn_first rnd bs ! i))"
  proof
    assume "\<exists>b\<in>set bs. caught b"
    then have lt: "?i < length bs"
      by (induction bs) auto
    have r: "respawn_first rnd bs = bs[?i := respawn_byte rnd (bs ! ?i)]"
      using lt by (simp add: respawn_first_update Let_def)
    have f: "is_free (respawn_first rnd bs ! ?i)"
      using lt by (simp add: r is_free_def respawn_byte_fields)
    from lt first_caught [OF lt] r f
    show "\<exists>i < length bs. caught (bs ! i) \<and> (\<forall>j < i. \<not> caught (bs ! j)) \<and>
         respawn_first rnd bs = bs[i := respawn_byte rnd (bs ! i)] \<and>
         is_free (respawn_first rnd bs ! i)"
      by blast
  qed
  have 3: "(\<forall>b\<in>set bs. \<not> caught b) \<longrightarrow> respawn_first rnd bs = bs"
    by (simp add: respawn_first_none)
  from 1 2 3 show ?thesis by blast
qed

text \<open>
  Claim C1, witness: in session A after the first frame, byte 0 is caught, the per-frame
  update leaves it alone, and the respawn makes the first caught byte free.
\<close>

theorem respawn_takes_first_caught_witness:
  "caught (bytes startA ! 0) \<and>
   update_byte (ctrl_at 300 200) False [] (bytes startA ! 0) 0 0 = (bytes startA ! 0, 0, 0) \<and>
   (\<exists>b\<in>set (bytes startA). caught b) \<and>
   (\<exists>i < length (bytes startA). caught (bytes startA ! i) \<and>
      (\<forall>j < i. \<not> caught (bytes startA ! j)) \<and>
      respawn_first rndH (bytes startA) =
        (bytes startA)[i := respawn_byte rndH (bytes startA ! i)] \<and>
      is_free (respawn_first rndH (bytes startA) ! i))"
proof -
  have h1: "caught (bytes startA ! 0)"
    by (simp add: startA_state stA1_def session_def b_byte_def)
  have h2: "\<exists>b\<in>set (bytes startA). caught b"
    by (simp add: startA_state stA1_def session_def b_byte_def)
  from h1 h2
    respawn_takes_first_caught [where b = "bytes startA ! 0" and ctrl = "ctrl_at 300 200"
      and d = False and gs = "[]" and c = 0 and e = 0 and bs = "bytes startA" and rnd = rndH]
  show ?thesis by blast
qed

text \<open>
  Claim C1, counterexample to ``a byte eaten by a ghost is never free again'': in session A
  byte 0 is eaten in the first frame (the eaten counter is 1, the deposit counter 0), and
  after the frame 1001 ms later it is free.
\<close>

theorem eaten_byte_respawns:
  "caught (bytes startA ! 0) \<and> eatenBytes startA = 1 \<and> caughtBytes startA = 0 \<and>
   is_free (bytes (run cl0 startA eventsA) ! 0)"
  unfolding runA stA2_def
  by (simp add: startA_state stA1_def session_def is_free_def b_byte_def)

subsection \<open>C2: which bytes the ghosts are tested against\<close>

text \<open>
  Claim C2, as the code has it.  The ghost test sits inside the block guarded by
  \<open>\<not> caught \<and> \<not> grabbed\<close>: a byte that is caught or grabbed when its turn comes is not
  tested and does not change the eaten counter.  A byte that is free when its turn comes is
  tested after its motion and the grab check of the same frame: if it then overlaps a ghost
  it is caught and the eaten counter grows, otherwise the counter stays.
\<close>

theorem consumption_test_scope:
  "(caught b \<or> grabbed b \<longrightarrow> snd (snd (update_byte ctrl d gs b c e)) = e) \<and>
   (caught b \<or> grabbed b \<longrightarrow> free_block ctrl d gs (b, e) = (b, e)) \<and>
   (\<not> caught b \<and> \<not> grabbed b \<longrightarrow>
      (let m = grab_check ctrl d (bounce_y (bounce_x (move_byte b)))
       in ((\<exists>g\<in>set gs. touches m g) \<longrightarrow>
             caught (fst (update_byte ctrl d gs b c e)) \<and>
             e < snd (snd (update_byte ctrl d gs b c e))) \<and>
          (\<not> (\<exists>g\<in>set gs. touches m g) \<longrightarrow>
             snd (snd (update_byte ctrl d gs b c e)) = e)))"
proof -
  have 1: "caught b \<or> grabbed b \<longrightarrow> snd (snd (update_byte ctrl d gs b c e)) = e"
    by (simp add: update_byte_eaten_skip)
  have 2: "caught b \<or> grabbed b \<longrightarrow> free_block ctrl d gs (b, e) = (b, e)"
    by (simp add: free_block_skip)
  have 3: "\<not> caught b \<and> \<not> grabbed b \<longrightarrow>
      (let m = grab_check ctrl d (bounce_y (bounce_x (move_byte b)))
       in ((\<exists>g\<in>set gs. touches m g) \<longrightarrow>
             caught (fst (update_byte ctrl d gs b c e)) \<and>
             e < snd (snd (update_byte ctrl d gs b c e))) \<and>
          (\<not> (\<exists>g\<in>set gs. touches m g) \<longrightarrow>
             snd (snd (update_byte ctrl d gs b c e)) = e))"
    by (auto simp add: update_byte_eaten_free Let_def filter_empty_conv)
  from 1 2 3 show ?thesis by blast
qed

text \<open>
  Claim C2, witness: a held byte with a ghost on top of it keeps the eaten counter at 0; a
  free byte with a ghost on top of it is caught and the counter grows.
\<close>

theorem consumption_test_scope_witness:
  "grabbed (b_byte 100 100 0 0 False True 100 100) \<and>
   snd (snd (update_byte (ctrl_at 100 100) True [a_ghost 100 100 0 0 0]
               (b_byte 100 100 0 0 False True 100 100) 0 0)) = 0 \<and>
   \<not> caught (a_byte 100 100 0 0) \<and> \<not> grabbed (a_byte 100 100 0 0) \<and>
   (\<exists>g\<in>set [a_ghost 100 100 0 0 0].
      touches (grab_check (ctrl_at 300 200) False
                 (bounce_y (bounce_x (move_byte (a_byte 100 100 0 0))))) g) \<and>
   caught (fst (update_byte (ctrl_at 300 200) False [a_ghost 100 100 0 0 0]
                  (a_byte 100 100 0 0) 0 0)) \<and>
   0 < snd (snd (update_byte (ctrl_at 300 200) False [a_ghost 100 100 0 0 0]
                   (a_byte 100 100 0 0) 0 0))"
proof -
  have h1: "grabbed (b_byte 100 100 0 0 False True 100 100)"
    by (simp add: b_byte_def)
  have h2: "\<not> caught (a_byte 100 100 0 0) \<and> \<not> grabbed (a_byte 100 100 0 0)"
    by simp
  have h3: "\<exists>g\<in>set [a_ghost 100 100 0 0 0].
      touches (grab_check (ctrl_at 300 200) False
                 (bounce_y (bounce_x (move_byte (a_byte 100 100 0 0))))) g"
    by (simp add: grab_check_eq still_byte touches_byte_ghost)
  from h1 h2 h3
    consumption_test_scope [where b = "b_byte 100 100 0 0 False True 100 100"
      and ctrl = "ctrl_at 100 100" and d = True and gs = "[a_ghost 100 100 0 0 0]"
      and c = 0 and e = 0]
    consumption_test_scope [where b = "a_byte 100 100 0 0"
      and ctrl = "ctrl_at 300 200" and d = False and gs = "[a_ghost 100 100 0 0 0]"
      and c = 0 and e = 0]
  show ?thesis unfolding Let_def by blast
qed

text \<open>
  Claim C2, counterexample to ``being held offers no protection'': in session B byte 0 is
  grabbed in the second frame; in the third frame ghost 0 overlaps it, and at the end of that
  frame the byte is still held, not caught, and the eaten counter is 0.
\<close>

theorem held_byte_not_consumed:
  "is_held (bytes (run cl0 startB eventsB) ! 0) \<and>
   touches (bytes (run cl0 startB eventsB) ! 0) (ghosts (run cl0 startB eventsB) ! 0) \<and>
   \<not> caught (bytes (run cl0 startB eventsB) ! 0) \<and>
   eatenBytes (run cl0 startB eventsB) = 0"
  unfolding runB stB3_def
  by (simp add: session_def is_held_def touches_iff b_byte_def a_ghost_def power2_eq_square)

subsection \<open>C3: the states of a byte\<close>

text \<open>
  Claim C3, as the code has it.  In every state of every session the array holds 20 bytes.
  The flags of a byte are not exclusive: counting the free, the held and the captured bytes
  gives 20 plus the number of bytes that are held and captured at once.  A byte ends its turn
  held and captured exactly when it was so before, or when it was free, lay within reach of
  the pressed controller after its motion, and lay within reach of a ghost: it is grabbed and
  then eaten in the same turn.  A captured byte, held or not, is left as it is by its turn, and
  so are both counters.  The code keeps one \<open>caught\<close> flag for bytes captured by deposit
  and by a ghost, so the state does not tell the two kinds of captured byte apart; a byte
  that becomes captured in its turn is captured in one way only: either the deposit counter
  grows by one, the eaten counter stays and the byte is no longer held, or the eaten counter
  grows and the deposit counter stays.
\<close>

theorem byte_flags_and_states:
  "length (bytes (run cl (startGame cl t rnd0 rnd) evs)) = 20 \<and>
   length (filter is_free (bytes (run cl (startGame cl t rnd0 rnd) evs))) +
   length (filter is_held (bytes (run cl (startGame cl t rnd0 rnd) evs))) +
   length (filter is_captured (bytes (run cl (startGame cl t rnd0 rnd) evs))) =
     20 + length (filter (\<lambda>b. is_held b \<and> is_captured b)
                    (bytes (run cl (startGame cl t rnd0 rnd) evs))) \<and>
   (is_held (fst (update_byte ctrl d gs b c e)) \<and>
    is_captured (fst (update_byte ctrl d gs b c e)) \<longleftrightarrow>
      (is_held b \<and> is_captured b) \<or>
      (is_free b \<and> d \<and> touches (bounce_y (bounce_x (move_byte b))) ctrl \<and>
       (\<exists>g\<in>set gs. touches (bounce_y (bounce_x (move_byte b))) g))) \<and>
   (is_captured b \<longrightarrow> update_byte ctrl d gs b c e = (b, c, e)) \<and>
   (\<not> is_captured b \<and> is_captured (fst (update_byte ctrl d gs b c e)) \<longrightarrow>
      (fst (snd (update_byte ctrl d gs b c e)) = c + 1 \<and>
       snd (snd (update_byte ctrl d gs b c e)) = e \<and>
       \<not> is_held (fst (update_byte ctrl d gs b c e))) \<or>
      (fst (snd (update_byte ctrl d gs b c e)) = c \<and>
       e < snd (snd (update_byte ctrl d gs b c e))))"
proof -
  let ?bs = "bytes (run cl (startGame cl t rnd0 rnd) evs)"
  let ?u = "update_byte ctrl d gs b c e"
  have 1: "length ?bs = 20"
    using session_lengths(1) [of cl t rnd0 rnd evs] by (simp add: totalBytes_def)
  have 2: "length (filter is_free ?bs) + length (filter is_held ?bs) +
           length (filter is_captured ?bs) =
             20 + length (filter (\<lambda>b. is_held b \<and> is_captured b) ?bs)"
    using flag_counts [of ?bs] 1 by simp
  have 3: "is_held (fst ?u) \<and> is_captured (fst ?u) \<longleftrightarrow>
      (is_held b \<and> is_captured b) \<or>
      (is_free b \<and> d \<and> touches (bounce_y (bounce_x (move_byte b))) ctrl \<and>
       (\<exists>g\<in>set gs. touches (bounce_y (bounce_x (move_byte b))) g))"
    using update_byte_both_flags [of ctrl d gs b c e]
    unfolding is_held_def is_captured_def is_free_def by blast
  have 4: "is_captured b \<longrightarrow> ?u = (b, c, e)"
    by (simp add: is_captured_def update_byte_caught)
  have 5: "\<not> is_captured b \<and> is_captured (fst ?u) \<longrightarrow>
      (fst (snd ?u) = c + 1 \<and> snd (snd ?u) = e \<and> \<not> is_held (fst ?u)) \<or>
      (fst (snd ?u) = c \<and> e < snd (snd ?u))"
    using update_byte_capture_once [of ctrl d gs b c e "fst ?u" "fst (snd ?u)" "snd (snd ?u)"]
    by (simp add: is_captured_def is_held_def)
  from 1 2 3 4 5 show ?thesis by blast
qed

text \<open>
  Claim C3, witness: session G has 20 bytes after its events.  A free byte at (100, 100),
  the pressed controller at (72, 100) and a ghost at (124.75, 100): the byte ends its turn
  held and captured, the eaten counter grown and the deposit counter as it was.  A byte that
  is captured already is left as it is.
\<close>

theorem byte_flags_and_states_witness:
  "length (bytes (run cl0 (startGame cl0 5000 (draws bdA gdG) rndH) eventsG)) = 20 \<and>
   is_free (a_byte 100 100 0 0) \<and>
   touches (bounce_y (bounce_x (move_byte (a_byte 100 100 0 0)))) (ctrl_at 72 100) \<and>
   (\<exists>g\<in>set [a_ghost (499 / 4) 100 (- 3 / 4) 0 0].
      touches (bounce_y (bounce_x (move_byte (a_byte 100 100 0 0)))) g) \<and>
   is_held (fst (update_byte (ctrl_at 72 100) True [a_ghost (499 / 4) 100 (- 3 / 4) 0 0]
                   (a_byte 100 100 0 0) 0 0)) \<and>
   is_captured (fst (update_byte (ctrl_at 72 100) True [a_ghost (499 / 4) 100 (- 3 / 4) 0 0]
                       (a_byte 100 100 0 0) 0 0)) \<and>
   fst (snd (update_byte (ctrl_at 72 100) True [a_ghost (499 / 4) 100 (- 3 / 4) 0 0]
               (a_byte 100 100 0 0) 0 0)) = 0 \<and>
   0 < snd (snd (update_byte (ctrl_at 72 100) True [a_ghost (499 / 4) 100 (- 3 / 4) 0 0]
                   (a_byte 100 100 0 0) 0 0)) \<and>
   is_captured (b_byte 100 100 0 0 True True 72 100) \<and>
   update_byte (ctrl_at 72 100) True [a_ghost (499 / 4) 100 (- 3 / 4) 0 0]
     (b_byte 100 100 0 0 True True 72 100) 0 1 = (b_byte 100 100 0 0 True True 72 100, 0, 1)"
proof -
  have h1: "is_free (a_byte 100 100 0 0)"
    by (simp add: is_free_def)
  have m: "bounce_y (bounce_x (move_byte (a_byte 100 100 0 0))) = a_byte 100 100 0 0"
    by (rule still_byte) simp_all
  have h2: "touches (bounce_y (bounce_x (move_byte (a_byte 100 100 0 0)))) (ctrl_at 72 100)"
    unfolding m by (simp add: touches_iff a_byte_def ctrl_at_def power2_eq_square)
  have h3: "\<exists>g\<in>set [a_ghost (499 / 4) 100 (- 3 / 4) 0 0].
      touches (bounce_y (bounce_x (move_byte (a_byte 100 100 0 0)))) g"
    unfolding m by (simp add: touches_byte_ghost power2_eq_square)
  have h4: "\<not> is_captured (a_byte 100 100 0 0)"
    by (simp add: is_captured_def)
  have h5: "is_captured (b_byte 100 100 0 0 True True 72 100)"
    by (simp add: is_captured_def b_byte_def)
  from h1 h2 h3 h4 h5
    byte_flags_and_states [where cl = cl0 and t = 5000 and ?rnd0.0 = "draws bdA gdG"
      and rnd = rndH and evs = eventsG and b = "a_byte 100 100 0 0" and ctrl = "ctrl_at 72 100"
      and d = True and gs = "[a_ghost (499 / 4) 100 (- 3 / 4) 0 0]" and c = 0 and e = 0]
    byte_flags_and_states [where cl = cl0 and t = 5000 and ?rnd0.0 = "draws bdA gdG"
      and rnd = rndH and evs = eventsG and b = "b_byte 100 100 0 0 True True 72 100"
      and ctrl = "ctrl_at 72 100" and d = True and gs = "[a_ghost (499 / 4) 100 (- 3 / 4) 0 0]"
      and c = 0 and e = 1]
  show ?thesis by blast
qed

text \<open>
  Claim C3, counterexample to ``each collectible is in exactly one of the states'' and to
  ``no unit ever counted in two states at once'': in session G byte 0 is free after the first
  frame; in the second frame it is grabbed and eaten, and after that frame both its flags
  are set: it is held and captured, and the free, held and captured bytes count 21.
\<close>

theorem byte_held_and_captured:
  "is_free (bytes startG ! 0) \<and>
   grabbed (bytes (run cl0 startG eventsG) ! 0) \<and>
   caught (bytes (run cl0 startG eventsG) ! 0) \<and>
   is_held (bytes (run cl0 startG eventsG) ! 0) \<and>
   is_captured (bytes (run cl0 startG eventsG) ! 0) \<and>
   length (filter is_free (bytes (run cl0 startG eventsG))) +
   length (filter is_held (bytes (run cl0 startG eventsG))) +
   length (filter is_captured (bytes (run cl0 startG eventsG))) = 21"
  unfolding runG stG2_def
  by (simp add: startG_state stG1_def session_def is_free_def is_held_def is_captured_def
      b_byte_def)

subsection \<open>C4: win, lose and their order\<close>

text \<open>
  Claim C4, as the code has it.  When the loop body runs, the outcome at the end of the
  frame is decided from the two counters as the frame leaves them, the win check first:
  won iff the deposit counter is at least 20; lost iff the deposit counter is below 20 and
  the eaten counter is at least 20; unchanged otherwise.  So the two never both fire, and
  when both counters have reached 20 in the same frame the outcome is won.  The countdown
  callback, on its own, sets the outcome to lost and the time to 0 when the remaining time
  is at most 1, and otherwise only takes one second off.
\<close>

theorem outcome_evaluation:
  "(showGame cl \<and> gameResult cl = Playing \<and> \<not> isDeploying cl \<longrightarrow>
      gameResult (ui (gameLoop cl t rnd s)) =
        (if caughtBytes (gameLoop cl t rnd s) \<ge> 20 then Success
         else if eatenBytes (gameLoop cl t rnd s) \<ge> 20 then Failed
         else gameResult (ui s))) \<and>
   gameResult (ui (check_end s)) =
     (if caughtBytes s \<ge> 20 then Success
      else if eatenBytes s \<ge> 20 then Failed
      else gameResult (ui s)) \<and>
   gameResult (ui (timer_callback s)) =
     (if timeLeft (ui s) \<le> 1 then Failed else gameResult (ui s)) \<and>
   timeLeft (ui (timer_callback s)) =
     (if timeLeft (ui s) \<le> 1 then 0 else timeLeft (ui s) - 1)"
proof -
  have c: "gameResult (ui (check_end s')) =
     (if caughtBytes (check_end s') \<ge> 20 then Success
      else if eatenBytes (check_end s') \<ge> 20 then Failed
      else gameResult (ui s'))" for s'
    by (simp add: check_end_def stop_all_def totalBytes_def)
  have 1: "showGame cl \<and> gameResult cl = Playing \<and> \<not> isDeploying cl \<longrightarrow>
      gameResult (ui (gameLoop cl t rnd s)) =
        (if caughtBytes (gameLoop cl t rnd s) \<ge> 20 then Success
         else if eatenBytes (gameLoop cl t rnd s) \<ge> 20 then Failed
         else gameResult (ui s))"
    using c [of "play_frame t rnd s"] by (simp add: gameLoop_def play_frame_result)
  have 2: "gameResult (ui (check_end s)) =
     (if caughtBytes s \<ge> 20 then Success
      else if eatenBytes s \<ge> 20 then Failed
      else gameResult (ui s))"
    using c [of s] by (simp add: check_end_frame)
  have 3: "gameResult (ui (timer_callback s)) =
     (if timeLeft (ui s) \<le> 1 then Failed else gameResult (ui s))"
    by (simp add: timer_callback_def stop_all_def)
  have 4: "timeLeft (ui (timer_callback s)) =
     (if timeLeft (ui s) \<le> 1 then 0 else timeLeft (ui s) - 1)"
    by (simp add: timer_callback_def stop_all_def)
  from 1 2 3 4 show ?thesis by blast
qed

text \<open>
  Claim C4, witness: the closure of the sessions passes the guard, and the second frame of
  session A ends with the outcome the two counters give.
\<close>

theorem outcome_evaluation_witness:
  "showGame cl0 \<and> gameResult cl0 = Playing \<and> \<not> isDeploying cl0 \<and>
   gameResult (ui (gameLoop cl0 6001 rndH startA)) =
     (if caughtBytes (gameLoop cl0 6001 rndH startA) \<ge> 20 then Success
      else if eatenBytes (gameLoop cl0 6001 rndH startA) \<ge> 20 then Failed
      else gameResult (ui startA))"
proof -
  have h: "showGame cl0 \<and> gameResult cl0 = Playing \<and> \<not> isDeploying cl0"
    by (simp add: cl0_def)
  from h outcome_evaluation [of cl0 6001 rndH startA] show ?thesis by blast
qed

text \<open>
  Claim C4, counterexample to ``lost iff the consumed counter reaches the total'' and to
  ``consumption is checked before or independently of the win check'': in the last frame of
  session E the deposit counter goes from 19 to 20 and the eaten counter from 18 to 21, and
  the outcome is won.
\<close>

theorem win_checked_before_lose:
  "caughtBytes (run cl0 startE eventsE) = 20 \<and>
   eatenBytes (run cl0 startE eventsE) = 21 \<and>
   gameResult (ui (run cl0 startE eventsE)) = Success"
  using runE by simp

subsection \<open>C5: motion, consumption, deposit\<close>




subsection \<open>C6: the two counters\<close>

text \<open>
  Claim C6, as the code has it.  Over any run both counters never decrease.  Neither is
  bounded by 20: the loop requests its next frame only while both are below 20, so in every
  state of a session with a frame pending both are below 20, but the frame that ends the
  game can overshoot; the deposit counter, which grows by at most one per byte in a frame,
  stays below 40.
\<close>

theorem counters_monotone_bounded_while_running:
  "caughtBytes s \<le> caughtBytes (run cl s evs) \<and>
   eatenBytes s \<le> eatenBytes (run cl s evs) \<and>
   (frame_pending (run cl (startGame cl t rnd0 rnd) evs) \<longrightarrow>
      caughtBytes (run cl (startGame cl t rnd0 rnd) evs) < 20 \<and>
      eatenBytes (run cl (startGame cl t rnd0 rnd) evs) < 20) \<and>
   caughtBytes (run cl (startGame cl t rnd0 rnd) evs) < 40"
  using run_count [of cl s evs] run_inv [OF startGame_inv, of cl cl t rnd0 rnd evs]
  by (simp add: session_inv_def totalBytes_def)

text \<open>
  Claim C6, witness: session A after its second frame has a frame pending, and both counters
  are below 20.
\<close>

theorem counters_monotone_bounded_while_running_witness:
  "frame_pending (run cl0 (startGame cl0 5000 (draws bdA gdA) rndH) eventsA) \<and>
   caughtBytes (run cl0 (startGame cl0 5000 (draws bdA gdA) rndH) eventsA) < 20 \<and>
   eatenBytes (run cl0 (startGame cl0 5000 (draws bdA gdA) rndH) eventsA) < 20"
proof -
  have r: "run cl0 (startGame cl0 5000 (draws bdA gdA) rndH) eventsA =
           run cl0 startA eventsA"
    unfolding startA_def ..
  have h: "frame_pending (run cl0 (startGame cl0 5000 (draws bdA gdA) rndH) eventsA)"
    unfolding r runA stA2_def by (simp add: session_def)
  from h counters_monotone_bounded_while_running
           [of startA cl0 eventsA 5000 "draws bdA gdA" rndH]
  show ?thesis by blast
qed

text \<open>
  Claim C6, counterexample to ``each counter is bounded by 20 and no single frame can push
  the consumed counter past the total'': in session D the eaten counter is 19 after the first
  frame and 21 after the second, each eaten byte overlapping one ghost only; in session F
  the deposit counter ends at 21.
\<close>

theorem counters_pass_total:
  "eatenBytes startD = 19 \<and> eatenBytes (run cl0 startD eventsD) = 21 \<and>
   \<not> eatenBytes (run cl0 startD eventsD) \<le> totalBytes \<and>
   caughtBytes (run cl0 startF eventsE) = 21 \<and>
   \<not> caughtBytes (run cl0 startF eventsE) \<le> totalBytes"
proof -
  have d: "eatenBytes startD = 19 \<and> eatenBytes (run cl0 startD eventsD) = 21"
    using runD(2) by (simp add: startD_state stD1_def session_def)
  have f: "caughtBytes (run cl0 startF eventsE) = 21"
    by (rule runF(1))
  from d f show ?thesis by (simp add: totalBytes_def)
qed

subsection \<open>C7: the collision tests\<close>

text \<open>
  Claim C7, as the code has it.  Both collision tests compare the Euclidean distance between
  the stored positions \<open>(x, y)\<close> of the two entities with the sum of their two \<open>size\<close>
  fields.  They are run in the turn of a byte that is neither caught nor grabbed when its
  turn comes, after its motion: the grab test once, against the controller, and the eating
  test once against each ghost.  The byte is grabbed when the controller is within reach and
  the button pressed, it is caught when some ghost is within reach, and the eaten counter
  grows by the number of ghosts within reach.  In the turn of a caught or grabbed byte no
  test is run.  A frame gives every byte of the array, as the respawn left it, one turn
  against the ghosts as the frame moved them (the byte a turn leaves does not depend on the
  two counters, which are passed as 0 here), so over a frame the eaten counter grows by the
  number of pairs of a free byte and a ghost within its reach.
\<close>

theorem collision_tests_per_frame:
  "(\<not> caught b \<and> \<not> grabbed b \<longrightarrow>
      free_block ctrl d gs (b, e) =
        (let m = bounce_y (bounce_x (move_byte b))
         in ((if dist (Complex (x m) (y m)) (Complex (x ctrl) (y ctrl)) < size_px ctrl + size_px m
                 \<and> d
              then m\<lparr>grabbed := True, targetX := x ctrl, targetY := y ctrl\<rparr>
              else m)
               \<lparr>caught := \<exists>g\<in>set gs. dist (Complex (x m) (y m)) (Complex (x g) (y g))
                                          < size_px g + size_px m\<rparr>,
             e + length (filter (\<lambda>g. dist (Complex (x m) (y m)) (Complex (x g) (y g))
                                        < size_px g + size_px m) gs)))) \<and>
   (caught b \<or> grabbed b \<longrightarrow> free_block ctrl d gs (b, e) = (b, e)) \<and>
   (showGame cl \<and> gameResult cl = Playing \<and> \<not> isDeploying cl \<longrightarrow>
      bytes (gameLoop cl t rnd s) =
        map (\<lambda>b. fst (update_byte (controller s) (isDraggingLocal s)
                          (ghosts (gameLoop cl t rnd s)) b 0 0))
          (bytes (spawn_step t rnd s)) \<and>
      eatenBytes (gameLoop cl t rnd s) =
        eatenBytes s +
        sum_list
          (map (\<lambda>b. if \<not> caught b \<and> \<not> grabbed b
                      then length
                             (filter
                                (\<lambda>g. dist (Complex (x (bounce_y (bounce_x (move_byte b))))
                                                    (y (bounce_y (bounce_x (move_byte b)))))
                                            (Complex (x g) (y g))
                                         < size_px g + size_px (bounce_y (bounce_x (move_byte b))))
                                (ghosts (gameLoop cl t rnd s)))
                      else 0)
             (bytes (spawn_step t rnd s))))"
proof -
  have 1: "\<not> caught b \<and> \<not> grabbed b \<longrightarrow>
      free_block ctrl d gs (b, e) =
        (let m = bounce_y (bounce_x (move_byte b))
         in ((if dist (Complex (x m) (y m)) (Complex (x ctrl) (y ctrl)) < size_px ctrl + size_px m
                 \<and> d
              then m\<lparr>grabbed := True, targetX := x ctrl, targetY := y ctrl\<rparr>
              else m)
               \<lparr>caught := \<exists>g\<in>set gs. dist (Complex (x m) (y m)) (Complex (x g) (y g))
                                          < size_px g + size_px m\<rparr>,
             e + length (filter (\<lambda>g. dist (Complex (x m) (y m)) (Complex (x g) (y g))
                                        < size_px g + size_px m) gs)))"
    by (simp add: free_block_free Let_def touches_grab_check grab_check_eq touches_def [abs_def])
  have 2: "caught b \<or> grabbed b \<longrightarrow> free_block ctrl d gs (b, e) = (b, e)"
    by (simp add: free_block_skip)
  have 3: "showGame cl \<and> gameResult cl = Playing \<and> \<not> isDeploying cl \<longrightarrow>
      bytes (gameLoop cl t rnd s) =
        map (\<lambda>b. fst (update_byte (controller s) (isDraggingLocal s)
                          (ghosts (gameLoop cl t rnd s)) b 0 0))
          (bytes (spawn_step t rnd s)) \<and>
      eatenBytes (gameLoop cl t rnd s) =
        eatenBytes s +
        sum_list
          (map (\<lambda>b. if \<not> caught b \<and> \<not> grabbed b
                      then length
                             (filter
                                (\<lambda>g. dist (Complex (x (bounce_y (bounce_x (move_byte b))))
                                                    (y (bounce_y (bounce_x (move_byte b)))))
                                            (Complex (x g) (y g))
                                         < size_px g + size_px (bounce_y (bounce_x (move_byte b))))
                                (ghosts (gameLoop cl t rnd s)))
                      else 0)
             (bytes (spawn_step t rnd s)))"
  proof
    assume "showGame cl \<and> gameResult cl = Playing \<and> \<not> isDeploying cl"
    then have g: "gameLoop cl t rnd s = check_end (play_frame t rnd s)"
      by (simp add: gameLoop_def)
    from play_frame_bytes [of t rnd s] play_frame_eaten [of t rnd s, unfolded touches_def [abs_def]]
    show "bytes (gameLoop cl t rnd s) =
        map (\<lambda>b. fst (update_byte (controller s) (isDraggingLocal s)
                          (ghosts (gameLoop cl t rnd s)) b 0 0))
          (bytes (spawn_step t rnd s)) \<and>
      eatenBytes (gameLoop cl t rnd s) =
        eatenBytes s +
        sum_list
          (map (\<lambda>b. if \<not> caught b \<and> \<not> grabbed b
                      then length
                             (filter
                                (\<lambda>g. dist (Complex (x (bounce_y (bounce_x (move_byte b))))
                                                    (y (bounce_y (bounce_x (move_byte b)))))
                                            (Complex (x g) (y g))
                                         < size_px g + size_px (bounce_y (bounce_x (move_byte b))))
                                (ghosts (gameLoop cl t rnd s)))
                      else 0)
             (bytes (spawn_step t rnd s)))"
      unfolding g check_end_frame by (rule conjI)
  qed
  from 1 2 3 show ?thesis by blast
qed

text \<open>
  Claim C7, witness: a free byte at (100, 100) with the pressed controller at (72, 100), 28
  away, and a ghost at (124.75, 100), 24.75 away, is grabbed and caught, and the eaten
  counter grows by one; a held byte at the same place is left alone; and the frame of
  session G at time 5016 gives every byte its turn.
\<close>

theorem collision_tests_per_frame_witness:
  "\<not> caught (a_byte 100 100 0 0) \<and> \<not> grabbed (a_byte 100 100 0 0) \<and>
   free_block (ctrl_at 72 100) True [a_ghost (499 / 4) 100 (- 3 / 4) 0 0] (a_byte 100 100 0 0, 0) =
     (b_byte 100 100 0 0 True True 72 100, 1) \<and>
   grabbed (b_byte 100 100 0 0 False True 72 100) \<and>
   free_block (ctrl_at 72 100) True [a_ghost (499 / 4) 100 (- 3 / 4) 0 0]
     (b_byte 100 100 0 0 False True 72 100, 0) = (b_byte 100 100 0 0 False True 72 100, 0) \<and>
   showGame cl0 \<and> gameResult cl0 = Playing \<and> \<not> isDeploying cl0 \<and>
   bytes (gameLoop cl0 5016 rndH startG) =
     map (\<lambda>b. fst (update_byte (controller startG) (isDraggingLocal startG)
                       (ghosts (gameLoop cl0 5016 rndH startG)) b 0 0))
       (bytes (spawn_step 5016 rndH startG))"
proof -
  have h1: "\<not> caught (a_byte 100 100 0 0) \<and> \<not> grabbed (a_byte 100 100 0 0)"
    by simp
  have h2: "grabbed (b_byte 100 100 0 0 False True 72 100)"
    by (simp add: b_byte_def)
  have h3: "showGame cl0 \<and> gameResult cl0 = Playing \<and> \<not> isDeploying cl0"
    by (simp add: cl0_def)
  have m: "bounce_y (bounce_x (move_byte (a_byte 100 100 0 0))) = a_byte 100 100 0 0"
    by (rule still_byte) simp_all
  note t1 = collision_tests_per_frame [where b = "a_byte 100 100 0 0" and ctrl = "ctrl_at 72 100"
      and d = True and gs = "[a_ghost (499 / 4) 100 (- 3 / 4) 0 0]" and e = 0 and cl = cl0
      and t = 5016 and rnd = rndH and s = startG]
  note t2 = collision_tests_per_frame [where b = "b_byte 100 100 0 0 False True 72 100"
      and ctrl = "ctrl_at 72 100" and d = True and gs = "[a_ghost (499 / 4) 100 (- 3 / 4) 0 0]"
      and e = 0 and cl = cl0 and t = 5016 and rnd = rndH and s = startG]
  have e1: "free_block (ctrl_at 72 100) True [a_ghost (499 / 4) 100 (- 3 / 4) 0 0]
              (a_byte 100 100 0 0, 0) =
            (b_byte 100 100 0 0 True True 72 100, 1)"
    using t1 h1 unfolding Let_def m
    by (simp add: dist_pair a_byte_def b_byte_def a_ghost_def ctrl_at_def sqrt_less_num
        power2_eq_square)
  from h1 h2 h3 e1 t1 t2 show ?thesis by blast
qed

text \<open>
  Claim C7, counterexample to ``compares the distance between the two entities' centers
  against the sum of their two radii'': in the second frame of session G byte 0, free until
  then, is grabbed by the controller and eaten by ghost 0.  On the canvas byte 0 is a disc of
  centre (105, 105) and radius 5, ghost 0 a disc of centre (132.25, 107.5) and radius 7.5,
  and the controller a disc of centre (72, 100) and radius 20: the centre of byte 0 is more
  than 27 from the centre of ghost 0, where the radii add up to 12.5, and more than 33 from
  the centre of the controller, where the radii add up to 25.
\<close>

theorem tests_fire_on_distant_discs:
  "is_free (bytes startG ! 0) \<and> eatenBytes startG = 0 \<and>
   grabbed (bytes (run cl0 startG eventsG) ! 0) \<and>
   caught (bytes (run cl0 startG eventsG) ! 0) \<and>
   eatenBytes (run cl0 startG eventsG) = 1 \<and>
   disc_centre (bytes (run cl0 startG eventsG) ! 0) = Complex 105 105 \<and>
   disc_radius (bytes (run cl0 startG eventsG) ! 0) = 5 \<and>
   disc_centre (ghosts (run cl0 startG eventsG) ! 0) = Complex (529 / 4) (215 / 2) \<and>
   disc_radius (ghosts (run cl0 startG eventsG) ! 0) = 15 / 2 \<and>
   controller_centre (controller (run cl0 startG eventsG)) = Complex 72 100 \<and>
   controller_radius (controller (run cl0 startG eventsG)) = 20 \<and>
   \<not> dist (disc_centre (bytes (run cl0 startG eventsG) ! 0))
          (disc_centre (ghosts (run cl0 startG eventsG) ! 0))
       < disc_radius (bytes (run cl0 startG eventsG) ! 0) +
         disc_radius (ghosts (run cl0 startG eventsG) ! 0) \<and>
   27 < dist (disc_centre (bytes (run cl0 startG eventsG) ! 0))
          (disc_centre (ghosts (run cl0 startG eventsG) ! 0)) \<and>
   \<not> dist (disc_centre (bytes (run cl0 startG eventsG) ! 0))
          (disc_centre (ghosts (run cl0 startG eventsG) ! 1))
       < disc_radius (bytes (run cl0 startG eventsG) ! 0) +
         disc_radius (ghosts (run cl0 startG eventsG) ! 1) \<and>
   \<not> dist (disc_centre (bytes (run cl0 startG eventsG) ! 0))
          (disc_centre (ghosts (run cl0 startG eventsG) ! 2))
       < disc_radius (bytes (run cl0 startG eventsG) ! 0) +
         disc_radius (ghosts (run cl0 startG eventsG) ! 2) \<and>
   \<not> dist (disc_centre (bytes (run cl0 startG eventsG) ! 0))
          (controller_centre (controller (run cl0 startG eventsG)))
       < disc_radius (bytes (run cl0 startG eventsG) ! 0) +
         controller_radius (controller (run cl0 startG eventsG)) \<and>
   33 < dist (disc_centre (bytes (run cl0 startG eventsG) ! 0))
          (controller_centre (controller (run cl0 startG eventsG)))"
proof -
  have k0: "27 < dist (Complex 105 105) (Complex (529 / 4) (215 / 2))"
    by (simp add: dist_pair less_sqrt_num power2_eq_square)
  have k1: "100 < dist (Complex 105 105) (Complex (1015 / 2) (615 / 2))"
    by (simp add: dist_pair less_sqrt_num power2_eq_square)
  have k2: "33 < dist (Complex 105 105) (Complex 72 100)"
    by (simp add: dist_pair less_sqrt_num power2_eq_square)
  have n0: "\<not> dist (Complex 105 105) (Complex (529 / 4) (215 / 2)) < 5 + 15 / 2"
    using k0 by simp
  have n1: "\<not> dist (Complex 105 105) (Complex (1015 / 2) (615 / 2)) < 5 + 15 / 2"
    using k1 by simp
  have n2: "\<not> dist (Complex 105 105) (Complex 72 100) < 5 + 20"
    using k2 by simp
  have b: "disc_centre (b_byte 100 100 0 0 True True 72 100) = Complex 105 105"
    "disc_radius (b_byte 100 100 0 0 True True 72 100) = 5"
    by (simp_all add: disc_centre_def disc_radius_def b_byte_def)
  have g0: "disc_centre (a_ghost (499 / 4) 100 (- 3 / 4) 0 (1 / 5)) = Complex (529 / 4) (215 / 2)"
    "disc_radius (a_ghost (499 / 4) 100 (- 3 / 4) 0 (1 / 5)) = 15 / 2"
    by (simp_all add: disc_centre_def disc_radius_def a_ghost_def)
  have g1: "disc_centre (a_ghost 500 300 0 0 (1 / 5)) = Complex (1015 / 2) (615 / 2)"
    "disc_radius (a_ghost 500 300 0 0 (1 / 5)) = 15 / 2"
    by (simp_all add: disc_centre_def disc_radius_def a_ghost_def)
  have ct: "controller_centre (ctrl_at 72 100) = Complex 72 100"
    "controller_radius (ctrl_at 72 100) = 20"
    by (simp_all add: controller_centre_def controller_radius_def ctrl_at_def)
  have s1: "is_free (bytes startG ! 0) \<and> eatenBytes startG = 0"
    by (simp add: startG_state stG1_def session_def is_free_def)
  have s2: "bytes (run cl0 startG eventsG) ! 0 = b_byte 100 100 0 0 True True 72 100"
    "ghosts (run cl0 startG eventsG) ! 0 = a_ghost (499 / 4) 100 (- 3 / 4) 0 (1 / 5)"
    "ghosts (run cl0 startG eventsG) ! 1 = a_ghost 500 300 0 0 (1 / 5)"
    "ghosts (run cl0 startG eventsG) ! 2 = a_ghost 500 300 0 0 (1 / 5)"
    "controller (run cl0 startG eventsG) = ctrl_at 72 100"
    "eatenBytes (run cl0 startG eventsG) = 1"
    unfolding runG stG2_def by (simp_all add: session_def)
  have f: "grabbed (b_byte 100 100 0 0 True True 72 100)"
    "caught (b_byte 100 100 0 0 True True 72 100)"
    by (simp_all add: b_byte_def)
  show ?thesis
    unfolding s2 b g0 g1 ct using s1 f k0 k2 n0 n1 n2 by simp
qed

subsection \<open>C8: free bytes stay inside the canvas\<close>

text \<open>
  Claim C8.  Take a byte that is free when its turn comes and no larger than the canvas.
  After the motion step its position lies in \<open>[0, width - size] \<times> [0, height - size]\<close>:
  on each axis it is the old position plus the velocity, clamped to that interval.  The
  velocity component of an axis is negated exactly when the moved position reaches or
  passes a boundary of that axis, and is otherwise unchanged, so its magnitude is kept.
  If the byte is still free at the end of its turn, this is its position and velocity.
\<close>

theorem free_byte_motion_in_bounds:
  assumes "\<not> caught b" and "\<not> grabbed b"
    and "size_px b \<le> canvas_width" and "size_px b \<le> canvas_height"
  shows "let m = bounce_y (bounce_x (move_byte b));
             b' = fst (update_byte ctrl d gs b c e)
         in 0 \<le> x m \<and> x m \<le> canvas_width - size_px m \<and>
            0 \<le> y m \<and> y m \<le> canvas_height - size_px m \<and>
            x m = max 0 (min (canvas_width - size_px b) (x b + vx b)) \<and>
            y m = max 0 (min (canvas_height - size_px b) (y b + vy b)) \<and>
            vx m = (if x b + vx b \<le> 0 \<or> x b + vx b \<ge> canvas_width - size_px b
                    then - vx b else vx b) \<and>
            vy m = (if y b + vy b \<le> 0 \<or> y b + vy b \<ge> canvas_height - size_px b
                    then - vy b else vy b) \<and>
            \<bar>vx m\<bar> = \<bar>vx b\<bar> \<and> \<bar>vy m\<bar> = \<bar>vy b\<bar> \<and>
            (is_free b' \<longrightarrow>
               x b' = x m \<and> y b' = y m \<and> vx b' = vx m \<and> vy b' = vy m \<and>
               size_px b' = size_px m)"
proof -
  let ?v = "move_byte b"
  let ?h = "bounce_x ?v"
  let ?m = "bounce_y ?h"
  have sv: "size_px ?v \<le> canvas_width" using assms(3) by (simp add: move_byte_fields)
  have sh: "size_px ?h \<le> canvas_height"
    using assms(4) sv by (simp add: bounce_x_fields move_byte_fields)
  have xm: "x ?m = max 0 (min (canvas_width - size_px b) (x b + vx b))"
    using sv sh by (simp add: bounce_y_fields bounce_x_fields move_byte_fields)
  have ym: "y ?m = max 0 (min (canvas_height - size_px b) (y b + vy b))"
    using sv sh by (simp add: bounce_y_fields bounce_x_fields move_byte_fields)
  have sm: "size_px ?m = size_px b"
    using sv sh by (simp add: bounce_y_fields bounce_x_fields move_byte_fields)
  have vxm: "vx ?m = (if x b + vx b \<le> 0 \<or> x b + vx b \<ge> canvas_width - size_px b
                    then - vx b else vx b)"
    using sv sh by (simp add: bounce_y_fields bounce_x_fields move_byte_fields)
  have vym: "vy ?m = (if y b + vy b \<le> 0 \<or> y b + vy b \<ge> canvas_height - size_px b
                    then - vy b else vy b)"
    using sv sh by (simp add: bounce_y_fields bounce_x_fields move_byte_fields)
  have bx: "0 \<le> x ?m \<and> x ?m \<le> canvas_width - size_px ?m"
    using assms(3) by (simp add: xm sm)
  have by': "0 \<le> y ?m \<and> y ?m \<le> canvas_height - size_px ?m"
    using assms(4) by (simp add: ym sm)
  have ab: "\<bar>vx ?m\<bar> = \<bar>vx b\<bar> \<and> \<bar>vy ?m\<bar> = \<bar>vy b\<bar>"
    by (simp add: vxm vym)
  have fr: "is_free (fst (update_byte ctrl d gs b c e)) \<longrightarrow>
     fst (update_byte ctrl d gs b c e) = grab_check ctrl d ?m\<lparr>caught := False\<rparr>"
    using update_byte_still_free [OF assms(1,2)] by blast
  have fr': "is_free (fst (update_byte ctrl d gs b c e)) \<longrightarrow>
     x (fst (update_byte ctrl d gs b c e)) = x ?m \<and>
     y (fst (update_byte ctrl d gs b c e)) = y ?m \<and>
     vx (fst (update_byte ctrl d gs b c e)) = vx ?m \<and>
     vy (fst (update_byte ctrl d gs b c e)) = vy ?m \<and>
     size_px (fst (update_byte ctrl d gs b c e)) = size_px ?m"
  proof
    assume "is_free (fst (update_byte ctrl d gs b c e))"
    with fr have eq: "fst (update_byte ctrl d gs b c e) = grab_check ctrl d ?m\<lparr>caught := False\<rparr>"
      by blast
    show "x (fst (update_byte ctrl d gs b c e)) = x ?m \<and>
     y (fst (update_byte ctrl d gs b c e)) = y ?m \<and>
     vx (fst (update_byte ctrl d gs b c e)) = vx ?m \<and>
     vy (fst (update_byte ctrl d gs b c e)) = vy ?m \<and>
     size_px (fst (update_byte ctrl d gs b c e)) = size_px ?m"
      unfolding eq by (simp add: grab_check_fields)
  qed
  show ?thesis
    unfolding Let_def using bx by' xm ym vxm vym ab fr' by blast
qed

text \<open>
  Claim C8, witness: a free byte of size 10 at \<open>x = 589\<close> moving right by 2 would reach 591;
  it is put at 590 with its horizontal velocity negated, and its vertical motion is
  untouched.
\<close>

theorem free_byte_motion_in_bounds_witness:
  "\<not> caught (a_byte 589 100 2 1) \<and> \<not> grabbed (a_byte 589 100 2 1) \<and>
   size_px (a_byte 589 100 2 1) \<le> canvas_width \<and>
   size_px (a_byte 589 100 2 1) \<le> canvas_height \<and>
   x (bounce_y (bounce_x (move_byte (a_byte 589 100 2 1)))) = 590 \<and>
   y (bounce_y (bounce_x (move_byte (a_byte 589 100 2 1)))) = 101 \<and>
   vx (bounce_y (bounce_x (move_byte (a_byte 589 100 2 1)))) = - 2 \<and>
   vy (bounce_y (bounce_x (move_byte (a_byte 589 100 2 1)))) = 1"
proof -
  have h1: "\<not> caught (a_byte 589 100 2 1)" and h2: "\<not> grabbed (a_byte 589 100 2 1)"
    by simp_all
  have h3: "size_px (a_byte 589 100 2 1) \<le> canvas_width"
    and h4: "size_px (a_byte 589 100 2 1) \<le> canvas_height"
    by (simp_all add: a_byte_def canvas_width_def canvas_height_def)
  have v: "x (a_byte 589 100 2 1) = 589" "y (a_byte 589 100 2 1) = 100"
    "vx (a_byte 589 100 2 1) = 2" "vy (a_byte 589 100 2 1) = 1"
    "size_px (a_byte 589 100 2 1) = 10"
    by (simp_all add: a_byte_def)
  from free_byte_motion_in_bounds [OF h1 h2 h3 h4, of "ctrl_at 300 200" False "[]" 0 0]
  show ?thesis
    unfolding Let_def v using h1 h2 h3 h4
    by (simp add: canvas_width_def canvas_height_def)
qed

subsection \<open>C9: the ghost speed multiplier\<close>

text \<open>
  Claim C9.  Every frame moves the ghosts with the multiplier computed from the deposit
  counter the frame starts with; the multiplier is 2 when that counter is at least 10 and 1
  otherwise; and since the counter never decreases over a run, the multiplier never
  decreases either: once it is 2 it is 2 in every later state.
\<close>

theorem ghostSpeedMultiplier_monotone:
  "ghosts (play_frame t rnd s) =
     map (update_ghost (ghostSpeedMultiplier (caughtBytes s))) (ghosts s) \<and>
   ghostSpeedMultiplier (caughtBytes s) = (if caughtBytes s \<ge> 10 then 2 else 1) \<and>
   ghostSpeedMultiplier (caughtBytes s) \<le> ghostSpeedMultiplier (caughtBytes (run cl s evs)) \<and>
   (ghostSpeedMultiplier (caughtBytes s) = 2 \<longrightarrow>
      ghostSpeedMultiplier (caughtBytes (run cl s evs)) = 2)"
  using run_count [of cl s evs]
  by (auto simp add: play_frame_ghosts ghostSpeedMultiplier_def)

text \<open>
  Claim C9, witness: session E after its second frame has 14 deposits, so the multiplier is
  2, and it is still 2 after the next frame.
\<close>

theorem ghostSpeedMultiplier_monotone_witness:
  "ghostSpeedMultiplier (caughtBytes (run cl0 startE eventsE2)) = 2 \<and>
   ghostSpeedMultiplier
     (caughtBytes (run cl0 (run cl0 startE eventsE2) [Timer, Frame 7002 rndE])) = 2"
proof -
  have h: "ghostSpeedMultiplier (caughtBytes (run cl0 startE eventsE2)) = 2"
    unfolding runE2 stE2_def by (simp add: session_def ghostSpeedMultiplier_def)
  from h ghostSpeedMultiplier_monotone
           [of 0 rndE "run cl0 startE eventsE2" cl0 "[Timer, Frame 7002 rndE]"]
  show ?thesis by blast
qed

subsection \<open>C10: what the respawn leaves alone\<close>

text \<open>
  Claim C10.  The respawn step leaves the ghosts, the controller and both counters as they
  are and keeps the length of the byte array.  When it is due and some byte is caught, the
  array changes at one index only, that of the first caught byte; every other byte is
  unchanged.  The recycled byte gets a new position, velocity and colour and has its
  \<open>caught\<close> and \<open>grabbed\<close> flags cleared; its size and every other field are unchanged.
\<close>

theorem respawn_frame:
  "ghosts (spawn_step t rnd s) = ghosts s \<and>
   controller (spawn_step t rnd s) = controller s \<and>
   caughtBytes (spawn_step t rnd s) = caughtBytes s \<and>
   eatenBytes (spawn_step t rnd s) = eatenBytes s \<and>
   bytes (spawn_step t rnd s) =
     (let i = length (takeWhile (\<lambda>b. \<not> caught b) (bytes s))
      in if t - lastByteSpawn s > 1000 \<and> i < length (bytes s)
         then (bytes s)[i := respawn_byte rnd (bytes s ! i)] else bytes s) \<and>
   (\<forall>j < length (bytes s). j \<noteq> length (takeWhile (\<lambda>b. \<not> caught b) (bytes s)) \<longrightarrow>
      bytes (spawn_step t rnd s) ! j = bytes s ! j) \<and>
   respawn_byte rnd b =
     b\<lparr>x := x (respawn_byte rnd b), y := y (respawn_byte rnd b),
       vx := vx (respawn_byte rnd b), vy := vy (respawn_byte rnd b),
       color := color (respawn_byte rnd b), caught := False, grabbed := False\<rparr> \<and>
   size_px (respawn_byte rnd b) = size_px b"
proof -
  have a: "bytes (spawn_step t rnd s) =
     (let i = length (takeWhile (\<lambda>b. \<not> caught b) (bytes s))
      in if t - lastByteSpawn s > 1000 \<and> i < length (bytes s)
         then (bytes s)[i := respawn_byte rnd (bytes s ! i)] else bytes s)"
    by (simp add: spawn_step_def respawn_first_update Let_def)
  have b: "\<forall>j < length (bytes s). j \<noteq> length (takeWhile (\<lambda>b. \<not> caught b) (bytes s)) \<longrightarrow>
      bytes (spawn_step t rnd s) ! j = bytes s ! j"
    unfolding a by (simp add: Let_def)
  have c: "respawn_byte rnd b =
     b\<lparr>x := x (respawn_byte rnd b), y := y (respawn_byte rnd b),
       vx := vx (respawn_byte rnd b), vy := vy (respawn_byte rnd b),
       color := color (respawn_byte rnd b), caught := False, grabbed := False\<rparr>"
    by (simp add: respawn_byte_def)
  show ?thesis using a b c by (simp add: spawn_step_frame respawn_byte_fields)
qed

text \<open>
  Claim C10, witness: in session A after the first frame the first caught byte is byte 0;
  the respawn 1001 ms later leaves byte 1 as it was.
\<close>

theorem respawn_frame_witness:
  "(1::nat) < length (bytes startA) \<and>
   (1::nat) \<noteq> length (takeWhile (\<lambda>b. \<not> caught b) (bytes startA)) \<and>
   bytes (spawn_step 6001 rndH startA) ! 1 = bytes startA ! 1"
proof -
  have h1: "(1::nat) < length (bytes startA)"
    by (simp add: startA_state stA1_def session_def)
  have h2: "(1::nat) \<noteq> length (takeWhile (\<lambda>b. \<not> caught b) (bytes startA))"
    by (simp add: startA_state stA1_def session_def b_byte_def)
  from h1 h2 respawn_frame [of 6001 rndH startA "bytes startA ! 0"]
  show ?thesis by blast
qed

end
